theory Spec2Isabelle
  imports Complex_Main
begin

section \<open>Two-dimensional arrays\<close>

text \<open>
  A 2D numpy array is a list of rows; \<open>a ! y ! x\<close> is \<open>a[y, x]\<close>.  \<open>height\<close> is
  \<open>shape[0]\<close> and \<open>width\<close> is \<open>shape[1]\<close>.  An array is rectangular (\<open>rect\<close>)
  when every row has the width of the first one, as every numpy array is.
\<close>

type_synonym 'a array2 = "'a list list"

definition height :: "'a array2 \<Rightarrow> nat" where
  "height a = length a"

definition width :: "'a array2 \<Rightarrow> nat" where
  "width a = (case a of [] \<Rightarrow> 0 | r # _ \<Rightarrow> length r)"

definition shape :: "'a array2 \<Rightarrow> nat \<times> nat" where
  "shape a = (height a, width a)"

definition rect :: "'a array2 \<Rightarrow> bool" where
  "rect a = list_all (\<lambda>r. length r = width a) a"

section \<open>Errors\<close>

text \<open>
  Every \<open>raise\<close> of \<open>qi2d.py\<close> is one constructor.  The source raises
  \<open>FileNotFoundError\<close>, \<open>FileExistsError\<close> and \<open>ValueError\<close> with distinct
  messages; the constructors carry the names the specification gives them.
  \<open>ZeroSizeArray\<close> is the error of \<open>r_mesh.min()\<close> on an empty array and
  \<open>ReadFailure\<close> the one of taking \<open>.shape\<close> of the \<open>None\<close> that
  \<open>cv2.imread\<close> returns for a file it cannot read; \<open>WriteFailure\<close> and
  \<open>NoWriter\<close> are the errors of \<open>cv2.imwrite\<close> for an empty image and for a file
  name whose extension it has no writer for, \<open>ZeroDivision\<close> and \<open>Overflow\<close> are
  Python's \<open>ZeroDivisionError\<close> and \<open>OverflowError\<close>.
\<close>

datatype error =
    NotFound string
  | InvalidInput
  | MissingDestination
  | NoInputFiles
  | OutputExists string
  | MissingCalibration
  | UnknownDetector string
  | MaskShapeMismatch
  | ShapeMismatch string
  | InvalidFormat
  | ZeroSizeArray
  | ReadFailure string
  | ZeroDivision
  | Overflow
  | InvalidShape
  | WriteFailure string
  | NoWriter string

section \<open>The radial-averaging kernel\<close>

text \<open>
  \<open>_radial_average(img, center_x, center_y, threshold)\<close>.  Pixel values, the centre
  and the threshold are exact rationals (every finite float is one); the rounding of
  floating-point arithmetic is not modelled, and no pixel is NaN.  The distance
  field \<open>r_mesh[y, x] = sqrt((x - center_x)**2 + (y - center_y)**2)\<close> is the real
  square root; the code only ever uses \<open>int(...)\<close> of it, which \<open>floor_r\<close> computes
  exactly with an integer square root (lemma \<open>floor_r_mesh\<close> below).
\<close>

definition dist_sq :: "rat \<Rightarrow> rat \<Rightarrow> nat \<Rightarrow> nat \<Rightarrow> rat" where
  "dist_sq cx cy x y = (of_nat x - cx)\<^sup>2 + (of_nat y - cy)\<^sup>2"

definition r_mesh :: "rat \<Rightarrow> rat \<Rightarrow> nat \<Rightarrow> nat \<Rightarrow> real" where
  "r_mesh cx cy y x = sqrt (real_of_rat (dist_sq cx cy x y))"

fun isqrt :: "nat \<Rightarrow> nat" where
  "isqrt n = (if n < 2 then n
              else (let r = 2 * isqrt (n div 4) in if (r + 1) * (r + 1) \<le> n then r + 1 else r))"

declare isqrt.simps [simp del]

text \<open>\<open>int(r_mesh[y, x])\<close>; \<open>int\<close> of a non-negative float is its floor.\<close>

definition floor_r :: "rat \<Rightarrow> rat \<Rightarrow> nat \<times> nat \<Rightarrow> int" where
  "floor_r cx cy = (\<lambda>(x, y). int (isqrt (nat \<lfloor>dist_sq cx cy x y\<rfloor>)))"

text \<open>The pixels in the order of the loops \<open>for x in range(width): for y in range(height)\<close>.\<close>

definition pixels :: "nat \<Rightarrow> nat \<Rightarrow> (nat \<times> nat) list" where
  "pixels w h = List.product [0..<w] [0..<h]"

text \<open>
  \<open>min_r = int(r_mesh.min())\<close> and \<open>max_r = int(r_mesh.max()) + 1\<close>: the integer
  part is monotone, so it is taken pixel by pixel before the minimum and the maximum
  (lemmas \<open>min_r_floor\<close> and \<open>max_r_floor\<close>).
\<close>

definition min_r :: "nat \<Rightarrow> nat \<Rightarrow> rat \<Rightarrow> rat \<Rightarrow> int" where
  "min_r w h cx cy = Min (set (map (floor_r cx cy) (pixels w h)))"

definition max_r :: "nat \<Rightarrow> nat \<Rightarrow> rat \<Rightarrow> rat \<Rightarrow> int" where
  "max_r w h cx cy = Max (set (map (floor_r cx cy) (pixels w h))) + 1"

definition r_range :: "nat \<Rightarrow> nat \<Rightarrow> rat \<Rightarrow> rat \<Rightarrow> nat" where
  "r_range w h cx cy = nat (max_r w h cx cy - min_r w h cx cy + 1)"

text \<open>\<open>idx = int(r_mesh[y, x]) - min_r\<close>; it is never negative (lemma \<open>bin_idx_in_range\<close>).\<close>

definition bin_idx :: "nat \<Rightarrow> nat \<Rightarrow> rat \<Rightarrow> rat \<Rightarrow> nat \<times> nat \<Rightarrow> nat" where
  "bin_idx w h cx cy p = nat (floor_r cx cy p - min_r w h cx cy)"

text \<open>
  One turn of the inner loop on the pair \<open>(cnt, i)\<close>: a pixel that is not
  \<open>>= threshold\<close> is skipped, any other adds one to the count and its value to
  the sum of its bin.
\<close>

definition bin_step ::
  "rat array2 \<Rightarrow> rat \<Rightarrow> (nat \<times> nat \<Rightarrow> nat) \<Rightarrow> nat \<times> nat \<Rightarrow> nat list \<times> rat list \<Rightarrow> nat list \<times> rat list" where
  "bin_step img threshold idx_of = (\<lambda>(x, y) (cnt, i).
     if \<not> (img ! y ! x \<ge> threshold) then (cnt, i)
     else (let idx = idx_of (x, y)
           in (cnt[idx := cnt ! idx + 1], i[idx := i ! idx + img ! y ! x])))"

text \<open>The arrays \<open>cnt\<close> and \<open>i\<close> after the two nested loops, before the division.\<close>

definition accumulate :: "rat array2 \<Rightarrow> rat \<Rightarrow> rat \<Rightarrow> rat \<Rightarrow> nat list \<times> rat list" where
  "accumulate img cx cy threshold =
     (let w = width img; h = height img;
          mn = min_r w h cx cy; mx = max_r w h cx cy; n = nat (mx - mn + 1)
      in fold (bin_step img threshold (\<lambda>p. nat (floor_r cx cy p - mn))) (pixels w h)
           (replicate n 0, replicate n 0))"

definition bin_mean :: "nat \<Rightarrow> rat \<Rightarrow> rat" where
  "bin_mean c s = (if c > 0 then s / of_nat c else 0)"

definition radial_average ::
  "rat array2 \<Rightarrow> rat \<Rightarrow> rat \<Rightarrow> rat \<Rightarrow> error + (rat list \<times> rat list)" where
  "radial_average img cx cy threshold =
     (let w = width img; h = height img in
      if w = 0 \<or> h = 0 then Inl ZeroSizeArray
      else (let (cnt, i) = accumulate img cx cy threshold;
                r = map (\<lambda>k. of_int (min_r w h cx cy) + 1 / 2 + of_nat k) [0..<length cnt]
            in Inr (r, map2 bin_mean cnt i)))"

text \<open>
  \<open>img * mask\<close>, element by element, and \<open>_mask_and_average\<close>.  The product is
  that of two arrays of the same shape with exact values: numpy broadcasts arrays of
  different shapes and wraps a product of fixed-width integers, neither of which is
  modelled (\<open>series_integrate\<close> rejects a mask of another shape before the product).
\<close>

definition mul2 :: "rat array2 \<Rightarrow> rat array2 \<Rightarrow> rat array2" where
  "mul2 img msk = map2 (map2 (*)) img msk"

definition mask_and_average ::
  "rat array2 \<Rightarrow> rat array2 \<Rightarrow> rat \<Rightarrow> rat \<Rightarrow> rat \<Rightarrow> error + (rat list \<times> rat list)" where
  "mask_and_average img msk cx cy threshold = radial_average (mul2 img msk) cx cy threshold"

text \<open>
  The Euclidean distances of all pixels from the centre, and their minimum and maximum
  over the whole image.
\<close>

definition mesh_values :: "nat \<Rightarrow> nat \<Rightarrow> rat \<Rightarrow> rat \<Rightarrow> real list" where
  "mesh_values w h cx cy = map (\<lambda>(x, y). r_mesh cx cy y x) (pixels w h)"

definition min_distance :: "nat \<Rightarrow> nat \<Rightarrow> rat \<Rightarrow> rat \<Rightarrow> real" where
  "min_distance w h cx cy = Min (set (mesh_values w h cx cy))"

definition max_distance :: "nat \<Rightarrow> nat \<Rightarrow> rat \<Rightarrow> rat \<Rightarrow> real" where
  "max_distance w h cx cy = Max (set (mesh_values w h cx cy))"

text \<open>
  The pixels of one bin, the test of the inner loop and the value it adds, as
  functions of the pixel; the statements about the two loops are written with them.
\<close>

definition passes :: "rat array2 \<Rightarrow> rat \<Rightarrow> nat \<times> nat \<Rightarrow> bool" where
  "passes img thr = (\<lambda>(x, y). img ! y ! x \<ge> thr)"

definition pixel_value :: "rat array2 \<Rightarrow> nat \<times> nat \<Rightarrow> rat" where
  "pixel_value img = (\<lambda>(x, y). img ! y ! x)"

definition bin_pixels :: "nat \<Rightarrow> nat \<Rightarrow> rat \<Rightarrow> rat \<Rightarrow> nat \<Rightarrow> (nat \<times> nat) list" where
  "bin_pixels w h cx cy k = filter (\<lambda>p. bin_idx w h cx cy p = k) (pixels w h)"

text \<open>
  What the specification says of a pixel under a mask: it contributes when its mask
  value is non-zero and its intensity reaches the threshold.  A mask is binary when
  all its values are 0 or 1, as those of \<open>_readmask\<close> and \<open>Mask.value\<close> are.
\<close>

definition contributes :: "rat array2 \<Rightarrow> rat array2 \<Rightarrow> rat \<Rightarrow> nat \<times> nat \<Rightarrow> bool" where
  "contributes img msk thr = (\<lambda>(x, y). msk ! y ! x \<noteq> 0 \<and> img ! y ! x \<ge> thr)"

definition binary :: "rat array2 \<Rightarrow> bool" where
  "binary msk = list_all (list_all (\<lambda>v. v \<in> {0, 1})) msk"

section \<open>The world outside the program\<close>

text \<open>
  The file system as the program sees it: \<open>os.path.exists\<close>, \<open>os.path.isdir\<close>,
  \<open>cv2.imread\<close> and the directory listing read it, \<open>cv2.imwrite\<close>, \<open>savetxt\<close>
  and \<open>write_json\<close> write it.  A raster file holds the single-channel array that
  \<open>cv2.imread(path, cv2.IMREAD_UNCHANGED)\<close> returns for it (integer pixel formats);
  \<open>RasterMulti\<close> is an image with more than one channel; a directory holds the
  names that \<open>listFiles(dir, ext=".tif")\<close> returns, in its order.  The trace records
  the warnings and the calls of the progress bar.
\<close>

text \<open>A float with its special values; a finite one is an exact rational.\<close>

datatype fl = Fin rat | PInf | NInf | NaN

record params =
  p_center_x :: rat
  p_center_y :: rat
  p_calibration_type :: string
  p_px_size :: fl
  p_camera_length :: fl
  p_wave_length :: fl
  p_slope :: fl
  p_intercept :: fl
  p_flip :: string

datatype content =
    Raster "int array2"
  | RasterMulti
  | Directory "string list"
  | TableFile "string list" "fl list" "rat list list"
  | JsonFile params

datatype event = Warning string | BarOpen nat | BarUpdate | BarClose

record world =
  files :: "string \<Rightarrow> content option"
  trace :: "event list"

definition exists_path :: "world \<Rightarrow> string \<Rightarrow> bool" where
  "exists_path w p = (files w p \<noteq> None)"

definition isdir :: "world \<Rightarrow> string \<Rightarrow> bool" where
  "isdir w p = (case files w p of Some (Directory _) \<Rightarrow> True | _ \<Rightarrow> False)"

definition write_file :: "string \<Rightarrow> content \<Rightarrow> world \<Rightarrow> world" where
  "write_file p c w = w\<lparr>files := (files w)(p \<mapsto> c)\<rparr>"

definition log_event :: "event \<Rightarrow> world \<Rightarrow> world" where
  "log_event e w = w\<lparr>trace := trace w @ [e]\<rparr>"

section \<open>Masks\<close>

text \<open>
  The class \<open>Mask\<close> holds one \<open>uint8\<close> array; its values are naturals below 256,
  and no arithmetic is done on them.  \<open>Mask_init\<close> is \<open>Mask(shape)\<close> and
  \<open>Mask_value\<close> the property \<open>value\<close>, the 0/1 pattern of the mask.
\<close>

type_synonym mask = "nat array2"

definition Mask_init :: "int \<times> int \<Rightarrow> error + mask" where
  "Mask_init sh = (if fst sh \<le> 0 \<or> snd sh \<le> 0 then Inl InvalidShape
                   else Inr (replicate (nat (fst sh)) (replicate (nat (snd sh)) 1)))"

definition Mask_value :: "mask \<Rightarrow> mask" where
  "Mask_value m = map (map (\<lambda>v. if v > 0 then 1 else 0)) m"

text \<open>
  A slice \<open>a[start:stop]\<close> of a dimension of length \<open>n\<close>: a negative bound counts
  from the end, and every bound is clipped to \<open>0..n\<close>, as Python does for a slice
  (it never raises).  The slice is empty when the clipped stop is not above the
  clipped start.
\<close>

definition slice_bound :: "int \<Rightarrow> nat \<Rightarrow> nat" where
  "slice_bound i n = (if i < 0 then (if i + int n < 0 then 0 else nat (i + int n))
                      else if i > int n then n else nat i)"

text \<open>\<open>row[start:stop] = v\<close> on one row, and \<open>a[ys:ye, xs:xe] = v\<close> on an array.\<close>

definition assign_slice :: "int \<Rightarrow> int \<Rightarrow> 'a \<Rightarrow> 'a list \<Rightarrow> 'a list" where
  "assign_slice start stop v row =
     (let s = slice_bound start (length row); e = slice_bound stop (length row)
      in if s < e then take s row @ replicate (e - s) v @ drop e row else row)"

definition assign_rect :: "int \<Rightarrow> int \<Rightarrow> int \<Rightarrow> int \<Rightarrow> 'a \<Rightarrow> 'a array2 \<Rightarrow> 'a array2" where
  "assign_rect ystart ystop xstart xstop v a =
     (let s = slice_bound ystart (length a); e = slice_bound ystop (length a)
      in if s < e
         then take s a @ map (assign_slice xstart xstop v) (take (e - s) (drop s a)) @ drop e a
         else a)"

definition add_rectangle :: "mask \<Rightarrow> int \<Rightarrow> int \<Rightarrow> int \<Rightarrow> int \<Rightarrow> mask" where
  "add_rectangle m x y w h = assign_rect y (y + h) x (x + w) 0 m"

definition remove_rectangle :: "mask \<Rightarrow> int \<Rightarrow> int \<Rightarrow> int \<Rightarrow> int \<Rightarrow> mask" where
  "remove_rectangle m x y w h = assign_rect y (y + h) x (x + w) 1 m"

text \<open>
  \<open>cv2.imread\<close> gives \<open>None\<close> for a path that holds no image.  \<open>_readmask\<close> raises
  for a missing file, fails on \<open>None.shape\<close> for a file that is no image, raises for
  an image that is not 2D, sets every value above 0 to 1 and converts to \<open>uint8\<close>
  (a value that is not above 0 is reduced modulo 256).
\<close>

definition readmask_px :: "int \<Rightarrow> nat" where
  "readmask_px v = (if v > 0 then 1 else nat (v mod 256))"

definition readmask :: "world \<Rightarrow> string \<Rightarrow> error + mask" where
  "readmask w src =
     (if \<not> exists_path w src then Inl (NotFound src)
      else case files w src of
             Some (Raster a) \<Rightarrow> Inr (map (map readmask_px) a)
           | Some RasterMulti \<Rightarrow> Inl InvalidFormat
           | _ \<Rightarrow> Inl (ReadFailure src))"

text \<open>
  \<open>Mask.save(file)\<close> is \<open>cv2.imwrite(file, self.__mask)\<close>, whose result it drops.
  OpenCV is not part of the repository, and which formats it writes depends on how it
  was built: the table from the extension of a file name to the kind of its format is
  a parameter.  A format is of one of three kinds, by what \<open>cv2.imread\<close> gives back
  for an 8-bit single-channel image written in it: the same values (\<open>Exact\<close>: PNG,
  TIFF, BMP, PGM), 0 for 0 and 255 for every other value (\<open>Bilevel\<close>: PBM, one bit
  per pixel, the format of the default name \<open>mask.pbm\<close>), or values changed by a
  compression (\<open>Lossy\<close>: JPEG), which are a second parameter.
\<close>

datatype format = Exact | Bilevel | Lossy

record cv2 =
  writers :: "(string \<times> format) list"
  lossy :: "string \<Rightarrow> nat array2 \<Rightarrow> nat array2"

text \<open>
  OpenCV takes the extension after the last dot of the file name, up to the first
  character that is neither a letter nor a digit, and compares it without regard to
  case; a name without a dot, or with nothing after it, has no writer.
\<close>

definition lower_char :: "char \<Rightarrow> char" where
  "lower_char c = (let n = (of_char c :: nat) in if 65 \<le> n \<and> n \<le> 90 then char_of (n + 32) else c)"

definition is_alnum :: "char \<Rightarrow> bool" where
  "is_alnum c = (let n = (of_char c :: nat)
                 in (48 \<le> n \<and> n \<le> 57) \<or> (65 \<le> n \<and> n \<le> 90) \<or> (97 \<le> n \<and> n \<le> 122))"

definition extension :: "string \<Rightarrow> string" where
  "extension file =
     (if CHR ''.'' \<in> set file
      then map lower_char (takeWhile is_alnum (rev (takeWhile (\<lambda>c. c \<noteq> CHR ''.'') (rev file))))
      else [])"

definition writer :: "cv2 \<Rightarrow> string \<Rightarrow> format option" where
  "writer cv file = (if extension file = [] then None else map_of (writers cv) (extension file))"

text \<open>What reading gives back for the image \<open>a\<close> written to \<open>file\<close> in a format.\<close>

definition decode :: "cv2 \<Rightarrow> string \<Rightarrow> format \<Rightarrow> nat array2 \<Rightarrow> nat array2" where
  "decode cv file fmt a =
     (case fmt of
        Exact \<Rightarrow> a
      | Bilevel \<Rightarrow> map (map (\<lambda>v. if v > 0 then 255 else 0)) a
      | Lossy \<Rightarrow> lossy cv file a)"

text \<open>
  A file can be created when its directory exists (a bare name lies in the current
  directory) and the path is not a directory itself.  \<open>dirname\<close> is the path up to
  its last slash, without trailing slashes unless it is the root.
\<close>

definition dirname :: "string \<Rightarrow> string" where
  "dirname p = (let head = rev (dropWhile (\<lambda>c. c \<noteq> CHR ''/'') (rev p))
                in if list_all (\<lambda>c. c = CHR ''/'') head then head
                   else rev (dropWhile (\<lambda>c. c = CHR ''/'') (rev head)))"

definition can_create :: "world \<Rightarrow> string \<Rightarrow> bool" where
  "can_create w p = ((list_all (\<lambda>c. c = CHR ''/'') (dirname p) \<or> isdir w (dirname p)) \<and> \<not> isdir w p)"

text \<open>
  \<open>cv2.imwrite\<close> raises for an empty image and for a file name whose extension has
  no writer; it returns \<open>False\<close> and writes nothing when the file cannot be created;
  otherwise it writes the file and returns \<open>True\<close>.  \<open>Mask.save\<close> returns \<open>None\<close>
  in both of the last two cases.  \<open>Mask.read\<close> is \<open>Mask(value=_readmask(src))\<close>.
\<close>

definition imwrite :: "cv2 \<Rightarrow> string \<Rightarrow> nat array2 \<Rightarrow> world \<Rightarrow> (error + bool) \<times> world" where
  "imwrite cv file img w =
     (if height img = 0 \<or> width img = 0 then (Inl (WriteFailure file), w)
      else case writer cv file of
             None \<Rightarrow> (Inl (NoWriter file), w)
           | Some fmt \<Rightarrow>
               if can_create w file
               then (Inr True, write_file file (Raster (map (map int) (decode cv file fmt img))) w)
               else (Inr False, w))"

definition Mask_save :: "cv2 \<Rightarrow> mask \<Rightarrow> string \<Rightarrow> world \<Rightarrow> (error + unit) \<times> world" where
  "Mask_save cv m file w =
     (case imwrite cv file m w of
        (Inl err, w') \<Rightarrow> (Inl err, w')
      | (Inr written, w') \<Rightarrow> (Inr (), w'))"

definition Mask_read :: "world \<Rightarrow> string \<Rightarrow> error + mask" where
  "Mask_read w src = readmask w src"

text \<open>
  The formats of the examples.  The lossy format of the examples is a stand-in for a
  compression that keeps the mean of the image and loses its detail: every pixel
  takes the rounded mean of all pixels.
\<close>

definition lossy_mean :: "string \<Rightarrow> nat array2 \<Rightarrow> nat array2" where
  "lossy_mean file a =
     (let vs = concat a; n = length vs
      in map (map (\<lambda>v. if n = 0 then v else (2 * sum_list vs + n) div (2 * n))) a)"

definition cv2_formats :: cv2 where
  "cv2_formats = \<lparr>writers = [(''pbm'', Bilevel), (''pgm'', Exact), (''png'', Exact), (''bmp'', Exact),
                             (''tif'', Exact), (''tiff'', Exact), (''jpg'', Lossy), (''jpeg'', Lossy)],
                  lossy = lossy_mean\<rparr>"

text \<open>The region \<open>[x, x + w) \<times> [y, y + h)\<close> of the specification, for the pixel in column \<open>i\<close> of row \<open>j\<close>.\<close>

definition in_rectangle :: "int \<Rightarrow> int \<Rightarrow> int \<Rightarrow> int \<Rightarrow> nat \<Rightarrow> nat \<Rightarrow> bool" where
  "in_rectangle x y w h i j = (x \<le> int i \<and> int i < x + w \<and> y \<le> int j \<and> int j < y + h)"

definition empty_world :: world where
  "empty_world = \<lparr>files = (\<lambda>_. None), trace = []\<rparr>"

section \<open>The region-averaging variant\<close>

text \<open>
  The class \<open>Saxs2d\<close>: a float array \<open>i\<close> in which a missing value is NaN
  (\<open>None\<close> here), the factor \<open>px2q\<close> and the centre.
\<close>

record saxs2d =
  s_i :: "rat option array2"
  s_px2q :: rat
  s_center :: "rat \<times> rat"

text \<open>
  Comparisons of a whole number \<open>e\<close> with the distance \<open>sqrt d\<close> of a pixel
  (\<open>d\<close> is the squared distance, never negative), decided on the squares
  (lemmas \<open>int_le_sqrt_iff\<close>, \<open>sqrt_lt_int_iff\<close>, \<open>sqrt_le_int_iff\<close>), and the
  integer \<open>ceil(sqrt d)\<close> (lemma \<open>ceil_sqrt_eq\<close>).
\<close>

definition int_le_sqrt :: "int \<Rightarrow> rat \<Rightarrow> bool" where
  "int_le_sqrt e d = (e \<le> 0 \<or> of_int (e * e) \<le> d)"

definition sqrt_lt_int :: "rat \<Rightarrow> int \<Rightarrow> bool" where
  "sqrt_lt_int d e = (0 < e \<and> d < of_int (e * e))"

definition sqrt_le_int :: "rat \<Rightarrow> int \<Rightarrow> bool" where
  "sqrt_le_int d e = (0 \<le> e \<and> d \<le> of_int (e * e))"

text \<open>\<open>sqrt d < a\<close> for a rational \<open>a\<close>.\<close>

definition sqrt_lt_rat :: "rat \<Rightarrow> rat \<Rightarrow> bool" where
  "sqrt_lt_rat d a = (0 < a \<and> d < a * a)"

definition ceil_sqrt :: "rat \<Rightarrow> int" where
  "ceil_sqrt d = (let k = isqrt (nat \<lfloor>d\<rfloor>) in if of_nat (k * k) = d then int k else int k + 1)"

text \<open>
  \<open>np.histogram(r, bins=edges, weights=...)\<close> for increasing edges: bin \<open>k\<close> takes
  the values from \<open>edges[k]\<close> up to, but not including, \<open>edges[k + 1]\<close>, except
  that the last bin includes its right edge; a NaN value falls into no bin.  There
  are \<open>len(edges) - 1\<close> bins.
\<close>

definition in_hist_bin :: "int list \<Rightarrow> nat \<Rightarrow> rat \<Rightarrow> bool" where
  "in_hist_bin edges k d =
     (int_le_sqrt (edges ! k) d \<and>
      (if k + 2 = length edges then sqrt_le_int d (edges ! (k + 1))
       else sqrt_lt_int d (edges ! (k + 1))))"

definition hist_count :: "int list \<Rightarrow> (rat \<times> rat) list \<Rightarrow> nat list" where
  "hist_count edges data =
     map (\<lambda>k. length (filter (\<lambda>(d, v). in_hist_bin edges k d) data)) [0..<length edges - 1]"

definition hist_sum :: "int list \<Rightarrow> (rat \<times> rat) list \<Rightarrow> rat list" where
  "hist_sum edges data =
     map (\<lambda>k. sum_list (map snd (filter (\<lambda>(d, v). in_hist_bin edges k d) data)))
       [0..<length edges - 1]"

text \<open>
  After \<open>r[np.isnan(i)] = np.nan\<close> the pixels that can fall into a bin are those
  whose intensity is not NaN; each is listed with its squared distance and its
  intensity, the weight of the second histogram.
\<close>

definition finite_pixels :: "saxs2d \<Rightarrow> (rat \<times> rat) list" where
  "finite_pixels s =
     concat (map (\<lambda>(x, y). case s_i s ! y ! x of
                              None \<Rightarrow> []
                            | Some v \<Rightarrow> [(dist_sq (fst (s_center s)) (snd (s_center s)) x y, v)])
               (pixels (width (s_i s)) (height (s_i s))))"

text \<open>
  \<open>r_bin = np.arange(r_min, r_max + 1, 1)\<close> with
  \<open>r_min = int(np.floor(q_min / px2q))\<close> and
  \<open>r_max = int(np.ceil(min(q_max / px2q, r.max())))\<close>.  \<open>q_max\<close> is \<open>None\<close> for
  the default \<open>np.inf\<close>.  Dividing by a zero \<open>px2q\<close> raises, \<open>r.max()\<close> of an
  empty array raises, and \<open>int\<close> of minus infinity (an infinite \<open>q_max\<close> over a
  negative \<open>px2q\<close>) raises.  Python's \<open>min(a, b)\<close> is \<open>b\<close> when \<open>b < a\<close> and
  \<open>a\<close> otherwise.
\<close>

definition max_dist_sq :: "saxs2d \<Rightarrow> rat" where
  "max_dist_sq s =
     Max (set (map (\<lambda>(x, y). dist_sq (fst (s_center s)) (snd (s_center s)) x y)
                 (pixels (width (s_i s)) (height (s_i s)))))"

definition Saxs2d_r_bin :: "saxs2d \<Rightarrow> rat \<Rightarrow> rat option \<Rightarrow> error + int list" where
  "Saxs2d_r_bin s q_min q_max =
     (if s_px2q s = 0 then Inl ZeroDivision
      else if width (s_i s) = 0 \<or> height (s_i s) = 0 then Inl ZeroSizeArray
      else (let r_min = \<lfloor>q_min / s_px2q s\<rfloor> in
            case q_max of
              None \<Rightarrow> if s_px2q s < 0 then Inl Overflow
                      else Inr [r_min..ceil_sqrt (max_dist_sq s)]
            | Some qm \<Rightarrow>
                if sqrt_lt_rat (max_dist_sq s) (qm / s_px2q s)
                then Inr [r_min..ceil_sqrt (max_dist_sq s)]
                else Inr [r_min..\<lceil>qm / s_px2q s\<rceil>]))"

text \<open>\<open>i_sum / cnt\<close> of a float by an integer count in numpy: \<open>0 / 0\<close> is NaN, and a non-zero sum over 0 is infinite.\<close>

definition true_divide :: "rat \<Rightarrow> nat \<Rightarrow> fl" where
  "true_divide s c = (if c = 0 then (if s = 0 then NaN else if 0 < s then PInf else NInf)
                      else Fin (s / of_nat c))"

definition Saxs2d_radial_average :: "saxs2d \<Rightarrow> rat \<Rightarrow> rat option \<Rightarrow> error + (fl list \<times> rat list)" where
  "Saxs2d_radial_average s q_min q_max =
     (case Saxs2d_r_bin s q_min q_max of
        Inl e \<Rightarrow> Inl e
      | Inr r_bin \<Rightarrow>
          (let cnt = hist_count r_bin (finite_pixels s);
               i_sum = hist_sum r_bin (finite_pixels s);
               i = map2 true_divide i_sum cnt;
               q_bin = map (\<lambda>e. of_int e * s_px2q s) r_bin
           in Inr (i, map2 (\<lambda>a b. (a + b) / 2) (butlast q_bin) (tl q_bin))))"

section \<open>Batch integration\<close>

subsection \<open>Floats with their special values\<close>

text \<open>
  The calibration parameters are floats that may be NaN (the default) or infinite.
  Finite values are exact rationals; the operations follow IEEE 754 on the special
  values (signed zeros are not distinguished).
\<close>

definition isnan :: "fl \<Rightarrow> bool" where
  "isnan v = (v = NaN)"

definition isfinite :: "fl \<Rightarrow> bool" where
  "isfinite v = (case v of Fin _ \<Rightarrow> True | _ \<Rightarrow> False)"

text \<open>\<open>v > 0\<close>: false for NaN.\<close>

definition fl_pos :: "fl \<Rightarrow> bool" where
  "fl_pos v = (case v of Fin a \<Rightarrow> 0 < a | PInf \<Rightarrow> True | NInf \<Rightarrow> False | NaN \<Rightarrow> False)"

fun fl_mul :: "fl \<Rightarrow> fl \<Rightarrow> fl" where
  "fl_mul NaN _ = NaN"
| "fl_mul _ NaN = NaN"
| "fl_mul (Fin a) (Fin b) = Fin (a * b)"
| "fl_mul (Fin a) PInf = (if a = 0 then NaN else if 0 < a then PInf else NInf)"
| "fl_mul (Fin a) NInf = (if a = 0 then NaN else if 0 < a then NInf else PInf)"
| "fl_mul PInf (Fin b) = (if b = 0 then NaN else if 0 < b then PInf else NInf)"
| "fl_mul NInf (Fin b) = (if b = 0 then NaN else if 0 < b then NInf else PInf)"
| "fl_mul PInf PInf = PInf"
| "fl_mul PInf NInf = NInf"
| "fl_mul NInf PInf = NInf"
| "fl_mul NInf NInf = PInf"

fun fl_add :: "fl \<Rightarrow> fl \<Rightarrow> fl" where
  "fl_add NaN _ = NaN"
| "fl_add _ NaN = NaN"
| "fl_add (Fin a) (Fin b) = Fin (a + b)"
| "fl_add (Fin a) PInf = PInf"
| "fl_add (Fin a) NInf = NInf"
| "fl_add PInf (Fin b) = PInf"
| "fl_add NInf (Fin b) = NInf"
| "fl_add PInf PInf = PInf"
| "fl_add PInf NInf = NaN"
| "fl_add NInf PInf = NaN"
| "fl_add NInf NInf = NInf"

text \<open>
  An operation is invalid when it has no value although both operands are numbers:
  \<open>inf * 0\<close> and \<open>inf + (-inf)\<close>.  numpy gives NaN and issues one
  \<open>RuntimeWarning\<close> for an array operation in which some element is invalid
  (\<open>invalid value encountered in multiply\<close>, \<open>... in add\<close>).  The warnings for
  an overflow of the floating-point range belong to the rounding, which is not
  modelled.
\<close>

definition invalid_mul :: "fl \<Rightarrow> fl \<Rightarrow> bool" where
  "invalid_mul x y = (\<not> isnan x \<and> \<not> isnan y \<and> isnan (fl_mul x y))"

definition invalid_add :: "fl \<Rightarrow> fl \<Rightarrow> bool" where
  "invalid_add x y = (\<not> isnan x \<and> \<not> isnan y \<and> isnan (fl_add x y))"

definition warn_if :: "bool \<Rightarrow> string \<Rightarrow> event list" where
  "warn_if b msg = (if b then [Warning msg] else [])"

subsection \<open>Strings and paths\<close>

text \<open>\<open>s.endswith(suf)\<close>, \<open>s.upper()\<close> on ASCII letters, \<open>os.path.basename\<close> and \<open>os.path.join\<close> of two parts.\<close>

definition endswith :: "string \<Rightarrow> string \<Rightarrow> bool" where
  "endswith s suf = (length suf \<le> length s \<and> drop (length s - length suf) s = suf)"

definition upper_char :: "char \<Rightarrow> char" where
  "upper_char c = (let n = (of_char c :: nat) in if 97 \<le> n \<and> n \<le> 122 then char_of (n - 32) else c)"

definition upper :: "string \<Rightarrow> string" where
  "upper s = map upper_char s"

definition basename :: "string \<Rightarrow> string" where
  "basename p = rev (takeWhile (\<lambda>c. c \<noteq> CHR ''/'') (rev p))"

definition path_join :: "string \<Rightarrow> string \<Rightarrow> string" where
  "path_join a b = (if b \<noteq> [] \<and> hd b = CHR ''/'' then b
                    else if a = [] \<or> last a = CHR ''/'' then a @ b
                    else a @ ''/'' @ b)"

text \<open>
  \<open>s.replace(old, new)\<close>: every occurrence of \<open>old\<close>, found from left to right
  without overlap, is replaced.  \<open>replace_from\<close> walks the string; its counter is
  the number of characters of a matched occurrence still to be skipped.
\<close>

fun replace_from :: "string \<Rightarrow> string \<Rightarrow> nat \<Rightarrow> string \<Rightarrow> string" where
  "replace_from old new n [] = []"
| "replace_from old new n (c # cs) =
     (if n > 0 then replace_from old new (n - 1) cs
      else if take (length old) (c # cs) = old then new @ replace_from old new (length old - 1) cs
      else c # replace_from old new 0 cs)"

definition replace :: "string \<Rightarrow> string \<Rightarrow> string \<Rightarrow> string" where
  "replace old new s = (if old = [] then new @ concat (map (\<lambda>c. c # new) s)
                        else replace_from old new 0 s)"

text \<open>\<open>re.sub(r"\.tif$", ".csv", src)\<close> for a \<open>src\<close> that ends with \<open>.tif\<close>.\<close>

definition tif_to_csv :: "string \<Rightarrow> string" where
  "tif_to_csv src = take (length src - 4) src @ ''.csv''"

text \<open>\<open>paramfile = dst.replace(".csv", "_params.json")\<close>.\<close>

definition paramfile :: "string \<Rightarrow> string" where
  "paramfile dst = replace ''.csv'' ''_params.json'' dst"

subsection \<open>Arguments and collaborators\<close>

text \<open>
  The first argument \<open>src\<close> is a string or a list of strings.  The keyword
  arguments are one record; \<open>mask_arg\<close> is the argument \<open>mask\<close> (an empty array
  when it is not given) and \<open>flip_arg\<close> the argument \<open>flip\<close>.  The beam centre is a
  pair of finite numbers.
\<close>

datatype src = Path string | PathList "string list"

record args =
  mask_src :: string
  mask_arg :: "rat array2"
  center :: "rat \<times> rat"
  camera_length :: fl
  wave_length :: fl
  px_size :: fl
  detecter :: string
  slope :: fl
  intercept :: fl
  flip_arg :: string
  dst :: string
  overwrite :: bool
  verbose :: bool

text \<open>
  Two names are imported from modules that are not part of the sources at hand and
  are taken as parameters: the dictionary \<open>DETECTER_PX_SIZES\<close> of
  \<open>SpectraSpark.constants\<close> and the function \<open>r2q\<close> of
  \<open>SpectraSpark.util.basic_calculation\<close>, called as
  \<open>r2q(r, camera_length, wave_length=wave_length, px_size=px_size)\<close>; it gives the
  values of q, and what else it does (a warning it may issue) is not recorded.
\<close>

record env =
  DETECTER_PX_SIZES :: "(string \<times> rat) list"
  r2q :: "rat list \<Rightarrow> fl \<Rightarrow> fl \<Rightarrow> fl \<Rightarrow> fl list"

text \<open>
  Modelled from the spec: \<open>listFiles\<close> of \<open>SpectraSpark.util\<close> is not among the
  sources at hand.  The specification describes it as a directory listing utility
  that returns the ordered names of the files with the given extension; the names
  are those the directory holds in the world.
\<close>

definition listFiles :: "world \<Rightarrow> string \<Rightarrow> string list" where
  "listFiles w p = (case files w p of Some (Directory names) \<Rightarrow> names | _ \<Rightarrow> [])"

subsection \<open>The steps of \<open>series_integrate\<close>\<close>

text \<open>Lines 122 to 140: the files to read and the destination.\<close>

definition resolve_files :: "world \<Rightarrow> src \<Rightarrow> string \<Rightarrow> error + (string list \<times> string)" where
  "resolve_files w s d =
     (case s of
        Path p \<Rightarrow>
          if endswith p ''.tif''
          then (if \<not> exists_path w p then Inl (NotFound p)
                else Inr ([p], if d \<noteq> [] then d else tif_to_csv p))
          else (if \<not> isdir w p then Inl (NotFound p)
                else Inr (map (path_join p) (listFiles w p), if d \<noteq> [] then d else p @ ''.csv''))
      | PathList ps \<Rightarrow>
          if \<not> list_all (\<lambda>f. endswith f ''.tif'') ps then Inl InvalidInput
          else if length d = 0 then Inl MissingDestination
          else Inr (ps, d))"

text \<open>Lines 155 to 161: the pixel size.\<close>

definition resolve_px_size :: "(string \<times> rat) list \<Rightarrow> string \<Rightarrow> fl \<Rightarrow> error + fl" where
  "resolve_px_size table det px =
     (case map_of table (upper det) of
        Some v \<Rightarrow> Inr (Fin v)
      | None \<Rightarrow> if det = [] then (if isnan px then Inl MissingCalibration else Inr px)
                else Inl (UnknownDetector det))"

text \<open>Lines 163 to 169: the calibration mode.\<close>

definition resolve_calibration :: "fl \<Rightarrow> fl \<Rightarrow> fl \<Rightarrow> fl \<Rightarrow> string" where
  "resolve_calibration cl wl sl ic =
     (if fl_pos cl \<and> fl_pos wl then ''geometry''
      else if \<not> isnan sl \<and> \<not> isnan ic then ''linear_regression''
      else ''none'')"

text \<open>
  Line 171: the shape of the first frame.  A file that is no image gives \<open>None\<close>,
  which has no \<open>shape\<close>; the shape of an image with several channels does not
  unpack into two names.
\<close>

definition first_shape :: "world \<Rightarrow> string \<Rightarrow> error + (nat \<times> nat)" where
  "first_shape w file = (case files w file of
                           Some (Raster a) \<Rightarrow> Inr (shape a)
                         | _ \<Rightarrow> Inl (ReadFailure file))"

text \<open>Lines 172 to 182: the mask, an array given by the caller before a mask file.\<close>

definition resolve_mask :: "world \<Rightarrow> rat array2 \<Rightarrow> string \<Rightarrow> nat \<times> nat \<Rightarrow> error + rat array2 option" where
  "resolve_mask w m msrc hw =
     (if height m * width m > 0
      then (if shape m \<noteq> hw then Inl MaskShapeMismatch else Inr (Some m))
      else if msrc \<noteq> []
      then (case readmask w msrc of
              Inl e \<Rightarrow> Inl e
            | Inr rm \<Rightarrow> if shape rm \<noteq> hw then Inl MaskShapeMismatch
                        else Inr (Some (map (map of_nat) rm)))
      else Inr None)"

text \<open>\<open>np.flipud\<close> when the flip string holds a \<open>v\<close>, then \<open>np.fliplr\<close> when it holds an \<open>h\<close>.\<close>

definition apply_flip :: "string \<Rightarrow> 'a array2 \<Rightarrow> 'a array2" where
  "apply_flip f img = (let img1 = (if CHR ''v'' \<in> set f then rev img else img)
                       in if CHR ''h'' \<in> set f then map rev img1 else img1)"

text \<open>
  Lines 186 to 196, one frame: it is read, its shape is compared with that of the
  first frame, it is flipped and averaged, under the mask when there is one.  The
  kernel is called with its default threshold 2.
\<close>

definition average_frame :: "rat array2 option \<Rightarrow> rat \<times> rat \<Rightarrow> rat array2 \<Rightarrow> error + rat list \<times> rat list" where
  "average_frame m c img =
     (case m of
        Some msk \<Rightarrow> mask_and_average img msk (fst c) (snd c) 2
      | None \<Rightarrow> radial_average img (fst c) (snd c) 2)"

definition process_frame ::
  "world \<Rightarrow> nat \<times> nat \<Rightarrow> string \<Rightarrow> rat array2 option \<Rightarrow> rat \<times> rat \<Rightarrow> string
     \<Rightarrow> error + rat list \<times> rat list" where
  "process_frame w hw f m c fname =
     (case files w fname of
        Some (Raster a) \<Rightarrow>
          if shape a \<noteq> hw then Inl (ShapeMismatch fname)
          else average_frame m c (apply_flip f (map (map of_int) a))
      | Some RasterMulti \<Rightarrow> Inl (ShapeMismatch fname)
      | _ \<Rightarrow> Inl (ReadFailure fname))"

text \<open>
  Lines 185 to 200, the loop over the files, on the triple \<open>(r, i_all, headers)\<close>
  and the world, whose trace takes the updates of the progress bar.
\<close>

fun integrate_frames ::
  "nat \<times> nat \<Rightarrow> string \<Rightarrow> rat array2 option \<Rightarrow> rat \<times> rat \<Rightarrow> bool \<Rightarrow> string list
     \<Rightarrow> rat list \<times> rat list list \<times> string list \<Rightarrow> world
     \<Rightarrow> (error + rat list \<times> rat list list \<times> string list) \<times> world" where
  "integrate_frames hw f m c vb [] acc w = (Inr acc, w)"
| "integrate_frames hw f m c vb (fname # rest) acc w =
     (case process_frame w hw f m c fname of
        Inl err \<Rightarrow> (Inl err, w)
      | Inr (r, i) \<Rightarrow>
          integrate_frames hw f m c vb rest
            (r, fst (snd acc) @ [i], snd (snd acc) @ [basename fname])
            (if vb then log_event BarUpdate w else w))"

text \<open>
  Lines 202 to 208: the first column, with the warnings that numpy issues in
  computing it, and its header.  \<open>intercept + slope * r\<close> is two array operations,
  the product and then the sum; \<open>r * px_size\<close> is one.
\<close>

definition q_column :: "env \<Rightarrow> string \<Rightarrow> args \<Rightarrow> fl \<Rightarrow> rat list \<Rightarrow> fl list \<times> event list" where
  "q_column e calibration a px r =
     (if calibration = ''geometry''
      then (r2q e r (camera_length a) (wave_length a) px, [])
      else if calibration = ''linear_regression''
      then (let prod = map (\<lambda>v. fl_mul (slope a) (Fin v)) r
            in (map (fl_add (intercept a)) prod,
                warn_if (list_ex (\<lambda>v. invalid_mul (slope a) (Fin v)) r)
                  ''invalid value encountered in multiply''
                @ warn_if (list_ex (invalid_add (intercept a)) prod)
                    ''invalid value encountered in add''))
      else (map (\<lambda>v. fl_mul (Fin v) px) r,
            warn_if (list_ex (\<lambda>v. invalid_mul (Fin v) px) r)
              ''invalid value encountered in multiply''))"

definition set_first_header :: "string \<Rightarrow> string list \<Rightarrow> string list" where
  "set_first_header calibration headers =
     (if calibration = ''geometry'' \<or> calibration = ''linear_regression'' then headers
      else headers[0 := ''r[mm]''])"

text \<open>Lines 225 to 232: the name of the flip.\<close>

definition flip_name :: "string \<Rightarrow> string" where
  "flip_name f = (if CHR ''v'' \<in> set f \<and> CHR ''h'' \<in> set f then ''vertical and horizontal''
                  else if CHR ''v'' \<in> set f then ''vertical''
                  else if CHR ''h'' \<in> set f then ''horizontal''
                  else ''none'')"

definition make_params :: "args \<Rightarrow> string \<Rightarrow> fl \<Rightarrow> params" where
  "make_params a calibration px =
     \<lparr>p_center_x = fst (center a), p_center_y = snd (center a),
      p_calibration_type = calibration, p_px_size = px,
      p_camera_length = camera_length a, p_wave_length = wave_length a,
      p_slope = slope a, p_intercept = intercept a, p_flip = flip_name (flip_arg a)\<rparr>"

text \<open>
  Modelled from the spec: \<open>savetxt\<close> of \<open>SpectraSpark.util.io\<close> and
  \<open>write_json\<close> of \<open>SpectraSpark.util\<close> are not among the sources at hand.
  The specification describes the table as one header row and one row per radius
  bin, the first column holding the q or r values and the others the intensities
  of the frames, and the parameter record as a key/value document; each call writes
  its file at the path it is given.  The table \<open>np.hstack([q.reshape(-1, 1),
  np.array(i_all).T])\<close> is kept by columns: the headers, the first column, one column
  per frame.
\<close>

definition savetxt :: "string \<Rightarrow> fl list \<Rightarrow> rat list list \<Rightarrow> string list \<Rightarrow> world \<Rightarrow> world" where
  "savetxt d q i_all header w = write_file d (TableFile header q i_all) w"

definition write_json :: "string \<Rightarrow> params \<Rightarrow> world \<Rightarrow> world" where
  "write_json p ps w = write_file p (JsonFile ps) w"

text \<open>
  Lines 202 to 238: the first column is computed, its warnings going to the trace,
  \<open>savetxt\<close> writes the table, \<open>write_json\<close> the parameters, the bar is closed and
  \<open>dst\<close> is returned.
\<close>

definition write_results ::
  "env \<Rightarrow> args \<Rightarrow> string \<Rightarrow> string \<Rightarrow> fl \<Rightarrow> rat list \<times> rat list list \<times> string list \<Rightarrow> world \<Rightarrow> world" where
  "write_results e a d calibration px res w =
     (let r = fst res; i_all = fst (snd res); headers = snd (snd res);
          qw = q_column e calibration a px r;
          q = fst qw;
          wq = fold log_event (snd qw) w;
          headers' = set_first_header calibration headers;
          w4 = savetxt d q i_all headers' wq;
          w5 = write_json (paramfile d) (make_params a calibration px) w4
      in if verbose a then log_event BarClose w5 else w5)"

subsection \<open>\<open>series_integrate\<close> and \<open>file_integrate\<close>\<close>

definition series_integrate :: "env \<Rightarrow> src \<Rightarrow> args \<Rightarrow> world \<Rightarrow> (error + string) \<times> world" where
  "series_integrate e s a w =
     (case resolve_files w s (dst a) of
        Inl err \<Rightarrow> (Inl err, w)
      | Inr (fs, d) \<Rightarrow>
          if length fs = 0 then (Inl NoInputFiles, w)
          else
           (let w1 = (if verbose a then log_event (BarOpen (length fs)) w else w) in
            if \<not> overwrite a \<and> exists_path w1 d then (Inl (OutputExists d), w1)
            else
             (case resolve_px_size (DETECTER_PX_SIZES e) (detecter a) (px_size a) of
                Inl err \<Rightarrow> (Inl err, w1)
              | Inr px \<Rightarrow>
                 (let calibration = resolve_calibration (camera_length a) (wave_length a)
                                      (slope a) (intercept a);
                      w2 = (if calibration = ''none''
                            then log_event (Warning ''no valid calibration parameter given'') w1
                            else w1) in
                  case first_shape w2 (hd fs) of
                    Inl err \<Rightarrow> (Inl err, w2)
                  | Inr hw \<Rightarrow>
                     (case resolve_mask w2 (mask_arg a) (mask_src a) hw of
                        Inl err \<Rightarrow> (Inl err, w2)
                      | Inr m \<Rightarrow>
                         (case integrate_frames hw (flip_arg a) m (center a) (verbose a) fs
                                 ([], [], [''q[nm^-1]'']) w2 of
                            (Inl err, w3) \<Rightarrow> (Inl err, w3)
                          | (Inr res, w3) \<Rightarrow>
                              (Inr d, write_results e a d calibration px res w3)))))))"

text \<open>
  \<open>file_integrate(file, **kwargs)\<close> sets \<open>verbose\<close> to \<open>False\<close>, calls
  \<open>series_integrate\<close> and has no \<open>return\<close> statement: its value is Python's
  \<open>None\<close>, whatever \<open>series_integrate\<close> returned.
\<close>

definition file_integrate :: "env \<Rightarrow> string \<Rightarrow> args \<Rightarrow> world \<Rightarrow> (error + string option) \<times> world" where
  "file_integrate e file a w =
     (case series_integrate e (Path file) (a\<lparr>verbose := False\<rparr>) w of
        (Inl err, w') \<Rightarrow> (Inl err, w')
      | (Inr d, w') \<Rightarrow> (Inr None, w'))"

text \<open>
  The world in which the frames are read (line 171 onwards): the bar has been opened
  when \<open>verbose\<close> is set, and the warning given when there is no calibration.
\<close>

definition before_frames :: "args \<Rightarrow> nat \<Rightarrow> world \<Rightarrow> world" where
  "before_frames a n w =
     (let w1 = (if verbose a then log_event (BarOpen n) w else w)
      in if resolve_calibration (camera_length a) (wave_length a) (slope a) (intercept a) = ''none''
         then log_event (Warning ''no valid calibration parameter given'') w1 else w1)"

definition is_warning :: "event \<Rightarrow> bool" where
  "is_warning ev = (case ev of Warning _ \<Rightarrow> True | _ \<Rightarrow> False)"

text \<open>
  A frame that the loop accepts (a rectangular single-channel image of the shape of
  the first frame) and one that it rejects for its shape.
\<close>

definition frame_ok :: "world \<Rightarrow> nat \<times> nat \<Rightarrow> string \<Rightarrow> bool" where
  "frame_ok w hw g = (case files w g of Some (Raster a) \<Rightarrow> rect a \<and> shape a = hw | _ \<Rightarrow> False)"

definition frame_mismatch :: "world \<Rightarrow> nat \<times> nat \<Rightarrow> string \<Rightarrow> bool" where
  "frame_mismatch w hw g =
     (case files w g of Some (Raster a) \<Rightarrow> shape a \<noteq> hw | Some RasterMulti \<Rightarrow> True | _ \<Rightarrow> False)"

text \<open>A mask, when there is one, has the shape of the frames.\<close>

definition mask_fits :: "rat array2 option \<Rightarrow> nat \<times> nat \<Rightarrow> bool" where
  "mask_fits m hw = (case m of None \<Rightarrow> True | Some msk \<Rightarrow> shape msk = hw)"

text \<open>The two errors of the pixel-size resolution.\<close>

definition px_error :: "error \<Rightarrow> bool" where
  "px_error err = (case err of MissingCalibration \<Rightarrow> True | UnknownDetector _ \<Rightarrow> True | _ \<Rightarrow> False)"

subsection \<open>A small world\<close>

text \<open>
  One frame \<open>a.tif\<close> of a single pixel, the keyword arguments at their defaults
  (with a beam centre, and a pixel size where one is needed), and a table of two
  detectors.  What \<open>r2q\<close> computes plays no part in the examples.
\<close>

definition world0 :: world where
  "world0 = \<lparr>files = (\<lambda>_. None)(''a.tif'' \<mapsto> Raster [[10]]), trace = []\<rparr>"

text \<open>The same with a second frame of another shape and the output of an earlier run.\<close>

definition world1 :: world where
  "world1 = \<lparr>files = (\<lambda>_. None)(''a.tif'' \<mapsto> Raster [[10]], ''b.tif'' \<mapsto> Raster [[10, 10]],
                                    ''a.csv'' \<mapsto> TableFile [] [] []),
             trace = []\<rparr>"

definition env0 :: env where
  "env0 = \<lparr>DETECTER_PX_SIZES = [(''PILATUS'', 172 / 1000), (''EIGER'', 75 / 1000)],
           r2q = (\<lambda>r cl wl px. map (\<lambda>v. NaN) r)\<rparr>"

definition args0 :: args where
  "args0 = \<lparr>mask_src = [], mask_arg = [], center = (0, 0),
            camera_length = NaN, wave_length = NaN, px_size = NaN, detecter = [],
            slope = NaN, intercept = NaN, flip_arg = ''vertical'',
            dst = [], overwrite = False, verbose = True\<rparr>"

section \<open>Properties of the kernel\<close>

subsection \<open>The integer part of the distance\<close>

lemma isqrt_bounds: "isqrt n * isqrt n \<le> n \<and> n < (isqrt n + 1) * (isqrt n + 1)"
proof (induction n rule: isqrt.induct)
  case (1 n)
  show ?case
  proof (cases "n < 2")
    case True
    then have "isqrt n = n" by (subst isqrt.simps) simp
    then show ?thesis using True by auto
  next
    case False
    define s where "s = isqrt (n div 4)"
    have ih: "s * s \<le> n div 4 \<and> n div 4 < (s + 1) * (s + 1)"
      using 1 False unfolding s_def by blast
    have lo: "(2 * s) * (2 * s) \<le> n"
    proof -
      have "4 * (s * s) \<le> 4 * (n div 4)" using ih by simp
      also have "\<dots> \<le> n" by simp
      finally show ?thesis by (simp add: algebra_simps)
    qed
    have hi: "n < (2 * s + 2) * (2 * s + 2)"
    proof -
      have "n < 4 * (n div 4 + 1)" by simp
      also have "\<dots> \<le> 4 * ((s + 1) * (s + 1))" using ih by simp
      finally show ?thesis by (simp add: algebra_simps)
    qed
    have eq: "isqrt n = (if (2 * s + 1) * (2 * s + 1) \<le> n then 2 * s + 1 else 2 * s)"
      using False by (subst isqrt.simps) (simp only: s_def Let_def if_False)
    show ?thesis
    proof (cases "(2 * s + 1) * (2 * s + 1) \<le> n")
      case True
      then have "isqrt n = 2 * s + 1" using eq by simp
      then show ?thesis using True hi by (simp add: algebra_simps)
    next
      case c2: False
      then have "isqrt n = 2 * s" using eq by simp
      then show ?thesis using c2 lo by (simp add: algebra_simps)
    qed
  qed
qed

lemma floor_sqrt_rat:
  assumes "0 \<le> q"
  shows "\<lfloor>sqrt (real_of_rat q)\<rfloor> = int (isqrt (nat \<lfloor>q\<rfloor>))"
proof -
  define n where "n = nat \<lfloor>q\<rfloor>"
  define k where "k = isqrt n"
  have b: "k * k \<le> n" "n < (k + 1) * (k + 1)"
    using isqrt_bounds [of n] by (simp_all add: k_def)
  have nq: "real n \<le> real_of_rat q" "real_of_rat q < real n + 1"
  proof -
    have "of_int \<lfloor>q\<rfloor> \<le> q" "q < of_int \<lfloor>q\<rfloor> + 1" by linarith+
    moreover have "\<lfloor>q\<rfloor> = int n" using assms by (simp add: n_def)
    ultimately have "rat_of_nat n \<le> q" "q < rat_of_nat n + 1" by simp_all
    then have "real_of_rat (rat_of_nat n) \<le> real_of_rat q"
      "real_of_rat q < real_of_rat (rat_of_nat n + 1)"
      by (simp_all only: of_rat_less_eq of_rat_less)
    then show "real n \<le> real_of_rat q" "real_of_rat q < real n + 1"
      by (simp_all add: of_rat_add)
  qed
  have lo: "real k \<le> sqrt (real_of_rat q)"
  proof -
    have "real k * real k \<le> real n" using b(1) by (metis of_nat_le_iff of_nat_mult)
    then have "(real k)\<^sup>2 \<le> real_of_rat q" using nq(1) by (simp add: power2_eq_square)
    then show ?thesis by (simp add: real_le_rsqrt)
  qed
  have hi: "sqrt (real_of_rat q) < real k + 1"
  proof -
    have "n + 1 \<le> (k + 1) * (k + 1)" using b(2) by simp
    then have "real (n + 1) \<le> real ((k + 1) * (k + 1))" by (simp only: of_nat_le_iff)
    then have "real n + 1 \<le> (real k + 1)\<^sup>2" by (simp add: power2_eq_square algebra_simps)
    then have "real_of_rat q < (real k + 1)\<^sup>2" using nq(2) by linarith
    then show ?thesis by (simp add: real_less_lsqrt)
  qed
  have "\<lfloor>sqrt (real_of_rat q)\<rfloor> = int k"
    using lo hi by (simp add: floor_unique)
  then show ?thesis by (simp add: k_def n_def)
qed

lemma floor_Min_list:
  fixes xs :: "real list"
  assumes "xs \<noteq> []"
  shows "\<lfloor>Min (set xs)\<rfloor> = Min (set (map floor xs))"
proof -
  have "mono (floor :: real \<Rightarrow> int)" by (simp add: mono_def floor_mono)
  then have "\<lfloor>Min (set xs)\<rfloor> = Min (floor ` set xs)"
    using assms by (intro mono_Min_commute) simp_all
  then show ?thesis by simp
qed

lemma floor_Max_list:
  fixes xs :: "real list"
  assumes "xs \<noteq> []"
  shows "\<lfloor>Max (set xs)\<rfloor> = Max (set (map floor xs))"
proof -
  have "mono (floor :: real \<Rightarrow> int)" by (simp add: mono_def floor_mono)
  then have "\<lfloor>Max (set xs)\<rfloor> = Max (floor ` set xs)"
    using assms by (intro mono_Max_commute) simp_all
  then show ?thesis by simp
qed


lemma dist_sq_nonneg: "0 \<le> dist_sq cx cy x y"
  by (simp add: dist_sq_def)

lemma floor_r_mesh: "\<lfloor>r_mesh cx cy y x\<rfloor> = floor_r cx cy (x, y)"
  by (simp add: r_mesh_def floor_r_def floor_sqrt_rat dist_sq_nonneg)

lemma pixels_nonempty: "0 < w \<Longrightarrow> 0 < h \<Longrightarrow> pixels w h \<noteq> []"
  by (auto simp: pixels_def dest!: arg_cong [where f = set])

lemma mesh_values_nonempty: "0 < w \<Longrightarrow> 0 < h \<Longrightarrow> mesh_values w h cx cy \<noteq> []"
  using pixels_nonempty [of w h] by (simp add: mesh_values_def)

lemma map_floor_mesh: "map floor (mesh_values w h cx cy) = map (floor_r cx cy) (pixels w h)"
  by (simp add: mesh_values_def floor_r_mesh split_def)

lemma min_r_floor:
  "0 < w \<Longrightarrow> 0 < h \<Longrightarrow> min_r w h cx cy = \<lfloor>min_distance w h cx cy\<rfloor>"
  unfolding min_r_def min_distance_def
  by (simp only: floor_Min_list [OF mesh_values_nonempty] map_floor_mesh)

lemma max_r_floor:
  "0 < w \<Longrightarrow> 0 < h \<Longrightarrow> max_r w h cx cy = \<lfloor>max_distance w h cx cy\<rfloor> + 1"
  unfolding max_r_def max_distance_def
  by (simp only: floor_Max_list [OF mesh_values_nonempty] map_floor_mesh)

subsection \<open>Bin indices stay inside the arrays\<close>

lemma floor_r_bounds:
  assumes "p \<in> set (pixels w h)"
  shows "min_r w h cx cy \<le> floor_r cx cy p" and "floor_r cx cy p < max_r w h cx cy"
proof -
  have "floor_r cx cy p \<in> set (map (floor_r cx cy) (pixels w h))" using assms by simp
  then have "Min (set (map (floor_r cx cy) (pixels w h))) \<le> floor_r cx cy p"
    and "floor_r cx cy p \<le> Max (set (map (floor_r cx cy) (pixels w h)))"
    by (simp_all only: Min_le Max_ge List.finite_set)
  then show "min_r w h cx cy \<le> floor_r cx cy p" and "floor_r cx cy p < max_r w h cx cy"
    by (simp_all add: min_r_def max_r_def)
qed

lemma bin_idx_in_range:
  assumes "p \<in> set (pixels w h)"
  shows "bin_idx w h cx cy p < r_range w h cx cy"
  using floor_r_bounds [OF assms, of cx cy] by (simp add: bin_idx_def r_range_def)

lemma r_range_eq:
  assumes "0 < w" and "0 < h"
  shows "int (r_range w h cx cy) = \<lfloor>max_distance w h cx cy\<rfloor> - \<lfloor>min_distance w h cx cy\<rfloor> + 2"
proof -
  obtain p where p: "p \<in> set (pixels w h)"
    using pixels_nonempty [OF assms] by (cases "pixels w h") auto
  have "min_r w h cx cy < max_r w h cx cy"
    using floor_r_bounds [OF p, of cx cy] by simp
  then show ?thesis
    by (simp add: r_range_def min_r_floor [OF assms] max_r_floor [OF assms])
qed

subsection \<open>What the two loops accumulate\<close>

lemma bin_step_length:
  "length (fst (bin_step img thr idx_of p s)) = length (fst s) \<and>
   length (snd (bin_step img thr idx_of p s)) = length (snd s)"
  by (cases p; cases s) (simp add: bin_step_def Let_def)

lemma fold_bin_step_length:
  "length (fst (fold (bin_step img thr idx_of) ps s)) = length (fst s) \<and>
   length (snd (fold (bin_step img thr idx_of) ps s)) = length (snd s)"
  by (induction ps arbitrary: s) (simp_all add: bin_step_length)

lemma accumulate_alt:
  "accumulate img cx cy thr =
     fold (bin_step img thr (bin_idx (width img) (height img) cx cy)) (pixels (width img) (height img))
       (replicate (r_range (width img) (height img) cx cy) 0,
        replicate (r_range (width img) (height img) cx cy) 0)"
proof -
  have "(\<lambda>p. nat (floor_r cx cy p - min_r (width img) (height img) cx cy))
          = bin_idx (width img) (height img) cx cy"
    by (rule ext) (simp add: bin_idx_def)
  then show ?thesis by (simp add: accumulate_def Let_def r_range_def)
qed

lemma accumulate_length:
  "length (fst (accumulate img cx cy thr)) = r_range (width img) (height img) cx cy"
  "length (snd (accumulate img cx cy thr)) = r_range (width img) (height img) cx cy"
  by (simp_all add: accumulate_alt fold_bin_step_length)

lemma fold_bin_step_nth:
  assumes "\<forall>p \<in> set ps. idx_of p < length cnt" and "length i = length cnt" and "k < length cnt"
  shows "fst (fold (bin_step img thr idx_of) ps (cnt, i)) ! k
           = cnt ! k + length (filter (\<lambda>p. passes img thr p \<and> idx_of p = k) ps)
       \<and> snd (fold (bin_step img thr idx_of) ps (cnt, i)) ! k
           = i ! k + sum_list (map (pixel_value img) (filter (\<lambda>p. passes img thr p \<and> idx_of p = k) ps))"
  using assms
proof (induction ps arbitrary: cnt i)
  case Nil
  then show ?case by simp
next
  case (Cons p ps)
  obtain x y where p: "p = (x, y)" by (cases p)
  show ?case
  proof (cases "passes img thr p")
    case False
    then have "bin_step img thr idx_of p (cnt, i) = (cnt, i)"
      by (simp add: bin_step_def passes_def p)
    then show ?thesis using Cons False by simp
  next
    case True
    define j where "j = idx_of p"
    have j: "j < length cnt" using Cons.prems(1) by (simp add: j_def)
    have step: "bin_step img thr idx_of p (cnt, i)
                  = (cnt[j := cnt ! j + 1], i[j := i ! j + pixel_value img p])"
      using True by (simp add: bin_step_def passes_def pixel_value_def p j_def Let_def)
    have ih: "fst (fold (bin_step img thr idx_of) ps (cnt[j := cnt ! j + 1], i[j := i ! j + pixel_value img p])) ! k
           = cnt[j := cnt ! j + 1] ! k + length (filter (\<lambda>p. passes img thr p \<and> idx_of p = k) ps)
       \<and> snd (fold (bin_step img thr idx_of) ps (cnt[j := cnt ! j + 1], i[j := i ! j + pixel_value img p])) ! k
           = i[j := i ! j + pixel_value img p] ! k
             + sum_list (map (pixel_value img) (filter (\<lambda>p. passes img thr p \<and> idx_of p = k) ps))"
      using Cons.prems by (intro Cons.IH) simp_all
    show ?thesis
    proof (cases "j = k")
      case True
      then show ?thesis using ih step \<open>passes img thr p\<close> j Cons.prems(2)
        by (simp add: j_def)
    next
      case False
      then show ?thesis using ih step \<open>passes img thr p\<close> j Cons.prems(2)
        by (simp add: j_def)
    qed
  qed
qed

lemma accumulate_nth:
  assumes "k < r_range (width img) (height img) cx cy"
  shows "fst (accumulate img cx cy thr) ! k
           = length (filter (passes img thr) (bin_pixels (width img) (height img) cx cy k))"
    and "snd (accumulate img cx cy thr) ! k
           = sum_list (map (pixel_value img) (filter (passes img thr) (bin_pixels (width img) (height img) cx cy k)))"
proof -
  let ?w = "width img" and ?h = "height img"
  let ?n = "r_range ?w ?h cx cy"
  have *: "\<forall>p \<in> set (pixels ?w ?h). bin_idx ?w ?h cx cy p < length (replicate ?n (0::nat))"
    by (simp add: bin_idx_in_range)
  have flt: "filter (\<lambda>p. passes img thr p \<and> bin_idx ?w ?h cx cy p = k) (pixels ?w ?h)
               = filter (passes img thr) (bin_pixels ?w ?h cx cy k)"
    by (simp add: bin_pixels_def conj_commute)
  note r = fold_bin_step_nth [OF *, of "replicate ?n 0" k img thr]
  show "fst (accumulate img cx cy thr) ! k
           = length (filter (passes img thr) (bin_pixels ?w ?h cx cy k))"
    using r assms by (simp add: accumulate_alt flt)
  show "snd (accumulate img cx cy thr) ! k
           = sum_list (map (pixel_value img) (filter (passes img thr) (bin_pixels ?w ?h cx cy k)))"
    using r assms by (simp add: accumulate_alt flt)
qed

lemma radial_average_result:
  assumes "0 < width img" and "0 < height img"
  shows "radial_average img cx cy thr =
           Inr (map (\<lambda>k. of_int (min_r (width img) (height img) cx cy) + 1 / 2 + of_nat k)
                  [0..<r_range (width img) (height img) cx cy],
                map2 bin_mean (fst (accumulate img cx cy thr)) (snd (accumulate img cx cy thr)))"
  using assms by (simp add: radial_average_def Let_def split_def accumulate_length)

lemma sorted_half_grid: "sorted_wrt (<) (map (\<lambda>k. (c::rat) + 1 / 2 + of_nat k) [0..<n])"
  by (simp add: sorted_wrt_iff_nth_less)

lemma in_pixels: "(x, y) \<in> set (pixels w h) \<longleftrightarrow> x < w \<and> y < h"
  by (auto simp: pixels_def)

lemma max_distance_eqI:
  assumes "x0 < w" and "y0 < h" and "dist_sq cx cy x0 y0 = m\<^sup>2" and "0 \<le> m"
    and "list_all (\<lambda>(x, y). dist_sq cx cy x y \<le> m\<^sup>2) (pixels w h)"
  shows "max_distance w h cx cy = real_of_rat m"
  unfolding max_distance_def
proof (rule Max_eqI)
  show "finite (set (mesh_values w h cx cy))" by simp
  have "r_mesh cx cy y0 x0 = real_of_rat m"
    using assms(3,4) by (simp add: r_mesh_def of_rat_power real_sqrt_abs zero_le_of_rat_iff)
  moreover have "(x0, y0) \<in> set (pixels w h)" using assms(1,2) by (simp add: in_pixels)
  ultimately show "real_of_rat m \<in> set (mesh_values w h cx cy)"
    by (force simp: mesh_values_def)
  fix v assume "v \<in> set (mesh_values w h cx cy)"
  then obtain x y where p: "(x, y) \<in> set (pixels w h)" and v: "v = r_mesh cx cy y x"
    by (auto simp: mesh_values_def)
  have "dist_sq cx cy x y \<le> m\<^sup>2" using assms(5) p by (auto simp: list_all_iff)
  then have "real_of_rat (dist_sq cx cy x y) \<le> (real_of_rat m)\<^sup>2"
    by (metis of_rat_less_eq of_rat_power)
  then have "sqrt (real_of_rat (dist_sq cx cy x y)) \<le> real_of_rat m"
    using assms(4) by (simp add: real_le_lsqrt zero_le_of_rat_iff)
  then show "v \<le> real_of_rat m" by (simp add: v r_mesh_def)
qed

lemma min_distance_eqI:
  assumes "x0 < w" and "y0 < h" and "dist_sq cx cy x0 y0 = m\<^sup>2" and "0 \<le> m"
    and "list_all (\<lambda>(x, y). m\<^sup>2 \<le> dist_sq cx cy x y) (pixels w h)"
  shows "min_distance w h cx cy = real_of_rat m"
  unfolding min_distance_def
proof (rule Min_eqI)
  show "finite (set (mesh_values w h cx cy))" by simp
  have "r_mesh cx cy y0 x0 = real_of_rat m"
    using assms(3,4) by (simp add: r_mesh_def of_rat_power real_sqrt_abs zero_le_of_rat_iff)
  moreover have "(x0, y0) \<in> set (pixels w h)" using assms(1,2) by (simp add: in_pixels)
  ultimately show "real_of_rat m \<in> set (mesh_values w h cx cy)"
    by (force simp: mesh_values_def)
  fix v assume "v \<in> set (mesh_values w h cx cy)"
  then obtain x y where p: "(x, y) \<in> set (pixels w h)" and v: "v = r_mesh cx cy y x"
    by (auto simp: mesh_values_def)
  have "m\<^sup>2 \<le> dist_sq cx cy x y" using assms(5) p by (auto simp: list_all_iff)
  then have "(real_of_rat m)\<^sup>2 \<le> real_of_rat (dist_sq cx cy x y)"
    by (metis of_rat_less_eq of_rat_power)
  then have "real_of_rat m \<le> sqrt (real_of_rat (dist_sq cx cy x y))"
    by (simp add: real_le_rsqrt)
  then show "v \<ge> real_of_rat m" by (simp add: v r_mesh_def)
qed

subsection \<open>Pixels under a mask\<close>

lemma rect_row: "rect a \<Longrightarrow> y < height a \<Longrightarrow> length (a ! y) = width a"
  by (simp add: rect_def height_def list_all_length)

lemma mul2_shape:
  assumes "shape msk = shape img"
  shows "height (mul2 img msk) = height img" and "width (mul2 img msk) = width img"
proof -
  show "height (mul2 img msk) = height img"
    using assms by (simp add: shape_def height_def mul2_def)
  show "width (mul2 img msk) = width img"
  proof (cases img)
    case Nil
    then show ?thesis by (simp add: mul2_def width_def)
  next
    case (Cons r rs)
    then obtain m ms where m: "msk = m # ms"
      using assms by (cases msk) (simp_all add: shape_def height_def)
    then show ?thesis using assms Cons by (simp add: shape_def width_def mul2_def)
  qed
qed

lemma mul2_nth:
  assumes "rect img" and "rect msk" and "shape msk = shape img"
    and "x < width img" and "y < height img"
  shows "mul2 img msk ! y ! x = img ! y ! x * msk ! y ! x"
proof -
  have hm: "height msk = height img" and wm: "width msk = width img"
    using assms(3) by (simp_all add: shape_def)
  have y: "y < length img" "y < length msk" using assms(5) hm by (simp_all add: height_def)
  have "length (img ! y) = width img" "length (msk ! y) = width img"
    using rect_row [OF assms(1) assms(5)] rect_row [OF assms(2), of y] assms(5) hm wm by simp_all
  then show ?thesis using y assms(4) by (simp add: mul2_def)
qed

lemma binary_nth:
  assumes "binary msk" and "rect msk" and "x < width msk" and "y < height msk"
  shows "msk ! y ! x = 0 \<or> msk ! y ! x = 1"
proof -
  have "list_all (\<lambda>v. v \<in> {0, 1}) (msk ! y)"
    using assms(1,4) by (simp add: binary_def height_def list_all_length)
  moreover have "x < length (msk ! y)" using rect_row [OF assms(2,4)] assms(3) by simp
  ultimately show ?thesis by (simp add: list_all_length)
qed

lemma masked_pixel:
  assumes "rect img" and "rect msk" and "shape msk = shape img" and "binary msk" and "0 < thr"
    and "p \<in> set (pixels (width img) (height img))"
  shows "passes (mul2 img msk) thr p \<longleftrightarrow> contributes img msk thr p"
    and "contributes img msk thr p \<Longrightarrow> pixel_value (mul2 img msk) p = pixel_value img p"
proof -
  obtain x y where p: "p = (x, y)" by (cases p)
  have xy: "x < width img" "y < height img" using assms(6) by (simp_all add: p in_pixels)
  have xym: "x < width msk" "y < height msk" using xy assms(3) by (simp_all add: shape_def)
  have v: "mul2 img msk ! y ! x = img ! y ! x * msk ! y ! x"
    by (rule mul2_nth [OF assms(1-3) xy])
  have b: "msk ! y ! x = 0 \<or> msk ! y ! x = 1"
    by (rule binary_nth [OF assms(4,2) xym])
  show "passes (mul2 img msk) thr p \<longleftrightarrow> contributes img msk thr p"
    using b assms(5) by (auto simp: passes_def contributes_def p v)
  show "contributes img msk thr p \<Longrightarrow> pixel_value (mul2 img msk) p = pixel_value img p"
    using b by (auto simp: pixel_value_def contributes_def p v)
qed

lemma bin_pixels_subset: "set (bin_pixels w h cx cy k) \<subseteq> set (pixels w h)"
  by (auto simp: bin_pixels_def)

lemma min_r_nonneg:
  assumes "0 < w" and "0 < h"
  shows "0 \<le> min_r w h cx cy"
proof -
  have "set (map (floor_r cx cy) (pixels w h)) \<noteq> {}"
    using pixels_nonempty [OF assms] by simp
  then have "Min (set (map (floor_r cx cy) (pixels w h))) \<in> set (map (floor_r cx cy) (pixels w h))"
    using Min_in [of "set (map (floor_r cx cy) (pixels w h))"] by simp
  then obtain p where "min_r w h cx cy = floor_r cx cy p"
    by (auto simp: min_r_def)
  then show ?thesis by (cases p) (simp add: floor_r_def)
qed

lemma r_range_pos:
  assumes "0 < w" and "0 < h"
  shows "0 < r_range w h cx cy"
proof -
  obtain p where p: "p \<in> set (pixels w h)"
    using pixels_nonempty [OF assms] by (cases "pixels w h") auto
  have "min_r w h cx cy < max_r w h cx cy"
    using floor_r_bounds [OF p, of cx cy] by simp
  then show ?thesis by (simp add: r_range_def)
qed

lemma radial_average_radii:
  assumes "radial_average img cx cy thr = Inr (r, i)"
  shows "0 < width img" and "0 < height img"
    and "r = map (\<lambda>k. of_int (min_r (width img) (height img) cx cy) + 1 / 2 + of_nat k)
               [0..<r_range (width img) (height img) cx cy]"
proof -
  show wh: "0 < width img" "0 < height img"
    using assms by (auto simp: radial_average_def Let_def split: if_splits)
  show "r = map (\<lambda>k. of_int (min_r (width img) (height img) cx cy) + 1 / 2 + of_nat k)
               [0..<r_range (width img) (height img) cx cy]"
    using assms radial_average_result [OF wh, of cx cy thr] by simp
qed

lemma radial_average_radii_pos:
  assumes "radial_average img cx cy thr = Inr (r, i)"
  shows "r \<noteq> []" and "\<forall>v\<in>set r. 0 < v"
proof -
  note ra = radial_average_radii [OF assms]
  show "r \<noteq> []" using r_range_pos [OF ra(1,2), of cx cy] by (simp add: ra(3))
  have "(0::rat) \<le> of_int (min_r (width img) (height img) cx cy)"
    using min_r_nonneg [OF ra(1,2), of cx cy] by simp
  then have "(0::rat) < of_int (min_r (width img) (height img) cx cy) + 1 / 2 + of_nat k" for k
    by (simp add: add_nonneg_pos add_pos_nonneg)
  then show "\<forall>v\<in>set r. 0 < v" by (subst ra(3)) (simp add: image_iff)
qed

section \<open>Properties of masks\<close>

lemma slice_bound_le: "slice_bound i n \<le> n"
  unfolding slice_bound_def by (auto; linarith)

lemma slice_bound_nonneg: "0 \<le> i \<Longrightarrow> slice_bound i n = min (nat i) n"
  by (simp add: slice_bound_def)

lemma assign_slice_length: "length (assign_slice start stop v row) = length row"
  using slice_bound_le [of start "length row"] slice_bound_le [of stop "length row"]
  by (simp add: assign_slice_def Let_def)

lemma assign_slice_nth:
  assumes "i < length row"
  shows "assign_slice start stop v row ! i
           = (if slice_bound start (length row) \<le> i \<and> i < slice_bound stop (length row)
              then v else row ! i)"
proof -
  let ?s = "slice_bound start (length row)" and ?e = "slice_bound stop (length row)"
  have le: "?s \<le> length row" "?e \<le> length row" by (simp_all add: slice_bound_le)
  show ?thesis
  proof (cases "?s < ?e")
    case False
    then have "\<not> (?s \<le> i \<and> i < ?e)" by linarith
    then show ?thesis using False by (auto simp: assign_slice_def Let_def)
  next
    case True
    have eq: "assign_slice start stop v row = take ?s row @ replicate (?e - ?s) v @ drop ?e row"
      using True by (simp add: assign_slice_def Let_def)
    consider "i < ?s" | "?s \<le> i" "i < ?e" | "?e \<le> i" by linarith
    then show ?thesis
    proof cases
      case 1
      then show ?thesis using le by (simp add: eq nth_append)
    next
      case 2
      then have "i - ?s < ?e - ?s" by linarith
      then show ?thesis using 2 le by (simp add: eq nth_append)
    next
      case 3
      then have "\<not> i < ?s" "\<not> i - ?s < ?e - ?s" "i - ?s - (?e - ?s) = i - ?e" "?e + (i - ?e) = i"
        using True by linarith+
      then show ?thesis using 3 le assms by (simp add: eq nth_append)
    qed
  qed
qed

lemma assign_rect_length: "length (assign_rect ys ye xs xe v a) = length a"
  using slice_bound_le [of ys "length a"] slice_bound_le [of ye "length a"]
  by (simp add: assign_rect_def Let_def)

lemma assign_rect_nth:
  assumes "j < length a"
  shows "assign_rect ys ye xs xe v a ! j
           = (if slice_bound ys (length a) \<le> j \<and> j < slice_bound ye (length a)
              then assign_slice xs xe v (a ! j) else a ! j)"
proof -
  let ?s = "slice_bound ys (length a)" and ?e = "slice_bound ye (length a)"
  have le: "?s \<le> length a" "?e \<le> length a" by (simp_all add: slice_bound_le)
  show ?thesis
  proof (cases "?s < ?e")
    case False
    then have "\<not> (?s \<le> j \<and> j < ?e)" by linarith
    then show ?thesis using False by (auto simp: assign_rect_def Let_def)
  next
    case True
    have eq: "assign_rect ys ye xs xe v a
                = take ?s a @ map (assign_slice xs xe v) (take (?e - ?s) (drop ?s a)) @ drop ?e a"
      using True by (simp add: assign_rect_def Let_def)
    consider "j < ?s" | "?s \<le> j" "j < ?e" | "?e \<le> j" by linarith
    then show ?thesis
    proof cases
      case 1
      then show ?thesis using le by (simp add: eq nth_append)
    next
      case 2
      then have "j - ?s < ?e - ?s" "j - ?s < length a - ?s" using assms by linarith+
      then show ?thesis using 2 le by (simp add: eq nth_append)
    next
      case 3
      then have "\<not> j < ?s" "\<not> j - ?s < ?e - ?s" "j - ?s - (?e - ?s) = j - ?e" "?e + (j - ?e) = j"
        using True by linarith+
      then show ?thesis using 3 le assms by (simp add: eq nth_append)
    qed
  qed
qed

lemma assign_rect_row_lengths: "map length (assign_rect ys ye xs xe v a) = map length a"
  by (rule nth_equalityI) (simp_all add: assign_rect_length assign_rect_nth assign_slice_length)

lemma width_map_length: "width a = (case map length a of [] \<Rightarrow> 0 | n # _ \<Rightarrow> n)"
  by (cases a) (simp_all add: width_def)

lemma rect_map_length: "rect a = list_all (\<lambda>n. n = width a) (map length a)"
  by (simp add: rect_def list_all_iff)

lemma assign_rect_shape:
  "shape (assign_rect ys ye xs xe v a) = shape a"
  "rect (assign_rect ys ye xs xe v a) = rect a"
proof -
  show "shape (assign_rect ys ye xs xe v a) = shape a"
    by (simp add: shape_def height_def assign_rect_length width_map_length assign_rect_row_lengths)
  show "rect (assign_rect ys ye xs xe v a) = rect a"
    by (simp only: rect_map_length width_map_length assign_rect_row_lengths)
qed

lemma assign_rect_pixel:
  assumes "rect a" and "0 \<le> x" and "0 \<le> y" and "0 \<le> x + w" and "0 \<le> y + h"
    and "i < width a" and "j < height a"
  shows "assign_rect y (y + h) x (x + w) v a ! j ! i
           = (if in_rectangle x y w h i j then v else a ! j ! i)"
proof -
  have j: "j < length a" using assms(7) by (simp add: height_def)
  have row: "length (a ! j) = width a" by (rule rect_row [OF assms(1,7)])
  have i: "i < length (a ! j)" using assms(6) row by simp
  have rows: "slice_bound y (length a) \<le> j \<and> j < slice_bound (y + h) (length a)
                \<longleftrightarrow> y \<le> int j \<and> int j < y + h"
    using j assms(3,5) by (auto simp: slice_bound_nonneg)
  have cols: "slice_bound x (length (a ! j)) \<le> i \<and> i < slice_bound (x + w) (length (a ! j))
                \<longleftrightarrow> x \<le> int i \<and> int i < x + w"
    using i assms(2,4) by (auto simp: slice_bound_nonneg)
  show ?thesis
    unfolding assign_rect_nth [OF j] rows
    by (simp add: assign_slice_nth [OF i] cols in_rectangle_def)
qed

lemma readmask_px_nat: "readmask_px (int v) = (if v > 0 then 1 else 0)"
  by (simp add: readmask_px_def)

section \<open>Properties of the region-averaging variant\<close>

lemma sq_le_iff_real:
  fixes a :: real
  assumes "0 \<le> a" and "0 \<le> d"
  shows "a \<le> sqrt d \<longleftrightarrow> a * a \<le> d"
  using assms by (metis abs_of_nonneg power2_eq_square real_sqrt_abs real_sqrt_le_iff real_sqrt_ge_0_iff)

lemma int_le_sqrt_iff:
  assumes "0 \<le> d"
  shows "int_le_sqrt e d \<longleftrightarrow> of_int e \<le> sqrt (real_of_rat d)"
proof (cases "e \<le> 0")
  case True
  then have "real_of_int e \<le> 0" by simp
  moreover have "0 \<le> sqrt (real_of_rat d)" using assms by (simp add: zero_le_of_rat_iff)
  ultimately have "real_of_int e \<le> sqrt (real_of_rat d)" by linarith
  then show ?thesis using True by (simp add: int_le_sqrt_def)
next
  case False
  have d: "0 \<le> real_of_rat d" using assms by (simp add: zero_le_of_rat_iff)
  have "of_int (e * e) \<le> d \<longleftrightarrow> real_of_rat (of_int (e * e)) \<le> real_of_rat d"
    by (simp only: of_rat_less_eq)
  also have "\<dots> \<longleftrightarrow> real_of_int e * real_of_int e \<le> real_of_rat d" by (simp add: of_rat_mult)
  also have "\<dots> \<longleftrightarrow> real_of_int e \<le> sqrt (real_of_rat d)"
    using False d by (simp add: sq_le_iff_real)
  finally show ?thesis using False by (simp add: int_le_sqrt_def)
qed

lemma sqrt_lt_rat_iff:
  assumes "0 \<le> d"
  shows "sqrt_lt_rat d a \<longleftrightarrow> sqrt (real_of_rat d) < real_of_rat a"
proof (cases "0 < a")
  case False
  then have "real_of_rat a \<le> 0" by (simp add: of_rat_le_0_iff)
  moreover have "0 \<le> sqrt (real_of_rat d)" using assms by (simp add: zero_le_of_rat_iff)
  ultimately have "\<not> sqrt (real_of_rat d) < real_of_rat a" by linarith
  then show ?thesis using False by (simp add: sqrt_lt_rat_def)
next
  case True
  have d: "0 \<le> real_of_rat d" using assms by (simp add: zero_le_of_rat_iff)
  have a: "0 \<le> real_of_rat a" using True by (simp add: zero_le_of_rat_iff)
  have "d < a * a \<longleftrightarrow> real_of_rat d < real_of_rat (a * a)" by (simp only: of_rat_less)
  also have "\<dots> \<longleftrightarrow> \<not> real_of_rat a * real_of_rat a \<le> real_of_rat d"
    by (simp add: of_rat_mult not_le)
  also have "\<dots> \<longleftrightarrow> \<not> real_of_rat a \<le> sqrt (real_of_rat d)"
    using a d by (simp add: sq_le_iff_real)
  finally show ?thesis using True by (simp add: sqrt_lt_rat_def not_le)
qed

lemma sqrt_lt_int_iff:
  assumes "0 \<le> d"
  shows "sqrt_lt_int d e \<longleftrightarrow> sqrt (real_of_rat d) < of_int e"
  using sqrt_lt_rat_iff [OF assms, of "of_int e"]
  by (simp add: sqrt_lt_int_def sqrt_lt_rat_def)

lemma sqrt_le_int_iff:
  assumes "0 \<le> d"
  shows "sqrt_le_int d e \<longleftrightarrow> sqrt (real_of_rat d) \<le> of_int e"
proof (cases "0 \<le> e")
  case False
  then have "real_of_int e < 0" by simp
  moreover have "0 \<le> sqrt (real_of_rat d)" using assms by (simp add: zero_le_of_rat_iff)
  ultimately have "\<not> sqrt (real_of_rat d) \<le> real_of_int e" by linarith
  then show ?thesis using False by (simp add: sqrt_le_int_def)
next
  case True
  have "d \<le> of_int (e * e) \<longleftrightarrow> real_of_rat d \<le> real_of_rat (of_int (e * e))"
    by (simp only: of_rat_less_eq)
  also have "\<dots> \<longleftrightarrow> real_of_rat d \<le> (real_of_int e)\<^sup>2" by (simp add: power2_eq_square of_rat_mult)
  also have "\<dots> \<longleftrightarrow> sqrt (real_of_rat d) \<le> real_of_int e"
    using True by (metis abs_of_nonneg of_int_0_le_iff real_sqrt_abs real_sqrt_le_iff)
  finally show ?thesis using True by (simp add: sqrt_le_int_def)
qed

lemma ceil_sqrt_eq:
  assumes "0 \<le> d"
  shows "ceil_sqrt d = \<lceil>sqrt (real_of_rat d)\<rceil>"
proof -
  define k where "k = isqrt (nat \<lfloor>d\<rfloor>)"
  have fl: "\<lfloor>sqrt (real_of_rat d)\<rfloor> = int k"
    using floor_sqrt_rat [OF assms] by (simp add: k_def)
  show ?thesis
  proof (cases "of_nat (k * k) = d")
    case True
    then have "real_of_rat d = (real k)\<^sup>2"
      by (metis of_nat_mult of_rat_of_nat_eq power2_eq_square)
    then have "sqrt (real_of_rat d) = real k" by simp
    then show ?thesis using True by (simp add: ceil_sqrt_def k_def [symmetric])
  next
    case False
    have "sqrt (real_of_rat d) \<noteq> real k"
    proof
      assume "sqrt (real_of_rat d) = real k"
      then have "(sqrt (real_of_rat d))\<^sup>2 = (real k)\<^sup>2" by simp
      then have "real_of_rat d = real_of_rat (of_nat (k * k))"
        using assms by (simp add: zero_le_of_rat_iff power2_eq_square of_rat_mult)
      then show False using False by (simp only: of_rat_eq_iff)
    qed
    then have "sqrt (real_of_rat d) \<noteq> of_int \<lfloor>sqrt (real_of_rat d)\<rfloor>" using fl by simp
    then have "\<lceil>sqrt (real_of_rat d)\<rceil> = \<lfloor>sqrt (real_of_rat d)\<rfloor> + 1"
      by (simp add: ceiling_altdef)
    then show ?thesis using False fl by (simp add: ceil_sqrt_def k_def [symmetric])
  qed
qed

lemma in_hist_bin_iff:
  assumes "0 \<le> d"
  shows "in_hist_bin edges k d \<longleftrightarrow>
           of_int (edges ! k) \<le> sqrt (real_of_rat d)
         \<and> (if k + 2 = length edges then sqrt (real_of_rat d) \<le> of_int (edges ! (k + 1))
            else sqrt (real_of_rat d) < of_int (edges ! (k + 1)))"
  by (simp add: in_hist_bin_def int_le_sqrt_iff [OF assms] sqrt_le_int_iff [OF assms]
      sqrt_lt_int_iff [OF assms])

lemma sqrt_Max_list:
  fixes xs :: "rat list"
  assumes "xs \<noteq> []"
  shows "sqrt (real_of_rat (Max (set xs))) = Max (set (map (\<lambda>q. sqrt (real_of_rat q)) xs))"
proof -
  have "mono (\<lambda>q. sqrt (real_of_rat q))"
    by (simp add: mono_def of_rat_less_eq)
  then have "sqrt (real_of_rat (Max (set xs))) = Max ((\<lambda>q. sqrt (real_of_rat q)) ` set xs)"
    using assms by (intro mono_Max_commute) simp_all
  then show ?thesis by simp
qed

lemma sqrt_max_dist_sq:
  assumes "0 < width (s_i s)" and "0 < height (s_i s)"
  shows "sqrt (real_of_rat (max_dist_sq s))
           = max_distance (width (s_i s)) (height (s_i s)) (fst (s_center s)) (snd (s_center s))"
proof -
  let ?ps = "pixels (width (s_i s)) (height (s_i s))"
  have ne: "map (\<lambda>(x, y). dist_sq (fst (s_center s)) (snd (s_center s)) x y) ?ps \<noteq> []"
    using pixels_nonempty [OF assms] by simp
  show ?thesis
    unfolding max_dist_sq_def max_distance_def mesh_values_def sqrt_Max_list [OF ne]
    by (simp add: r_mesh_def split_def comp_def)
qed

lemma hist_length:
  "length (hist_count edges data) = length edges - 1"
  "length (hist_sum edges data) = length edges - 1"
  by (simp_all add: hist_count_def hist_sum_def)

lemma hist_nth:
  assumes "j < length edges - 1"
  shows "hist_count edges data ! j = length (filter (\<lambda>(d, v). in_hist_bin edges j d) data)"
    and "hist_sum edges data ! j = sum_list (map snd (filter (\<lambda>(d, v). in_hist_bin edges j d) data))"
  using assms by (simp_all add: hist_count_def hist_sum_def)

lemma Saxs2d_radial_average_result:
  assumes "Saxs2d_r_bin s q_min q_max = Inr edges"
  shows "\<exists>q. Saxs2d_radial_average s q_min q_max
              = Inr (map2 true_divide (hist_sum edges (finite_pixels s))
                       (hist_count edges (finite_pixels s)), q)"
  using assms by (simp add: Saxs2d_radial_average_def Let_def)

lemma radial_average_empty_bin:
  assumes "0 < width img" and "0 < height img"
    and "k < r_range (width img) (height img) cx cy"
    and "filter (passes img thr) (bin_pixels (width img) (height img) cx cy k) = []"
  shows "\<exists>r i. radial_average img cx cy thr = Inr (r, i)
            \<and> length i = r_range (width img) (height img) cx cy \<and> length r = length i \<and> i ! k = 0"
proof -
  have "fst (accumulate img cx cy thr) ! k = 0"
    using accumulate_nth(1) [OF assms(3), of thr] assms(4) by simp
  then have "map2 bin_mean (fst (accumulate img cx cy thr)) (snd (accumulate img cx cy thr)) ! k = 0"
    using assms(3) by (simp add: accumulate_length bin_mean_def)
  then show ?thesis
    by (simp add: radial_average_result [OF assms(1,2)] accumulate_length)
qed

lemma Saxs2d_empty_bin:
  assumes "Saxs2d_r_bin s q_min q_max = Inr edges"
    and "j < length edges - 1"
    and "filter (\<lambda>(d, v). in_hist_bin edges j d) (finite_pixels s) = []"
  shows "\<exists>i q. Saxs2d_radial_average s q_min q_max = Inr (i, q)
            \<and> length i = length edges - 1 \<and> i ! j = NaN"
proof -
  obtain q where q: "Saxs2d_radial_average s q_min q_max
      = Inr (map2 true_divide (hist_sum edges (finite_pixels s)) (hist_count edges (finite_pixels s)), q)"
    using Saxs2d_radial_average_result [OF assms(1)] by blast
  have "hist_count edges (finite_pixels s) ! j = 0" "hist_sum edges (finite_pixels s) ! j = 0"
    using hist_nth [OF assms(2), of "finite_pixels s"] assms(3) by simp_all
  then have "map2 true_divide (hist_sum edges (finite_pixels s)) (hist_count edges (finite_pixels s)) ! j = NaN"
    using assms(2) by (simp add: hist_length true_divide_def)
  then show ?thesis using q by (simp add: hist_length)
qed

section \<open>Properties of the batch integration\<close>

lemma files_log_event [simp]: "files (log_event ev w) = files w"
  by (simp add: log_event_def)

lemma exists_path_log_event [simp]: "exists_path (log_event ev w) p = exists_path w p"
  by (simp add: exists_path_def)

lemma trace_log_event [simp]: "trace (log_event ev w) = trace w @ [ev]"
  by (simp add: log_event_def)

lemma process_frame_log_event [simp]:
  "process_frame (log_event ev w) hw f m c fname = process_frame w hw f m c fname"
  by (simp add: process_frame_def)

lemma integrate_frames_files:
  "files (snd (integrate_frames hw f m c vb fs acc w)) = files w"
proof (induction fs arbitrary: acc w)
  case Nil
  then show ?case by simp
next
  case (Cons fname rest)
  show ?case
  proof (cases "process_frame w hw f m c fname")
    case (Inl err)
    then show ?thesis by simp
  next
    case (Inr ri)
    then show ?thesis by (cases ri) (simp add: Cons.IH)
  qed
qed

lemma integrate_frames_result:
  assumes "integrate_frames hw f m c vb fs acc w = (Inr res, w')"
  shows "snd (snd res) = snd (snd acc) @ map basename fs
       \<and> length (fst (snd res)) = length (fst (snd acc)) + length fs"
  using assms
proof (induction fs arbitrary: acc w)
  case Nil
  then show ?case by simp
next
  case (Cons fname rest)
  show ?case
  proof (cases "process_frame w hw f m c fname")
    case (Inl err)
    then show ?thesis using Cons.prems by simp
  next
    case (Inr ri)
    obtain r i where ri: "ri = (r, i)" by (cases ri)
    have "integrate_frames hw f m c vb rest
            (r, fst (snd acc) @ [i], snd (snd acc) @ [basename fname])
            (if vb then log_event BarUpdate w else w) = (Inr res, w')"
      using Cons.prems Inr ri by simp
    from Cons.IH [OF this] show ?thesis by simp
  qed
qed

lemma integrate_frames_warnings:
  "filter is_warning (trace (snd (integrate_frames hw f m c vb fs acc w))) = filter is_warning (trace w)"
proof (induction fs arbitrary: acc w)
  case Nil
  then show ?case by simp
next
  case (Cons fname rest)
  show ?case
  proof (cases "process_frame w hw f m c fname")
    case (Inl err)
    then show ?thesis by simp
  next
    case (Inr ri)
    have "\<not> is_warning BarUpdate" by (simp add: is_warning_def)
    then show ?thesis using Inr Cons.IH by (cases ri; cases vb) simp_all
  qed
qed

lemma files_fold_log_event [simp]: "files (fold log_event evs w) = files w"
  by (induction evs arbitrary: w) simp_all

lemma trace_fold_log_event [simp]: "trace (fold log_event evs w) = trace w @ evs"
  by (induction evs arbitrary: w) simp_all

lemma files_write_results:
  "files (write_results e a d cal px res w)
     = ((files w)(d \<mapsto> TableFile (set_first_header cal (snd (snd res)))
                          (fst (q_column e cal a px (fst res))) (fst (snd res))))
       (paramfile d \<mapsto> JsonFile (make_params a cal px))"
  by (simp add: write_results_def Let_def savetxt_def write_json_def write_file_def)

lemma q_column_warnings: "filter is_warning (snd (q_column e cal a px r)) = snd (q_column e cal a px r)"
  by (auto simp: q_column_def Let_def warn_if_def is_warning_def filter_id_conv)

lemma warnings_write_results:
  "filter is_warning (trace (write_results e a d cal px res w))
     = filter is_warning (trace w) @ snd (q_column e cal a px (fst res))"
proof -
  have "\<not> is_warning BarClose" by (simp add: is_warning_def)
  then show ?thesis
    by (simp add: write_results_def Let_def savetxt_def write_json_def write_file_def
        q_column_warnings)
qed

lemma files_before_frames [simp]: "files (before_frames a n w) = files w"
  by (simp add: before_frames_def Let_def)

lemma series_integrate_reach:
  assumes "resolve_files w s (dst a) = Inr (fs, d)" and "fs \<noteq> []"
    and "overwrite a \<or> \<not> exists_path w d"
  shows "series_integrate e s a w =
     (case resolve_px_size (DETECTER_PX_SIZES e) (detecter a) (px_size a) of
        Inl err \<Rightarrow> (Inl err, if verbose a then log_event (BarOpen (length fs)) w else w)
      | Inr px \<Rightarrow>
         (case first_shape (before_frames a (length fs) w) (hd fs) of
            Inl err \<Rightarrow> (Inl err, before_frames a (length fs) w)
          | Inr hw \<Rightarrow>
             (case resolve_mask (before_frames a (length fs) w) (mask_arg a) (mask_src a) hw of
                Inl err \<Rightarrow> (Inl err, before_frames a (length fs) w)
              | Inr m \<Rightarrow>
                 (case integrate_frames hw (flip_arg a) m (center a) (verbose a) fs
                         ([], [], [''q[nm^-1]'']) (before_frames a (length fs) w) of
                    (Inl err, w3) \<Rightarrow> (Inl err, w3)
                  | (Inr res, w3) \<Rightarrow>
                      (Inr d, write_results e a d
                                (resolve_calibration (camera_length a) (wave_length a) (slope a) (intercept a))
                                px res w3)))))"
proof -
  have g: "(\<not> overwrite a \<and> exists_path w d) = False" "(fs = []) = False"
    using assms(2,3) by auto
  show ?thesis
    by (cases "verbose a";
        cases "resolve_calibration (camera_length a) (wave_length a) (slope a) (intercept a) = ''none''")
      (simp_all add: series_integrate_def before_frames_def Let_def assms(1) g
         cong del: sum.case_cong_weak prod.case_cong_weak)
qed

lemma first_shape_files: "files w' = files w \<Longrightarrow> first_shape w' g = first_shape w g"
  by (simp add: first_shape_def)

lemma readmask_files: "files w' = files w \<Longrightarrow> readmask w' p = readmask w p"
  by (simp add: readmask_def exists_path_def)

lemma resolve_mask_files: "files w' = files w \<Longrightarrow> resolve_mask w' m msrc hw = resolve_mask w m msrc hw"
  using readmask_files [of w' w msrc] by (simp add: resolve_mask_def)

lemma process_frame_files:
  "files w' = files w \<Longrightarrow> process_frame w' hw f m c g = process_frame w hw f m c g"
  by (simp add: process_frame_def)

lemma series_integrate_no_files:
  "resolve_files w s (dst a) = Inl err \<Longrightarrow> series_integrate e s a w = (Inl err, w)"
  by (simp add: series_integrate_def)

lemma series_integrate_empty:
  "resolve_files w s (dst a) = Inr ([], d) \<Longrightarrow> series_integrate e s a w = (Inl NoInputFiles, w)"
  by (simp add: series_integrate_def)

lemma series_integrate_exists:
  assumes "resolve_files w s (dst a) = Inr (fs, d)" and "fs \<noteq> []" and "\<not> overwrite a" and "exists_path w d"
  shows "series_integrate e s a w
           = (Inl (OutputExists d), if verbose a then log_event (BarOpen (length fs)) w else w)"
proof -
  have "exists_path (if verbose a then log_event (BarOpen (length fs)) w else w) d"
    using assms(4) by simp
  then show ?thesis
    using assms(2,3) by (simp add: series_integrate_def Let_def assms(1))
qed

lemmas series_integrate_early = series_integrate_no_files series_integrate_empty series_integrate_exists

lemma series_integrate_failure_files:
  assumes "fst (series_integrate e s a w) = Inl err"
  shows "files (snd (series_integrate e s a w)) = files w"
proof (cases "resolve_files w s (dst a)")
  case (Inl err')
  then show ?thesis by (simp add: series_integrate_early(1))
next
  case (Inr p)
  obtain fs d where p: "p = (fs, d)" by (cases p)
  show ?thesis
  proof (cases "fs = [] \<or> (\<not> overwrite a \<and> exists_path w d)")
    case True
    then consider "fs = []" | "fs \<noteq> []" "\<not> overwrite a" "exists_path w d" by blast
    then show ?thesis
    proof cases
      case 1
      then show ?thesis using Inr p by (simp add: series_integrate_early(2))
    next
      case 2
      then show ?thesis using Inr p by (simp add: series_integrate_early(3))
    qed
  next
    case False
    then have r: "resolve_files w s (dst a) = Inr (fs, d)" "fs \<noteq> []" "overwrite a \<or> \<not> exists_path w d"
      using Inr p by auto
    let ?w2 = "before_frames a (length fs) w"
    show ?thesis
    proof (cases "resolve_px_size (DETECTER_PX_SIZES e) (detecter a) (px_size a)")
      case (Inl err')
      then show ?thesis by (simp add: series_integrate_reach [OF r])
    next
      case px: (Inr px)
      show ?thesis
      proof (cases "first_shape ?w2 (hd fs)")
        case (Inl err')
        then show ?thesis by (simp add: series_integrate_reach [OF r] px)
      next
        case hw: (Inr hw)
        show ?thesis
        proof (cases "resolve_mask ?w2 (mask_arg a) (mask_src a) hw")
          case (Inl err')
          then show ?thesis by (simp add: series_integrate_reach [OF r] px hw)
        next
          case m: (Inr m)
          obtain res w3 where l: "integrate_frames hw (flip_arg a) m (center a) (verbose a) fs
                  ([], [], [''q[nm^-1]'']) ?w2 = (res, w3)"
            by (cases "integrate_frames hw (flip_arg a) m (center a) (verbose a) fs
                  ([], [], [''q[nm^-1]'']) ?w2")
          have w3: "files w3 = files w"
            using integrate_frames_files [of hw "flip_arg a" m "center a" "verbose a" fs
                "([], [], [''q[nm^-1]''])" ?w2] l by simp
          show ?thesis
          proof (cases res)
            case (Inl err')
            then show ?thesis by (simp add: series_integrate_reach [OF r] px hw m l w3)
          next
            case (Inr x)
            then show ?thesis using assms by (simp add: series_integrate_reach [OF r] px hw m l)
          qed
        qed
      qed
    qed
  qed
qed

lemma series_integrate_success:
  assumes "series_integrate e s a w = (Inr d, w')"
  shows "\<exists>fs px hw m res w3.
           resolve_files w s (dst a) = Inr (fs, d) \<and> fs \<noteq> [] \<and> (overwrite a \<or> \<not> exists_path w d)
         \<and> resolve_px_size (DETECTER_PX_SIZES e) (detecter a) (px_size a) = Inr px
         \<and> first_shape w (hd fs) = Inr hw
         \<and> resolve_mask w (mask_arg a) (mask_src a) hw = Inr m
         \<and> integrate_frames hw (flip_arg a) m (center a) (verbose a) fs
               ([], [], [''q[nm^-1]'']) (before_frames a (length fs) w) = (Inr res, w3)
         \<and> w' = write_results e a d
                  (resolve_calibration (camera_length a) (wave_length a) (slope a) (intercept a))
                  px res w3"
proof (cases "resolve_files w s (dst a)")
  case (Inl err')
  then show ?thesis using assms by (simp add: series_integrate_early(1))
next
  case (Inr p)
  obtain fs d0 where p: "p = (fs, d0)" by (cases p)
  show ?thesis
  proof (cases "fs = [] \<or> (\<not> overwrite a \<and> exists_path w d0)")
    case True
    then consider "fs = []" | "fs \<noteq> []" "\<not> overwrite a" "exists_path w d0" by blast
    then show ?thesis
    proof cases
      case 1
      then show ?thesis using Inr p assms by (simp add: series_integrate_early(2))
    next
      case 2
      then show ?thesis using Inr p assms by (simp add: series_integrate_early(3))
    qed
  next
    case False
    then have r: "resolve_files w s (dst a) = Inr (fs, d0)" "fs \<noteq> []" "overwrite a \<or> \<not> exists_path w d0"
      using Inr p by auto
    let ?w2 = "before_frames a (length fs) w"
    have f2: "files ?w2 = files w" by simp
    show ?thesis
    proof (cases "resolve_px_size (DETECTER_PX_SIZES e) (detecter a) (px_size a)")
      case (Inl err')
      then show ?thesis using assms by (simp add: series_integrate_reach [OF r])
    next
      case px: (Inr px)
      show ?thesis
      proof (cases "first_shape ?w2 (hd fs)")
        case (Inl err')
        then show ?thesis using assms by (simp add: series_integrate_reach [OF r] px)
      next
        case hw: (Inr hw)
        show ?thesis
        proof (cases "resolve_mask ?w2 (mask_arg a) (mask_src a) hw")
          case (Inl err')
          then show ?thesis using assms by (simp add: series_integrate_reach [OF r] px hw)
        next
          case m: (Inr m)
          obtain res w3 where l: "integrate_frames hw (flip_arg a) m (center a) (verbose a) fs
                  ([], [], [''q[nm^-1]'']) ?w2 = (res, w3)"
            by (cases "integrate_frames hw (flip_arg a) m (center a) (verbose a) fs
                  ([], [], [''q[nm^-1]'']) ?w2")
          show ?thesis
          proof (cases res)
            case (Inl err')
            then show ?thesis using assms by (simp add: series_integrate_reach [OF r] px hw m l)
          next
            case (Inr x)
            then have d: "d0 = d" and w': "w' = write_results e a d
                  (resolve_calibration (camera_length a) (wave_length a) (slope a) (intercept a))
                  px x w3"
              using assms by (auto simp: series_integrate_reach [OF r] px hw m l)
            have c1: "resolve_files w s (dst a) = Inr (fs, d)" using r(1) d by simp
            have c3: "overwrite a \<or> \<not> exists_path w d" using r(3) d by simp
            have c5: "first_shape w (hd fs) = Inr hw"
              using hw first_shape_files [OF f2] by simp
            have c6: "resolve_mask w (mask_arg a) (mask_src a) hw = Inr m"
              using m resolve_mask_files [OF f2] by simp
            have c7: "integrate_frames hw (flip_arg a) m (center a) (verbose a) fs
                  ([], [], [''q[nm^-1]'']) ?w2 = (Inr x, w3)"
              using l Inr by simp
            show ?thesis
            proof (intro exI conjI)
              show "resolve_files w s (dst a) = Inr (fs, d)" by (fact c1)
              show "fs \<noteq> []" by (fact r(2))
              show "overwrite a \<or> \<not> exists_path w d" by (fact c3)
              show "resolve_px_size (DETECTER_PX_SIZES e) (detecter a) (px_size a) = Inr px" by (fact px)
              show "first_shape w (hd fs) = Inr hw" by (fact c5)
              show "resolve_mask w (mask_arg a) (mask_src a) hw = Inr m" by (fact c6)
              show "integrate_frames hw (flip_arg a) m (center a) (verbose a) fs
                  ([], [], [''q[nm^-1]'']) ?w2 = (Inr x, w3)" by (fact c7)
              show "w' = write_results e a d
                  (resolve_calibration (camera_length a) (wave_length a) (slope a) (intercept a))
                  px x w3" by (fact w')
            qed
          qed
        qed
      qed
    qed
  qed
qed

subsection \<open>Frames of the right and of the wrong shape\<close>

lemma rect_row_lengths: "rect a \<longleftrightarrow> map length a = replicate (length a) (width a)"
  by (auto simp: rect_def list_all_iff map_replicate_const [symmetric] intro!: map_cong
      dest!: map_eq_conv [THEN iffD1])

lemma shape_of_row_lengths:
  assumes "map length x = replicate n k"
  shows "shape x = (n, if n = 0 then 0 else k)"
proof -
  have n: "length x = n" using assms by (metis length_map length_replicate)
  show ?thesis
  proof (cases n)
    case 0
    then show ?thesis using n by (simp add: shape_def height_def width_def)
  next
    case (Suc n')
    then show ?thesis using assms n
      by (simp add: shape_def height_def width_map_length)
  qed
qed

lemma apply_flip_shape:
  assumes "rect a"
  shows "shape (apply_flip f (map (map g) a)) = shape a"
proof -
  have r: "map length a = replicate (length a) (width a)"
    using assms by (simp add: rect_row_lengths)
  have "map length (apply_flip f (map (map g) a)) = replicate (length a) (width a)"
    using r by (simp add: apply_flip_def Let_def comp_def rev_map [symmetric])
  from shape_of_row_lengths [OF this] shape_of_row_lengths [OF r]
  show ?thesis by simp
qed

lemma radial_average_succeeds:
  "0 < width img \<Longrightarrow> 0 < height img \<Longrightarrow> \<exists>r i. radial_average img cx cy thr = Inr (r, i)"
  by (simp add: radial_average_result)

lemma average_frame_succeeds:
  assumes "shape img = hw" and "0 < fst hw" and "0 < snd hw" and "mask_fits m hw"
  shows "\<exists>r i. average_frame m c img = Inr (r, i)"
proof (cases m)
  case None
  then show ?thesis
    using assms radial_average_succeeds [of img] by (auto simp: average_frame_def shape_def)
next
  case (Some msk)
  then have s: "shape msk = shape img" using assms(1,4) by (simp add: mask_fits_def)
  have "0 < width (mul2 img msk)" "0 < height (mul2 img msk)"
    using mul2_shape [OF s] assms(1-3) by (auto simp: shape_def)
  then show ?thesis
    using Some radial_average_succeeds [of "mul2 img msk"]
    by (simp add: average_frame_def mask_and_average_def)
qed

lemma process_frame_ok:
  assumes "frame_ok w hw g" and "0 < fst hw" and "0 < snd hw" and "mask_fits m hw"
  shows "\<exists>r i. process_frame w hw f m c g = Inr (r, i)"
proof -
  from assms(1) obtain a where a: "files w g = Some (Raster a)" "rect a" "shape a = hw"
    by (auto simp: frame_ok_def split: option.splits content.splits)
  have "shape (apply_flip f (map (map of_int) a)) = hw"
    using apply_flip_shape [OF a(2)] a(3) by simp
  from average_frame_succeeds [OF this assms(2-4)]
  show ?thesis using a by (simp add: process_frame_def)
qed

lemma process_frame_mismatch:
  "frame_mismatch w hw g \<Longrightarrow> process_frame w hw f m c g = Inl (ShapeMismatch g)"
  by (auto simp: frame_mismatch_def process_frame_def split: option.splits content.splits)

lemma frame_ok_files: "files w' = files w \<Longrightarrow> frame_ok w' hw g = frame_ok w hw g"
  by (simp add: frame_ok_def)

lemma frame_mismatch_files: "files w' = files w \<Longrightarrow> frame_mismatch w' hw g = frame_mismatch w hw g"
  by (simp add: frame_mismatch_def)

lemma integrate_frames_mismatch:
  assumes "list_all (frame_ok w hw) pre" and "frame_mismatch w hw g"
    and "0 < fst hw" and "0 < snd hw" and "mask_fits m hw"
  shows "fst (integrate_frames hw f m c vb (pre @ g # post) acc w) = Inl (ShapeMismatch g)"
  using assms(1,2)
proof (induction pre arbitrary: acc w)
  case Nil
  then show ?case by (simp add: process_frame_mismatch)
next
  case (Cons p pre)
  then have ok: "frame_ok w hw p" by simp
  obtain r i where ri: "process_frame w hw f m c p = Inr (r, i)"
    using process_frame_ok [OF ok assms(3-5)] by blast
  let ?w = "if vb then log_event BarUpdate w else w"
  have fw: "files ?w = files w" by simp
  have "list_all (frame_ok ?w hw) pre" "frame_mismatch ?w hw g"
    using Cons.prems frame_ok_files [OF fw] frame_mismatch_files [OF fw]
    by (simp_all add: list_all_iff)
  from Cons.IH [OF this] show ?case by (simp add: ri)
qed

lemma shape_map_map: "shape (map (map g) a) = shape a"
  by (cases a) (simp_all add: shape_def height_def width_def)

lemma resolve_mask_fits:
  assumes "resolve_mask w ma msrc hw = Inr m"
  shows "mask_fits m hw"
  using assms
  by (auto simp: resolve_mask_def mask_fits_def shape_map_map split: if_splits sum.splits)

subsection \<open>The calibration and what is written\<close>

lemma set_first_header_Cons:
  "set_first_header cal (h # t) =
     (if cal = ''geometry'' \<or> cal = ''linear_regression'' then h else ''r[mm]'') # t"
  by (simp add: set_first_header_def)

lemma resolve_calibration_cases:
  "resolve_calibration cl wl sl ic = ''geometry'' \<longleftrightarrow> fl_pos cl \<and> fl_pos wl"
  "resolve_calibration cl wl sl ic = ''linear_regression''
     \<longleftrightarrow> \<not> (fl_pos cl \<and> fl_pos wl) \<and> \<not> isnan sl \<and> \<not> isnan ic"
  "resolve_calibration cl wl sl ic = ''none''
     \<longleftrightarrow> \<not> (fl_pos cl \<and> fl_pos wl) \<and> (isnan sl \<or> isnan ic)"
  by (auto simp: resolve_calibration_def)

lemma warnings_before_frames:
  "filter is_warning (trace (before_frames a n w))
     = filter is_warning (trace w)
       @ (if resolve_calibration (camera_length a) (wave_length a) (slope a) (intercept a) = ''none''
          then [Warning ''no valid calibration parameter given''] else [])"
  by (simp add: before_frames_def Let_def is_warning_def)

subsection \<open>The radii and the intensities of the table\<close>

lemma process_frame_radii_pos:
  assumes "process_frame w hw f m c g = Inr (r, i)"
  shows "r \<noteq> []" and "\<forall>v\<in>set r. 0 < v"
proof -
  from assms obtain img where "radial_average img (fst c) (snd c) 2 = Inr (r, i)"
    by (auto simp: process_frame_def average_frame_def mask_and_average_def
        split: option.splits content.splits if_splits)
  from radial_average_radii_pos [OF this]
  show "r \<noteq> []" and "\<forall>v\<in>set r. 0 < v" by simp_all
qed

lemma process_frame_radii:
  assumes "frame_ok w hw g" and "mask_fits m hw" and "process_frame w hw f m c g = Inr (r, i)"
  shows "r = map (\<lambda>k. of_int (min_r (snd hw) (fst hw) (fst c) (snd c)) + 1 / 2 + of_nat k)
               [0..<r_range (snd hw) (fst hw) (fst c) (snd c)]"
proof -
  from assms(1) obtain a where a: "files w g = Some (Raster a)" "rect a" "shape a = hw"
    by (auto simp: frame_ok_def split: option.splits content.splits)
  let ?img = "apply_flip f (map (map of_int) a) :: rat array2"
  have sh: "shape ?img = hw"
    using apply_flip_shape [OF a(2)] a(3) by simp
  have hw: "snd hw = width ?img" "fst hw = height ?img"
    using sh by (auto simp: shape_def)
  have av: "average_frame m c ?img = Inr (r, i)"
    using assms(3) a by (simp add: process_frame_def)
  show ?thesis
  proof (cases m)
    case None
    then have "radial_average ?img (fst c) (snd c) 2 = Inr (r, i)"
      using av by (simp add: average_frame_def)
    from radial_average_radii(3) [OF this] show ?thesis
      by (simp only: hw)
  next
    case (Some msk)
    then have s: "shape msk = shape ?img" using assms(2) sh by (simp add: mask_fits_def)
    have "radial_average (mul2 ?img msk) (fst c) (snd c) 2 = Inr (r, i)"
      using av Some by (simp add: average_frame_def mask_and_average_def)
    from radial_average_radii(3) [OF this] show ?thesis
      by (simp only: hw mul2_shape [OF s])
  qed
qed

lemma integrate_frames_profiles:
  assumes "integrate_frames hw f m c vb fs acc w = (Inr res, w')"
  shows "\<exists>is. fst (snd res) = fst (snd acc) @ is
            \<and> list_all2 (\<lambda>g i. \<exists>r. process_frame w hw f m c g = Inr (r, i)) fs is
            \<and> (fs \<noteq> [] \<longrightarrow> process_frame w hw f m c (last fs) = Inr (fst res, last is))"
  using assms
proof (induction fs arbitrary: acc w)
  case Nil
  then show ?case by auto
next
  case (Cons fname rest)
  show ?case
  proof (cases "process_frame w hw f m c fname")
    case (Inl err)
    then show ?thesis using Cons.prems by simp
  next
    case (Inr ri)
    obtain r i where ri: "ri = (r, i)" by (cases ri)
    let ?w = "if vb then log_event BarUpdate w else w"
    have pf: "process_frame ?w hw f m c g = process_frame w hw f m c g" for g
      by simp
    have run: "integrate_frames hw f m c vb rest
            (r, fst (snd acc) @ [i], snd (snd acc) @ [basename fname]) ?w = (Inr res, w')"
      using Cons.prems Inr ri by simp
    from Cons.IH [OF run] obtain js where
      js: "fst (snd res) = (fst (snd acc) @ [i]) @ js"
        "list_all2 (\<lambda>g i. \<exists>r. process_frame w hw f m c g = Inr (r, i)) rest js"
        "rest \<noteq> [] \<longrightarrow> process_frame w hw f m c (last rest) = Inr (fst res, last js)"
      unfolding pf by auto
    have len: "length rest = length js" using js(2) by (rule list_all2_lengthD)
    show ?thesis
    proof (intro exI [of _ "i # js"] conjI impI)
      show "fst (snd res) = fst (snd acc) @ i # js" using js(1) by simp
      show "list_all2 (\<lambda>g i. \<exists>r. process_frame w hw f m c g = Inr (r, i)) (fname # rest) (i # js)"
        using js(2) Inr ri by simp
      show "process_frame w hw f m c (last (fname # rest)) = Inr (fst res, last (i # js))"
      proof (cases rest)
        case Nil
        then have "res = (r, fst (snd acc) @ [i], snd (snd acc) @ [basename fname])"
          using run by simp
        then show ?thesis using Nil len Inr ri by simp
      next
        case (Cons g gs)
        then have "js \<noteq> []" using len by auto
        then show ?thesis using js(3) Cons by simp
      qed
    qed
  qed
qed

lemma q_column_linear_warnings:
  assumes "r \<noteq> []" and "\<forall>v\<in>set r. 0 < v"
  shows "snd (q_column e ''linear_regression'' a px r)
           = (if (slope a = PInf \<and> intercept a = NInf) \<or> (slope a = NInf \<and> intercept a = PInf)
              then [Warning ''invalid value encountered in add''] else [])"
proof -
  obtain v where v: "v \<in> set r" "0 < v" using assms by (cases r) auto
  have pos: "x \<in> set r \<Longrightarrow> 0 < x \<and> x \<noteq> 0" for x using assms(2) by auto
  have m: "\<not> list_ex (\<lambda>v. invalid_mul (slope a) (Fin v)) r"
    using pos by (cases "slope a") (auto simp: list_ex_iff invalid_mul_def isnan_def)
  have ad: "list_ex (invalid_add (intercept a)) (map (\<lambda>v. fl_mul (slope a) (Fin v)) r)
            \<longleftrightarrow> (slope a = PInf \<and> intercept a = NInf) \<or> (slope a = NInf \<and> intercept a = PInf)"
  proof
    assume "list_ex (invalid_add (intercept a)) (map (\<lambda>v. fl_mul (slope a) (Fin v)) r)"
    then obtain x where "x \<in> set r" "invalid_add (intercept a) (fl_mul (slope a) (Fin x))"
      by (auto simp: list_ex_iff)
    then show "(slope a = PInf \<and> intercept a = NInf) \<or> (slope a = NInf \<and> intercept a = PInf)"
      using pos [of x]
      by (cases "slope a"; cases "intercept a") (auto simp: invalid_add_def isnan_def split: if_splits)
  next
    assume "(slope a = PInf \<and> intercept a = NInf) \<or> (slope a = NInf \<and> intercept a = PInf)"
    then have "invalid_add (intercept a) (fl_mul (slope a) (Fin v))"
      using v(2) by (auto simp: invalid_add_def isnan_def)
    then show "list_ex (invalid_add (intercept a)) (map (\<lambda>v. fl_mul (slope a) (Fin v)) r)"
      using v(1) by (auto simp: list_ex_iff)
  qed
  show ?thesis
    using m ad by (simp add: q_column_def Let_def warn_if_def)
qed

lemma q_column_none_warnings:
  assumes "\<forall>v\<in>set r. 0 < v" and "\<not> isnan px"
    and "cal \<noteq> ''geometry''" and "cal \<noteq> ''linear_regression''"
  shows "snd (q_column e cal a px r) = []"
proof -
  have "\<not> list_ex (\<lambda>v. invalid_mul (Fin v) px) r"
    using assms(1,2) by (cases px) (auto simp: list_ex_iff invalid_mul_def isnan_def)
  then show ?thesis using assms(3,4) by (simp add: q_column_def warn_if_def)
qed

lemma count_list_warning:
  "count_list (filter is_warning evs) (Warning msg) = count_list evs (Warning msg)"
  by (induction evs) (simp_all add: is_warning_def)

lemma resolve_px_size_not_nan:
  "resolve_px_size table det px = Inr v \<Longrightarrow> \<not> isnan v"
  by (auto simp: resolve_px_size_def isnan_def split: option.splits if_splits)

subsection \<open>Where the errors come from\<close>

lemma first_shape_error: "first_shape w g = Inl err \<Longrightarrow> \<not> px_error err"
  by (auto simp: first_shape_def px_error_def split: option.splits content.splits)

lemma readmask_error: "readmask w p = Inl err \<Longrightarrow> \<not> px_error err"
  by (auto simp: readmask_def px_error_def split: option.splits content.splits if_splits)

lemma resolve_mask_error: "resolve_mask w m msrc hw = Inl err \<Longrightarrow> \<not> px_error err"
  by (auto simp: resolve_mask_def px_error_def split: if_splits sum.splits dest: readmask_error)

lemma radial_average_error: "radial_average img cx cy thr = Inl err \<Longrightarrow> err = ZeroSizeArray"
  by (auto simp: radial_average_def Let_def split: if_splits prod.splits)

lemma process_frame_error: "process_frame w hw f m c g = Inl err \<Longrightarrow> \<not> px_error err"
  by (auto simp: process_frame_def average_frame_def mask_and_average_def px_error_def
      split: option.splits content.splits if_splits dest!: radial_average_error)

lemma integrate_frames_error:
  "fst (integrate_frames hw f m c vb fs acc w) = Inl err \<Longrightarrow> \<not> px_error err"
proof (induction fs arbitrary: acc w)
  case Nil
  then show ?case by simp
next
  case (Cons g rest)
  show ?case
  proof (cases "process_frame w hw f m c g")
    case (Inl err')
    then show ?thesis using Cons.prems process_frame_error by fastforce
  next
    case (Inr ri)
    then show ?thesis using Cons by (cases ri) simp
  qed
qed

lemma series_integrate_px:
  assumes "resolve_files w s (dst a) = Inr (fs, d)" and "fs \<noteq> []"
    and "overwrite a \<or> \<not> exists_path w d"
  shows "resolve_px_size (DETECTER_PX_SIZES e) (detecter a) (px_size a) = Inl err
           \<Longrightarrow> fst (series_integrate e s a w) = Inl err"
    and "resolve_px_size (DETECTER_PX_SIZES e) (detecter a) (px_size a) = Inr px
           \<Longrightarrow> fst (series_integrate e s a w) = Inl err \<Longrightarrow> \<not> px_error err"
    and "resolve_px_size (DETECTER_PX_SIZES e) (detecter a) (px_size a) = Inr px
           \<Longrightarrow> fst (series_integrate e s a w) = Inr d'
           \<Longrightarrow> files (snd (series_integrate e s a w)) (paramfile d)
                 = Some (JsonFile (make_params a
                     (resolve_calibration (camera_length a) (wave_length a) (slope a) (intercept a)) px))"
proof -
  show "resolve_px_size (DETECTER_PX_SIZES e) (detecter a) (px_size a) = Inl err
           \<Longrightarrow> fst (series_integrate e s a w) = Inl err"
    by (simp add: series_integrate_reach [OF assms])
  let ?w2 = "before_frames a (length fs) w"
  {
    assume px: "resolve_px_size (DETECTER_PX_SIZES e) (detecter a) (px_size a) = Inr px"
    {
      assume f: "fst (series_integrate e s a w) = Inl err"
      show "\<not> px_error err"
      proof (cases "first_shape ?w2 (hd fs)")
        case (Inl err')
        then show ?thesis using f first_shape_error [OF Inl]
          by (simp add: series_integrate_reach [OF assms] px)
      next
        case hw: (Inr hw)
        show ?thesis
        proof (cases "resolve_mask ?w2 (mask_arg a) (mask_src a) hw")
          case (Inl err')
          then show ?thesis using f resolve_mask_error [OF Inl]
            by (simp add: series_integrate_reach [OF assms] px hw)
        next
          case m: (Inr m)
          obtain res w3 where l: "integrate_frames hw (flip_arg a) m (center a) (verbose a) fs
                  ([], [], [''q[nm^-1]'']) ?w2 = (res, w3)"
            by (cases "integrate_frames hw (flip_arg a) m (center a) (verbose a) fs
                  ([], [], [''q[nm^-1]'']) ?w2")
          show ?thesis
          proof (cases res)
            case (Inl err')
            then have "\<not> px_error err'"
              using integrate_frames_error [of hw "flip_arg a" m "center a" "verbose a" fs
                  "([], [], [''q[nm^-1]''])" ?w2 err'] l by simp
            then show ?thesis using f Inl
              by (simp add: series_integrate_reach [OF assms] px hw m l)
          next
            case (Inr x)
            then show ?thesis using f
              by (simp add: series_integrate_reach [OF assms] px hw m l)
          qed
        qed
      qed
    }
    {
      assume f: "fst (series_integrate e s a w) = Inr d'"
      obtain w' where run: "series_integrate e s a w = (Inr d', w')"
        using f by (metis prod.collapse)
      from series_integrate_success [OF run] obtain px' res w3 where
        r': "resolve_files w s (dst a) = Inr (fs, d) \<and> d' = d"
        and px': "resolve_px_size (DETECTER_PX_SIZES e) (detecter a) (px_size a) = Inr px'"
        and w': "w' = write_results e a d'
                  (resolve_calibration (camera_length a) (wave_length a) (slope a) (intercept a))
                  px' res w3"
        using assms(1) by auto
      have "px' = px" using px px' by simp
      then show "files (snd (series_integrate e s a w)) (paramfile d)
                 = Some (JsonFile (make_params a
                     (resolve_calibration (camera_length a) (wave_length a) (slope a) (intercept a)) px))"
        using r' by (simp add: run w' files_write_results)
    }
  }
qed

subsection \<open>One file\<close>

lemma file_integrate_world:
  "snd (file_integrate e f a w) = snd (series_integrate e (Path f) (a\<lparr>verbose := False\<rparr>) w)"
  by (simp add: file_integrate_def split: prod.splits sum.splits)

lemma file_integrate_value: "fst (file_integrate e f a w) \<noteq> Inr (Some d)"
  by (simp add: file_integrate_def split: prod.splits sum.splits)

section \<open>The claims\<close>

subsection \<open>C1: radius bins of the kernel\<close>

text \<open>
  A 9-row, 7-column image with the beam centre at \<open>(3, 4)\<close>, strictly inside it.
  The corner pixels are at distance exactly 5 and the centre pixel at distance 0.
\<close>

lemma bins_example_run: "radial_average (replicate 9 (replicate 7 10)) 3 4 2
     = Inr ([1/2, 3/2, 5/2, 7/2, 9/2, 11/2, 13/2], [10, 10, 10, 10, 10, 10, 0])"
  by code_simp

lemma bins_example_max: "max_distance 7 9 3 4 = 5"
proof -
  have "list_all (\<lambda>(x, y). dist_sq 3 4 x y \<le> 5\<^sup>2) (pixels 7 9)" by code_simp
  moreover have "dist_sq 3 4 0 0 = 5\<^sup>2" by code_simp
  ultimately have "max_distance 7 9 3 4 = real_of_rat 5"
    by (intro max_distance_eqI [where ?x0.0 = 0 and ?y0.0 = 0]) simp_all
  then show ?thesis by simp
qed

lemma bins_example_min: "min_distance 7 9 3 4 = 0"
proof -
  have "list_all (\<lambda>(x, y). 0\<^sup>2 \<le> dist_sq 3 4 x y) (pixels 7 9)" by code_simp
  moreover have "dist_sq 3 4 3 4 = 0\<^sup>2" by code_simp
  ultimately have "min_distance 7 9 3 4 = real_of_rat 0"
    by (intro min_distance_eqI [where ?x0.0 = 3 and ?y0.0 = 4]) simp_all
  then show ?thesis by simp
qed

text \<open>
  C1, as stated, fails: on the image above the kernel returns seven bins, the last one
  empty, while \<open>ceil(max_distance) - floor(min_distance) + 1\<close> is six.  The code
  computes \<open>max_r = int(r_mesh.max()) + 1\<close>, which is one more than the ceiling
  whenever the largest distance is a whole number.
\<close>

theorem radial_average_bins_counterexample:
  "radial_average (replicate 9 (replicate 7 10)) 3 4 2
     = Inr ([1/2, 3/2, 5/2, 7/2, 9/2, 11/2, 13/2], [10, 10, 10, 10, 10, 10, 0])
   \<and> \<lceil>max_distance 7 9 3 4\<rceil> - \<lfloor>min_distance 7 9 3 4\<rfloor> + 1 = 6"
  using bins_example_run bins_example_max bins_example_min by simp

text \<open>
  C1, amended: for every non-empty image and every beam centre (in particular one
  strictly inside the image), \<open>_radial_average\<close> returns radii and intensities of
  the same length; the radii are \<open>floor(min_distance) + 0.5 + k\<close> for
  \<open>k = 0, 1, ...\<close>, strictly increasing; and their number is
  \<open>floor(max_distance) - floor(min_distance) + 2\<close>, which is
  \<open>ceil(max_distance) - floor(min_distance) + 1\<close> exactly when the largest distance
  is not a whole number, and one more when it is.  The distances are taken over the
  whole image; neither the pixel values nor the threshold enter.
\<close>

theorem radial_average_bins:
  assumes "0 < width img" and "0 < height img"
  shows "\<exists>r i. radial_average img cx cy threshold = Inr (r, i)
     \<and> int (length r) = \<lfloor>max_distance (width img) (height img) cx cy\<rfloor>
                         - \<lfloor>min_distance (width img) (height img) cx cy\<rfloor> + 2
     \<and> int (length r) = \<lceil>max_distance (width img) (height img) cx cy\<rceil>
                         - \<lfloor>min_distance (width img) (height img) cx cy\<rfloor>
                         + (if max_distance (width img) (height img) cx cy \<in> \<int> then 2 else 1)
     \<and> length i = length r
     \<and> r = map (\<lambda>k. of_int \<lfloor>min_distance (width img) (height img) cx cy\<rfloor> + 1 / 2 + of_nat k)
               [0..<length r]
     \<and> sorted_wrt (<) r"
proof -
  let ?w = "width img" and ?h = "height img"
  let ?M = "max_distance ?w ?h cx cy"
  let ?r = "map (\<lambda>k. rat_of_int (min_r ?w ?h cx cy) + 1 / 2 + of_nat k) [0..<r_range ?w ?h cx cy]"
  let ?i = "map2 bin_mean (fst (accumulate img cx cy threshold)) (snd (accumulate img cx cy threshold))"
  have res: "radial_average img cx cy threshold = Inr (?r, ?i)"
    by (rule radial_average_result [OF assms])
  have len: "int (length ?r) = \<lfloor>?M\<rfloor> - \<lfloor>min_distance ?w ?h cx cy\<rfloor> + 2"
    by (simp add: r_range_eq [OF assms])
  have ceil: "\<lceil>?M\<rceil> + (if ?M \<in> \<int> then 2 else 1) = \<lfloor>?M\<rfloor> + 2"
  proof (cases "?M \<in> \<int>")
    case True
    then show ?thesis by (auto elim!: Ints_cases)
  next
    case False
    then have "\<lceil>?M\<rceil> = \<lfloor>?M\<rfloor> + 1" by (simp add: ceiling_altdef Ints_def) (metis range_eqI)
    then show ?thesis using False by simp
  qed
  have len2: "int (length ?r) = \<lceil>?M\<rceil> - \<lfloor>min_distance ?w ?h cx cy\<rfloor> + (if ?M \<in> \<int> then 2 else 1)"
    using len ceil by linarith
  have leni: "length ?i = length ?r" by (simp add: accumulate_length)
  have grid: "?r = map (\<lambda>k. of_int \<lfloor>min_distance ?w ?h cx cy\<rfloor> + 1 / 2 + of_nat k) [0..<length ?r]"
    by (simp add: min_r_floor [OF assms])
  have srt: "sorted_wrt (<) ?r" by (rule sorted_half_grid)
  show ?thesis using res len len2 leni grid srt by blast
qed

theorem radial_average_bins_witness:
  "0 < width [[10, 10, 10], [10, 10, 10], [10, 10, 10::rat]]
   \<and> 0 < height [[10, 10, 10], [10, 10, 10], [10, 10, 10::rat]]
   \<and> (\<exists>r i. radial_average [[10, 10, 10], [10, 10, 10], [10, 10, 10]] 1 1 2 = Inr (r, i)
        \<and> int (length r) = \<lfloor>max_distance 3 3 1 1\<rfloor> - \<lfloor>min_distance 3 3 1 1\<rfloor> + 2
        \<and> sorted_wrt (<) r)"
proof -
  have w: "width [[10, 10, 10], [10, 10, 10], [10, 10, 10::rat]] = 3" by (simp add: width_def)
  have h: "height [[10, 10, 10], [10, 10, 10], [10, 10, 10::rat]] = 3" by (simp add: height_def)
  show ?thesis
    using radial_average_bins [of "[[10, 10, 10], [10, 10, 10], [10, 10, 10]]" 1 1 2]
    unfolding w h by auto
qed

subsection \<open>C2: which pixels contribute\<close>

text \<open>
  C2, as stated for every threshold and every mask, fails in two ways, because
  \<open>_mask_and_average\<close> multiplies the image by the mask and leaves the exclusion
  to the threshold test.  With threshold 0, a pixel of value 5 under mask value 0
  becomes 0, passes \<open>0 >= 0\<close> and is counted.  With the default threshold 2, a pixel
  of value 1 under mask value 2 becomes 2 and is counted, although its intensity is
  below the threshold.
\<close>

theorem mask_and_threshold_counterexample:
  "fst (accumulate (mul2 [[5]] [[0]]) 0 0 0) ! 0 = 1
   \<and> length (filter (contributes [[5]] [[0]] 0) (bin_pixels 1 1 0 0 0)) = 0
   \<and> fst (accumulate (mul2 [[1]] [[2]]) 0 0 2) ! 0 = 1
   \<and> length (filter (contributes [[1]] [[2]] 2) (bin_pixels 1 1 0 0 0)) = 0"
  by code_simp

text \<open>
  C2, amended: for a positive threshold and a binary (0/1) mask of the shape of the
  image, the count of a bin after the loops of \<open>_mask_and_average\<close> is the number
  of its pixels whose mask value is non-zero and whose intensity is \<open>>= threshold\<close>,
  and the sum of the bin is the sum of the intensities of exactly those pixels.
  Without a mask (\<open>_radial_average\<close>), for every threshold, the count and the sum
  of a bin are those of its pixels with intensity \<open>>= threshold\<close>.
\<close>

theorem mask_and_threshold:
  assumes "rect img" and "rect msk" and "shape msk = shape img" and "binary msk" and "0 < thr"
    and "k < r_range (width img) (height img) cx cy"
  shows "fst (accumulate (mul2 img msk) cx cy thr) ! k
           = length (filter (contributes img msk thr) (bin_pixels (width img) (height img) cx cy k))
       \<and> snd (accumulate (mul2 img msk) cx cy thr) ! k
           = sum_list (map (pixel_value img)
               (filter (contributes img msk thr) (bin_pixels (width img) (height img) cx cy k)))
       \<and> fst (accumulate img cx cy thr') ! k
           = length (filter (passes img thr') (bin_pixels (width img) (height img) cx cy k))
       \<and> snd (accumulate img cx cy thr') ! k
           = sum_list (map (pixel_value img)
               (filter (passes img thr') (bin_pixels (width img) (height img) cx cy k)))"
proof -
  let ?bp = "bin_pixels (width img) (height img) cx cy k"
  have sh: "width (mul2 img msk) = width img" "height (mul2 img msk) = height img"
    using mul2_shape [OF assms(3)] by simp_all
  have inp: "p \<in> set (pixels (width img) (height img))" if "p \<in> set ?bp" for p
    using that bin_pixels_subset by blast
  have f: "filter (passes (mul2 img msk) thr) ?bp = filter (contributes img msk thr) ?bp"
    by (rule filter_cong [OF refl]) (simp add: masked_pixel(1) [OF assms(1-5) inp])
  have m: "map (pixel_value (mul2 img msk)) (filter (contributes img msk thr) ?bp)
             = map (pixel_value img) (filter (contributes img msk thr) ?bp)"
    by (rule map_cong [OF refl]) (simp add: masked_pixel(2) [OF assms(1-5) inp])
  have k': "k < r_range (width (mul2 img msk)) (height (mul2 img msk)) cx cy"
    using assms(6) by (simp add: sh)
  have 1: "fst (accumulate (mul2 img msk) cx cy thr) ! k = length (filter (contributes img msk thr) ?bp)"
    using accumulate_nth(1) [OF k', of thr] by (simp add: sh f)
  have 2: "snd (accumulate (mul2 img msk) cx cy thr) ! k
             = sum_list (map (pixel_value img) (filter (contributes img msk thr) ?bp))"
    using accumulate_nth(2) [OF k', of thr] by (simp add: sh f m)
  show ?thesis
    using 1 2 accumulate_nth(1) [OF assms(6), of thr'] accumulate_nth(2) [OF assms(6), of thr']
    by simp
qed

theorem mask_and_threshold_witness:
  "rect [[10, 1], [10, 10::rat]] \<and> rect [[1, 1], [0, 1::rat]]
   \<and> shape [[1, 1], [0, 1::rat]] = shape [[10, 1], [10, 10::rat]]
   \<and> binary [[1, 1], [0, 1]] \<and> (0::rat) < 2
   \<and> 1 < r_range (width [[10, 1], [10, 10::rat]]) (height [[10, 1], [10, 10::rat]]) 0 0
   \<and> fst (accumulate (mul2 [[10, 1], [10, 10]] [[1, 1], [0, 1]]) 0 0 2) ! 1 = 1
   \<and> snd (accumulate (mul2 [[10, 1], [10, 10]] [[1, 1], [0, 1]]) 0 0 2) ! 1 = 10
   \<and> length (bin_pixels 2 2 0 0 1) = 3"
proof -
  have h: "rect [[10, 1], [10, 10::rat]]" "rect [[1, 1], [0, 1::rat]]"
    "shape [[1, 1], [0, 1::rat]] = shape [[10, 1], [10, 10::rat]]"
    "binary [[1, 1], [0, 1]]" "(0::rat) < 2"
    "1 < r_range (width [[10, 1], [10, 10::rat]]) (height [[10, 1], [10, 10::rat]]) 0 0"
    by code_simp+
  have e: "length (filter (contributes [[10, 1], [10, 10]] [[1, 1], [0, 1]] 2)
             (bin_pixels (width [[10, 1], [10, 10::rat]]) (height [[10, 1], [10, 10::rat]]) 0 0 1)) = 1"
    "sum_list (map (pixel_value [[10, 1], [10, 10]])
       (filter (contributes [[10, 1], [10, 10]] [[1, 1], [0, 1]] 2)
          (bin_pixels (width [[10, 1], [10, 10::rat]]) (height [[10, 1], [10, 10::rat]]) 0 0 1))) = 10"
    "length (bin_pixels 2 2 0 0 1) = 3"
    by code_simp+
  show ?thesis
    using mask_and_threshold [OF h, of 2] h e by simp
qed

subsection \<open>C3: the calibration mode\<close>

text \<open>
  C3, as stated, fails on the word "finite": the code tests \<open>np.isnan\<close>, so an
  infinite slope is accepted.  With \<open>slope = inf\<close> and \<open>intercept = 0\<close> (and a
  pixel size, no geometry) the run records the calibration type
  \<open>linear_regression\<close> and writes a first column \<open>0 + inf * r\<close>.
\<close>

theorem calibration_mode_counterexample:
  "files (snd (series_integrate env0 (Path ''a.tif'')
                (args0\<lparr>px_size := Fin (1 / 10), slope := PInf, intercept := Fin 0\<rparr>) world0))
     ''a_params.json''
     = Some (JsonFile \<lparr>p_center_x = 0, p_center_y = 0, p_calibration_type = ''linear_regression'',
               p_px_size = Fin (1 / 10), p_camera_length = NaN, p_wave_length = NaN,
               p_slope = PInf, p_intercept = Fin 0, p_flip = ''vertical''\<rparr>)
   \<and> files (snd (series_integrate env0 (Path ''a.tif'')
                (args0\<lparr>px_size := Fin (1 / 10), slope := PInf, intercept := Fin 0\<rparr>) world0))
     ''a.csv''
     = Some (TableFile [''q[nm^-1]'', ''a.tif''] [PInf, PInf] [[10, 0]])
   \<and> \<not> isfinite PInf"
  by code_simp

text \<open>
  An infinite slope and an infinite intercept of opposite signs are accepted as well:
  the sum has no value, the first column is NaN, and numpy issues its warning of an
  invalid value.
\<close>

lemma linear_regression_invalid_sum:
  "files (snd (series_integrate env0 (Path ''a.tif'')
                (args0\<lparr>px_size := Fin (1 / 10), slope := NInf, intercept := PInf\<rparr>) world0))
     ''a.csv''
     = Some (TableFile [''q[nm^-1]'', ''a.tif''] [NaN, NaN] [[10, 0]])
   \<and> filter is_warning
        (trace (snd (series_integrate env0 (Path ''a.tif'')
                (args0\<lparr>px_size := Fin (1 / 10), slope := NInf, intercept := PInf\<rparr>) world0)))
     = [Warning ''invalid value encountered in add'']"
  by code_simp

text \<open>
  C3, amended: in every successful run whose parameter file is not the destination
  itself (\<open>dst.replace(".csv", "_params.json")\<close> differs from \<open>dst\<close>), exactly
  one mode is resolved, recorded in the parameter record and used for the table:
  \<open>geometry\<close> iff \<open>camera_length > 0\<close> and \<open>wave_length > 0\<close> (first column
  \<open>r2q(r, ...)\<close>); otherwise \<open>linear_regression\<close> iff neither \<open>slope\<close> nor
  \<open>intercept\<close> is NaN (first column \<open>intercept + slope * r\<close>); otherwise
  \<open>none\<close>, with first column \<open>r * px_size\<close> and first header \<open>r[mm]\<close>
  instead of \<open>q[nm^-1]\<close>.  The warning that no valid calibration parameter is given
  is issued once in mode \<open>none\<close> and not at all in the other modes, and the run
  succeeds in each.  Here \<open>r\<close> is the list of radii that the kernel returns for the
  last frame (flipped, under the mask that was resolved), which is the half-integer
  grid over the shape of the first frame when that frame is rectangular; the other
  headers are the base names of the files, and the column of each file holds the
  intensities that the kernel returns for it.  In mode \<open>linear_regression\<close> a
  slope and an intercept that are infinite with opposite signs add numpy's warning
  of an invalid sum.
\<close>

theorem calibration_mode:
  assumes "series_integrate e s a w = (Inr d, w')" and "paramfile d \<noteq> d"
  shows "\<exists>fs px hw m r i_all.
      resolve_files w s (dst a) = Inr (fs, d)
    \<and> resolve_px_size (DETECTER_PX_SIZES e) (detecter a) (px_size a) = Inr px
    \<and> first_shape w (hd fs) = Inr hw
    \<and> resolve_mask w (mask_arg a) (mask_src a) hw = Inr m
    \<and> list_all2 (\<lambda>g i. \<exists>r'. process_frame w hw (flip_arg a) m (center a) g = Inr (r', i)) fs i_all
    \<and> process_frame w hw (flip_arg a) m (center a) (last fs) = Inr (r, last i_all)
    \<and> (frame_ok w hw (last fs) \<longrightarrow>
         r = map (\<lambda>k. of_int (min_r (snd hw) (fst hw) (fst (center a)) (snd (center a)))
                        + 1 / 2 + of_nat k)
               [0..<r_range (snd hw) (fst hw) (fst (center a)) (snd (center a))])
    \<and> resolve_calibration (camera_length a) (wave_length a) (slope a) (intercept a)
        = (if fl_pos (camera_length a) \<and> fl_pos (wave_length a) then ''geometry''
           else if \<not> isnan (slope a) \<and> \<not> isnan (intercept a) then ''linear_regression''
           else ''none'')
    \<and> files w' (paramfile d)
        = Some (JsonFile (make_params a
            (resolve_calibration (camera_length a) (wave_length a) (slope a) (intercept a)) px))
    \<and> files w' d
        = Some (TableFile
            ((if fl_pos (camera_length a) \<and> fl_pos (wave_length a) then ''q[nm^-1]''
              else if \<not> isnan (slope a) \<and> \<not> isnan (intercept a) then ''q[nm^-1]''
              else ''r[mm]'') # map basename fs)
            (if fl_pos (camera_length a) \<and> fl_pos (wave_length a)
             then r2q e r (camera_length a) (wave_length a) px
             else if \<not> isnan (slope a) \<and> \<not> isnan (intercept a)
             then map (\<lambda>v. fl_add (intercept a) (fl_mul (slope a) (Fin v))) r
             else map (\<lambda>v. fl_mul (Fin v) px) r)
            i_all)
    \<and> length i_all = length fs
    \<and> count_list (trace w') (Warning ''no valid calibration parameter given'')
        = count_list (trace w) (Warning ''no valid calibration parameter given'')
          + (if fl_pos (camera_length a) \<and> fl_pos (wave_length a) then 0
             else if \<not> isnan (slope a) \<and> \<not> isnan (intercept a) then 0
             else 1)
    \<and> (\<not> (fl_pos (camera_length a) \<and> fl_pos (wave_length a))
         \<and> ((slope a = PInf \<and> intercept a = NInf) \<or> (slope a = NInf \<and> intercept a = PInf))
        \<longrightarrow> count_list (trace w) (Warning ''invalid value encountered in add'')
              < count_list (trace w') (Warning ''invalid value encountered in add''))"
proof -
  define cal where "cal = resolve_calibration (camera_length a) (wave_length a) (slope a) (intercept a)"
  from series_integrate_success [OF assms(1)] obtain fs px hw m res w3 where
    r: "resolve_files w s (dst a) = Inr (fs, d)"
    and ne: "fs \<noteq> []"
    and px: "resolve_px_size (DETECTER_PX_SIZES e) (detecter a) (px_size a) = Inr px"
    and sh: "first_shape w (hd fs) = Inr hw"
    and mk: "resolve_mask w (mask_arg a) (mask_src a) hw = Inr m"
    and l: "integrate_frames hw (flip_arg a) m (center a) (verbose a) fs
               ([], [], [''q[nm^-1]'']) (before_frames a (length fs) w) = (Inr res, w3)"
    and w': "w' = write_results e a d cal px res w3"
    unfolding cal_def by blast
  have calv: "cal = (if fl_pos (camera_length a) \<and> fl_pos (wave_length a) then ''geometry''
           else if \<not> isnan (slope a) \<and> \<not> isnan (intercept a) then ''linear_regression''
           else ''none'')"
    by (simp add: cal_def resolve_calibration_def)
  have hd: "snd (snd res) = ''q[nm^-1]'' # map basename fs"
    and len: "length (fst (snd res)) = length fs"
    using integrate_frames_result [OF l] by simp_all
  have pf: "process_frame (before_frames a (length fs) w) hw (flip_arg a) m (center a) g
              = process_frame w hw (flip_arg a) m (center a) g" for g
    by (rule process_frame_files) simp
  have prof: "list_all2 (\<lambda>g i. \<exists>r'. process_frame w hw (flip_arg a) m (center a) g = Inr (r', i))
                fs (fst (snd res))"
    and lastf: "process_frame w hw (flip_arg a) m (center a) (last fs)
                  = Inr (fst res, last (fst (snd res)))"
    using integrate_frames_profiles [OF l] ne unfolding pf by auto
  have grid: "frame_ok w hw (last fs) \<longrightarrow>
         fst res = map (\<lambda>k. of_int (min_r (snd hw) (fst hw) (fst (center a)) (snd (center a)))
                        + 1 / 2 + of_nat k)
               [0..<r_range (snd hw) (fst hw) (fst (center a)) (snd (center a))]"
    using process_frame_radii [OF _ resolve_mask_fits [OF mk] lastf] by blast
  have rpos: "fst res \<noteq> []" "\<forall>v\<in>set (fst res). 0 < v"
    using process_frame_radii_pos [OF lastf] by simp_all
  have json: "files w' (paramfile d) = Some (JsonFile (make_params a cal px))"
    by (simp add: w' files_write_results)
  have table: "files w' d = Some (TableFile (set_first_header cal (''q[nm^-1]'' # map basename fs))
                                 (fst (q_column e cal a px (fst res))) (fst (snd res)))"
    using assms(2) by (simp add: w' files_write_results hd)
  have hdr: "set_first_header cal (''q[nm^-1]'' # map basename fs)
      = (if fl_pos (camera_length a) \<and> fl_pos (wave_length a) then ''q[nm^-1]''
         else if \<not> isnan (slope a) \<and> \<not> isnan (intercept a) then ''q[nm^-1]''
         else ''r[mm]'') # map basename fs"
    by (simp add: set_first_header_Cons calv)
  have q: "fst (q_column e cal a px (fst res))
      = (if fl_pos (camera_length a) \<and> fl_pos (wave_length a)
         then r2q e (fst res) (camera_length a) (wave_length a) px
         else if \<not> isnan (slope a) \<and> \<not> isnan (intercept a)
         then map (\<lambda>v. fl_add (intercept a) (fl_mul (slope a) (Fin v))) (fst res)
         else map (\<lambda>v. fl_mul (Fin v) px) (fst res))"
    by (simp add: q_column_def calv Let_def comp_def)
  have qw: "snd (q_column e cal a px (fst res))
      = (if \<not> (fl_pos (camera_length a) \<and> fl_pos (wave_length a))
            \<and> ((slope a = PInf \<and> intercept a = NInf) \<or> (slope a = NInf \<and> intercept a = PInf))
         then [Warning ''invalid value encountered in add''] else [])"
  proof (cases "fl_pos (camera_length a) \<and> fl_pos (wave_length a)")
    case True
    then show ?thesis by (simp add: q_column_def calv Let_def)
  next
    case False
    show ?thesis
    proof (cases "\<not> isnan (slope a) \<and> \<not> isnan (intercept a)")
      case True
      then have "cal = ''linear_regression''" using False calv by simp
      then show ?thesis using False True q_column_linear_warnings [OF rpos, of e a px] by auto
    next
      case nolin: False
      then have "cal = ''none''" using False calv by simp
      then have "snd (q_column e cal a px (fst res)) = []"
        using q_column_none_warnings [OF rpos(2) resolve_px_size_not_nan [OF px], of cal e a] by simp
      then show ?thesis using False nolin by (auto simp: isnan_def)
    qed
  qed
  have "filter is_warning (trace w3) = filter is_warning (trace (before_frames a (length fs) w))"
    using integrate_frames_warnings [of hw "flip_arg a" m "center a" "verbose a" fs
        "([], [], [''q[nm^-1]''])" "before_frames a (length fs) w"] l by simp
  then have warn: "filter is_warning (trace w')
        = filter is_warning (trace w)
          @ (if cal = ''none'' then [Warning ''no valid calibration parameter given''] else [])
          @ snd (q_column e cal a px (fst res))"
    by (simp add: w' warnings_write_results warnings_before_frames cal_def [symmetric])
  have cnt: "count_list (trace w') (Warning msg)
        = count_list (trace w) (Warning msg)
          + count_list (if cal = ''none'' then [Warning ''no valid calibration parameter given''] else [])
              (Warning msg)
          + count_list (snd (q_column e cal a px (fst res))) (Warning msg)" for msg
    using arg_cong [OF warn, of "\<lambda>evs. count_list evs (Warning msg)"]
    by (simp add: count_list_warning)
  have c1: "count_list (trace w') (Warning ''no valid calibration parameter given'')
        = count_list (trace w) (Warning ''no valid calibration parameter given'')
          + (if fl_pos (camera_length a) \<and> fl_pos (wave_length a) then 0
             else if \<not> isnan (slope a) \<and> \<not> isnan (intercept a) then 0
             else 1)"
    unfolding cnt qw using calv by simp
  have c2: "\<not> (fl_pos (camera_length a) \<and> fl_pos (wave_length a))
         \<and> ((slope a = PInf \<and> intercept a = NInf) \<or> (slope a = NInf \<and> intercept a = PInf))
        \<longrightarrow> count_list (trace w) (Warning ''invalid value encountered in add'')
              < count_list (trace w') (Warning ''invalid value encountered in add'')"
    unfolding cnt qw by simp
  show ?thesis
  proof (intro exI conjI)
    show "resolve_files w s (dst a) = Inr (fs, d)" by (fact r)
    show "resolve_px_size (DETECTER_PX_SIZES e) (detecter a) (px_size a) = Inr px" by (fact px)
    show "first_shape w (hd fs) = Inr hw" by (fact sh)
    show "resolve_mask w (mask_arg a) (mask_src a) hw = Inr m" by (fact mk)
    show "list_all2 (\<lambda>g i. \<exists>r'. process_frame w hw (flip_arg a) m (center a) g = Inr (r', i))
            fs (fst (snd res))" by (fact prof)
    show "process_frame w hw (flip_arg a) m (center a) (last fs)
            = Inr (fst res, last (fst (snd res)))" by (fact lastf)
    show "frame_ok w hw (last fs) \<longrightarrow>
         fst res = map (\<lambda>k. of_int (min_r (snd hw) (fst hw) (fst (center a)) (snd (center a)))
                        + 1 / 2 + of_nat k)
               [0..<r_range (snd hw) (fst hw) (fst (center a)) (snd (center a))]" by (fact grid)
    show "resolve_calibration (camera_length a) (wave_length a) (slope a) (intercept a)
        = (if fl_pos (camera_length a) \<and> fl_pos (wave_length a) then ''geometry''
           else if \<not> isnan (slope a) \<and> \<not> isnan (intercept a) then ''linear_regression''
           else ''none'')"
      using calv by (simp only: cal_def)
    show "files w' (paramfile d)
        = Some (JsonFile (make_params a
            (resolve_calibration (camera_length a) (wave_length a) (slope a) (intercept a)) px))"
      using json by (simp only: cal_def)
    show "files w' d
        = Some (TableFile
            ((if fl_pos (camera_length a) \<and> fl_pos (wave_length a) then ''q[nm^-1]''
              else if \<not> isnan (slope a) \<and> \<not> isnan (intercept a) then ''q[nm^-1]''
              else ''r[mm]'') # map basename fs)
            (if fl_pos (camera_length a) \<and> fl_pos (wave_length a)
             then r2q e (fst res) (camera_length a) (wave_length a) px
             else if \<not> isnan (slope a) \<and> \<not> isnan (intercept a)
             then map (\<lambda>v. fl_add (intercept a) (fl_mul (slope a) (Fin v))) (fst res)
             else map (\<lambda>v. fl_mul (Fin v) px) (fst res))
            (fst (snd res)))"
      using table by (simp only: hdr q)
    show "length (fst (snd res)) = length fs" by (fact len)
    show "count_list (trace w') (Warning ''no valid calibration parameter given'')
        = count_list (trace w) (Warning ''no valid calibration parameter given'')
          + (if fl_pos (camera_length a) \<and> fl_pos (wave_length a) then 0
             else if \<not> isnan (slope a) \<and> \<not> isnan (intercept a) then 0
             else 1)" by (fact c1)
    show "\<not> (fl_pos (camera_length a) \<and> fl_pos (wave_length a))
         \<and> ((slope a = PInf \<and> intercept a = NInf) \<or> (slope a = NInf \<and> intercept a = PInf))
        \<longrightarrow> count_list (trace w) (Warning ''invalid value encountered in add'')
              < count_list (trace w') (Warning ''invalid value encountered in add'')" by (fact c2)
  qed
qed

text \<open>
  Two runs on the frame \<open>a.tif\<close> of one pixel: one without calibration parameters
  (mode \<open>none\<close>), one with \<open>slope = -inf\<close> and \<open>intercept = inf\<close> (mode
  \<open>linear_regression\<close>).
\<close>

theorem calibration_mode_witness:
  "series_integrate env0 (Path ''a.tif'') (args0\<lparr>px_size := Fin (1 / 10)\<rparr>) world0
     = (Inr ''a.csv'', snd (series_integrate env0 (Path ''a.tif'') (args0\<lparr>px_size := Fin (1 / 10)\<rparr>) world0))
   \<and> paramfile ''a.csv'' \<noteq> ''a.csv''
   \<and> frame_ok world0 (1, 1) ''a.tif''
   \<and> process_frame world0 (1, 1) ''vertical'' None (0, 0) ''a.tif'' = Inr ([1 / 2, 3 / 2], [10, 0])
   \<and> files (snd (series_integrate env0 (Path ''a.tif'') (args0\<lparr>px_size := Fin (1 / 10)\<rparr>) world0)) ''a.csv''
       = Some (TableFile [''r[mm]'', ''a.tif''] [Fin (1 / 20), Fin (3 / 20)] [[10, 0]])
   \<and> count_list
         (trace (snd (series_integrate env0 (Path ''a.tif'') (args0\<lparr>px_size := Fin (1 / 10)\<rparr>) world0)))
         (Warning ''no valid calibration parameter given'') = 1
   \<and> series_integrate env0 (Path ''a.tif'')
         (args0\<lparr>px_size := Fin (1 / 10), slope := NInf, intercept := PInf\<rparr>) world0
     = (Inr ''a.csv'', snd (series_integrate env0 (Path ''a.tif'')
         (args0\<lparr>px_size := Fin (1 / 10), slope := NInf, intercept := PInf\<rparr>) world0))
   \<and> 0 < count_list
         (trace (snd (series_integrate env0 (Path ''a.tif'')
            (args0\<lparr>px_size := Fin (1 / 10), slope := NInf, intercept := PInf\<rparr>) world0)))
         (Warning ''invalid value encountered in add'')"
proof -
  let ?a = "args0\<lparr>px_size := Fin (1 / 10)\<rparr>"
  let ?R = "series_integrate env0 (Path ''a.tif'') ?a world0"
  let ?b = "args0\<lparr>px_size := Fin (1 / 10), slope := NInf, intercept := PInf\<rparr>"
  let ?S = "series_integrate env0 (Path ''a.tif'') ?b world0"
  have "fst ?R = Inr ''a.csv''" by code_simp
  then have run: "?R = (Inr ''a.csv'', snd ?R)" by (metis prod.collapse)
  have "fst ?S = Inr ''a.csv''" by code_simp
  then have runb: "?S = (Inr ''a.csv'', snd ?S)" by (metis prod.collapse)
  have dist: "paramfile ''a.csv'' \<noteq> ''a.csv''" by code_simp
  have ok: "frame_ok world0 (1, 1) ''a.tif''" by code_simp
  have pf: "process_frame world0 (1, 1) ''vertical'' None (0, 0) ''a.tif'' = Inr ([1 / 2, 3 / 2], [10, 0])"
    by code_simp
  have nan: "\<not> fl_pos (camera_length ?a)" "isnan (slope ?a)" "trace world0 = []"
    by (simp_all add: args0_def world0_def fl_pos_def isnan_def)
  have inf: "\<not> fl_pos (camera_length ?b)" "slope ?b = NInf" "intercept ?b = PInf"
    by (simp_all add: args0_def fl_pos_def)
  have fs0: "resolve_files world0 (Path ''a.tif'') (dst ?a) = Inr ([''a.tif''], ''a.csv'')"
    by code_simp
  have sh0: "first_shape world0 ''a.tif'' = Inr (1, 1)" by code_simp
  have mk0: "resolve_mask world0 (mask_arg ?a) (mask_src ?a) (1, 1) = Inr None" by code_simp
  have px0: "resolve_px_size (DETECTER_PX_SIZES env0) (detecter ?a) (px_size ?a) = Inr (Fin (1 / 10))"
    by code_simp
  have ar: "flip_arg ?a = ''vertical''" "center ?a = (0, 0)"
    by (simp_all add: args0_def)
  from calibration_mode [OF run dist] obtain fs px hw m r i_all where
    c: "resolve_files world0 (Path ''a.tif'') (dst ?a) = Inr (fs, ''a.csv'')"
      "resolve_px_size (DETECTER_PX_SIZES env0) (detecter ?a) (px_size ?a) = Inr px"
      "first_shape world0 (hd fs) = Inr hw"
      "resolve_mask world0 (mask_arg ?a) (mask_src ?a) hw = Inr m"
      "process_frame world0 hw (flip_arg ?a) m (center ?a) (last fs) = Inr (r, last i_all)"
      "length i_all = length fs"
      "frame_ok world0 hw (last fs) \<longrightarrow>
         r = map (\<lambda>k. of_int (min_r (snd hw) (fst hw) (fst (center ?a)) (snd (center ?a)))
                        + 1 / 2 + of_nat k)
               [0..<r_range (snd hw) (fst hw) (fst (center ?a)) (snd (center ?a))]"
      "files (snd ?R) ''a.csv''
         = Some (TableFile
            ((if fl_pos (camera_length ?a) \<and> fl_pos (wave_length ?a) then ''q[nm^-1]''
              else if \<not> isnan (slope ?a) \<and> \<not> isnan (intercept ?a) then ''q[nm^-1]''
              else ''r[mm]'') # map basename fs)
            (if fl_pos (camera_length ?a) \<and> fl_pos (wave_length ?a)
             then r2q env0 r (camera_length ?a) (wave_length ?a) px
             else if \<not> isnan (slope ?a) \<and> \<not> isnan (intercept ?a)
             then map (\<lambda>v. fl_add (intercept ?a) (fl_mul (slope ?a) (Fin v))) r
             else map (\<lambda>v. fl_mul (Fin v) px) r)
            i_all)"
      "count_list (trace (snd ?R)) (Warning ''no valid calibration parameter given'')
        = count_list (trace world0) (Warning ''no valid calibration parameter given'')
          + (if fl_pos (camera_length ?a) \<and> fl_pos (wave_length ?a) then 0
             else if \<not> isnan (slope ?a) \<and> \<not> isnan (intercept ?a) then 0
             else 1)"
    by blast
  have fs: "fs = [''a.tif'']" using c(1) fs0 by simp
  have hw: "hw = (1, 1)" using c(3) sh0 fs by simp
  have m: "m = None" using c(4) mk0 hw by simp
  have px: "px = Fin (1 / 10)" using c(2) px0 by simp
  have "r = map (\<lambda>k. of_int (min_r 1 1 0 0) + 1 / 2 + of_nat k) [0..<r_range 1 1 0 0]"
    using c(7) ok by (simp add: fs hw ar)
  moreover have "map (\<lambda>k. of_int (min_r 1 1 0 0) + 1 / 2 + of_nat k) [0..<r_range 1 1 0 0]
                   = [1 / 2, 3 / 2 :: rat]"
    by code_simp
  ultimately have r: "r = [1 / 2, 3 / 2]" by simp
  have i: "last i_all = [10, 0]"
    using c(5) pf by (simp add: fs hw m ar)
  have "i_all = [[10, 0]]"
    using c(6) i fs by (cases i_all) simp_all
  then have tab: "files (snd ?R) ''a.csv''
       = Some (TableFile [''r[mm]'', ''a.tif''] [Fin (1 / 20), Fin (3 / 20)] [[10, 0]])"
    using c(8) nan(1,2) by (simp add: fs r px basename_def)
  have cw: "count_list (trace (snd ?R)) (Warning ''no valid calibration parameter given'') = 1"
    using c(9) nan by simp
  from calibration_mode [OF runb dist] inf nan(3)
  have rw: "0 < count_list (trace (snd ?S)) (Warning ''invalid value encountered in add'')"
    by auto
  show ?thesis using run runb dist ok pf tab cw rw by simp
qed

subsection \<open>C4: the pixel size\<close>

text \<open>
  C4, as stated, fails on "finite and positive": with an empty \<open>detecter\<close> the
  code only rejects a NaN \<open>px_size\<close>.  A negative, a zero and an infinite pixel
  size are accepted and the run succeeds.
\<close>

theorem pixel_size_resolution_counterexample:
  "fst (series_integrate env0 (Path ''a.tif'') (args0\<lparr>px_size := Fin (- 1)\<rparr>) world0) = Inr ''a.csv''
   \<and> \<not> fl_pos (Fin (- 1))
   \<and> fst (series_integrate env0 (Path ''a.tif'') (args0\<lparr>px_size := Fin 0\<rparr>) world0) = Inr ''a.csv''
   \<and> \<not> fl_pos (Fin 0)
   \<and> fst (series_integrate env0 (Path ''a.tif'') (args0\<lparr>px_size := PInf\<rparr>) world0) = Inr ''a.csv''
   \<and> \<not> isfinite PInf"
  by code_simp

text \<open>
  C4, amended: in a run that reaches the pixel-size resolution (the files and the
  destination are resolved, there is at least one file, the overwrite guard lets
  the run pass): if \<open>detecter.upper()\<close> is a key of \<open>DETECTER_PX_SIZES\<close>, the
  run fails with neither \<open>MissingCalibration\<close> nor \<open>UnknownDetector\<close>, and on
  success the recorded pixel size is the known one, whatever \<open>px_size\<close> was given;
  if \<open>detecter\<close> is the empty string, the run fails with \<open>MissingCalibration\<close>
  exactly when \<open>px_size\<close> is NaN, and otherwise the given \<open>px_size\<close> is the one
  recorded; if \<open>detecter\<close> is non-empty and unknown, the run fails with
  \<open>UnknownDetector\<close>.
\<close>

theorem pixel_size_resolution:
  assumes "resolve_files w s (dst a) = Inr (fs, d)" and "fs \<noteq> []"
    and "overwrite a \<or> \<not> exists_path w d"
  shows
   "(map_of (DETECTER_PX_SIZES e) (upper (detecter a)) = Some v \<longrightarrow>
       fst (series_integrate e s a w) \<noteq> Inl MissingCalibration
     \<and> fst (series_integrate e s a w) \<noteq> Inl (UnknownDetector (detecter a))
     \<and> (fst (series_integrate e s a w) = Inr d \<longrightarrow>
          files (snd (series_integrate e s a w)) (paramfile d)
            = Some (JsonFile (make_params a
                (resolve_calibration (camera_length a) (wave_length a) (slope a) (intercept a))
                (Fin v)))))
  \<and> (map_of (DETECTER_PX_SIZES e) (upper (detecter a)) = None \<and> detecter a = [] \<and> isnan (px_size a)
       \<longrightarrow> fst (series_integrate e s a w) = Inl MissingCalibration)
  \<and> (map_of (DETECTER_PX_SIZES e) (upper (detecter a)) = None \<and> detecter a = [] \<and> \<not> isnan (px_size a)
       \<longrightarrow> fst (series_integrate e s a w) \<noteq> Inl MissingCalibration
         \<and> (fst (series_integrate e s a w) = Inr d \<longrightarrow>
              files (snd (series_integrate e s a w)) (paramfile d)
                = Some (JsonFile (make_params a
                    (resolve_calibration (camera_length a) (wave_length a) (slope a) (intercept a))
                    (px_size a)))))
  \<and> (map_of (DETECTER_PX_SIZES e) (upper (detecter a)) = None \<and> detecter a \<noteq> []
       \<longrightarrow> fst (series_integrate e s a w) = Inl (UnknownDetector (detecter a)))"
proof (intro conjI impI)
  assume h: "map_of (DETECTER_PX_SIZES e) (upper (detecter a)) = Some v"
  then have px: "resolve_px_size (DETECTER_PX_SIZES e) (detecter a) (px_size a) = Inr (Fin v)"
    by (simp add: resolve_px_size_def)
  show "fst (series_integrate e s a w) \<noteq> Inl MissingCalibration"
    using series_integrate_px(2) [OF assms px, of MissingCalibration] by (auto simp: px_error_def)
  show "fst (series_integrate e s a w) \<noteq> Inl (UnknownDetector (detecter a))"
    using series_integrate_px(2) [OF assms px, of "UnknownDetector (detecter a)"]
    by (auto simp: px_error_def)
  assume "fst (series_integrate e s a w) = Inr d"
  then show "files (snd (series_integrate e s a w)) (paramfile d)
            = Some (JsonFile (make_params a
                (resolve_calibration (camera_length a) (wave_length a) (slope a) (intercept a))
                (Fin v)))"
    by (rule series_integrate_px(3) [OF assms px])
next
  assume "map_of (DETECTER_PX_SIZES e) (upper (detecter a)) = None \<and> detecter a = [] \<and> isnan (px_size a)"
  then have "resolve_px_size (DETECTER_PX_SIZES e) (detecter a) (px_size a) = Inl MissingCalibration"
    by (auto simp: resolve_px_size_def)
  then show "fst (series_integrate e s a w) = Inl MissingCalibration"
    by (rule series_integrate_px(1) [OF assms])
next
  assume h: "map_of (DETECTER_PX_SIZES e) (upper (detecter a)) = None \<and> detecter a = [] \<and> \<not> isnan (px_size a)"
  then have px: "resolve_px_size (DETECTER_PX_SIZES e) (detecter a) (px_size a) = Inr (px_size a)"
    by (auto simp: resolve_px_size_def)
  show "fst (series_integrate e s a w) \<noteq> Inl MissingCalibration"
    using series_integrate_px(2) [OF assms px, of MissingCalibration] by (auto simp: px_error_def)
  assume "fst (series_integrate e s a w) = Inr d"
  then show "files (snd (series_integrate e s a w)) (paramfile d)
                = Some (JsonFile (make_params a
                    (resolve_calibration (camera_length a) (wave_length a) (slope a) (intercept a))
                    (px_size a)))"
    by (rule series_integrate_px(3) [OF assms px])
next
  assume "map_of (DETECTER_PX_SIZES e) (upper (detecter a)) = None \<and> detecter a \<noteq> []"
  then have "resolve_px_size (DETECTER_PX_SIZES e) (detecter a) (px_size a)
               = Inl (UnknownDetector (detecter a))"
    by (auto simp: resolve_px_size_def)
  then show "fst (series_integrate e s a w) = Inl (UnknownDetector (detecter a))"
    by (rule series_integrate_px(1) [OF assms])
qed

theorem pixel_size_resolution_witness:
  "resolve_files world0 (Path ''a.tif'') [] = Inr ([''a.tif''], ''a.csv'')
   \<and> [''a.tif''] \<noteq> [] \<and> \<not> exists_path world0 ''a.csv''
   \<and> map_of (DETECTER_PX_SIZES env0) (upper ''pilatus'') = Some (172 / 1000)
   \<and> fst (series_integrate env0 (Path ''a.tif'') (args0\<lparr>detecter := ''pilatus'', px_size := Fin 5\<rparr>) world0)
       = Inr ''a.csv''
   \<and> files (snd (series_integrate env0 (Path ''a.tif'')
                  (args0\<lparr>detecter := ''pilatus'', px_size := Fin 5\<rparr>) world0)) (paramfile ''a.csv'')
       = Some (JsonFile (make_params (args0\<lparr>detecter := ''pilatus'', px_size := Fin 5\<rparr>) ''none''
                 (Fin (172 / 1000))))
   \<and> map_of (DETECTER_PX_SIZES env0) (upper []) = None \<and> isnan NaN
   \<and> fst (series_integrate env0 (Path ''a.tif'') args0 world0) = Inl MissingCalibration
   \<and> \<not> isnan (Fin (1 / 10))
   \<and> fst (series_integrate env0 (Path ''a.tif'') (args0\<lparr>px_size := Fin (1 / 10)\<rparr>) world0) = Inr ''a.csv''
   \<and> files (snd (series_integrate env0 (Path ''a.tif'') (args0\<lparr>px_size := Fin (1 / 10)\<rparr>) world0))
         (paramfile ''a.csv'')
       = Some (JsonFile (make_params (args0\<lparr>px_size := Fin (1 / 10)\<rparr>) ''none'' (Fin (1 / 10))))
   \<and> map_of (DETECTER_PX_SIZES env0) (upper ''foo'') = None \<and> ''foo'' \<noteq> []
   \<and> fst (series_integrate env0 (Path ''a.tif'') (args0\<lparr>detecter := ''foo''\<rparr>) world0)
       = Inl (UnknownDetector ''foo'')"
proof -
  let ?a1 = "args0\<lparr>detecter := ''pilatus'', px_size := Fin 5\<rparr>"
  let ?a3 = "args0\<lparr>px_size := Fin (1 / 10)\<rparr>"
  let ?a4 = "args0\<lparr>detecter := ''foo''\<rparr>"
  have d: "dst ?a1 = []" "dst args0 = []" "dst ?a3 = []" "dst ?a4 = []"
    "overwrite ?a1 = False" "overwrite args0 = False" "overwrite ?a3 = False" "overwrite ?a4 = False"
    "detecter ?a1 = ''pilatus''" "detecter args0 = []" "detecter ?a3 = []" "detecter ?a4 = ''foo''"
    "px_size args0 = NaN" "px_size ?a3 = Fin (1 / 10)"
    by (simp_all add: args0_def)
  have c: "resolve_calibration (camera_length args0) (wave_length args0) (slope args0) (intercept args0)
             = ''none''"
    by code_simp
  have r: "resolve_files world0 (Path ''a.tif'') [] = Inr ([''a.tif''], ''a.csv'')" by code_simp
  have ne: "[''a.tif''] \<noteq> []" by simp
  have ex: "\<not> exists_path world0 ''a.csv''" by code_simp
  have m: "map_of (DETECTER_PX_SIZES env0) (upper ''pilatus'') = Some (172 / 1000)"
    "map_of (DETECTER_PX_SIZES env0) (upper []) = None"
    "map_of (DETECTER_PX_SIZES env0) (upper ''foo'') = None"
    by code_simp+
  have s: "fst (series_integrate env0 (Path ''a.tif'') ?a1 world0) = Inr ''a.csv''"
    "fst (series_integrate env0 (Path ''a.tif'') ?a3 world0) = Inr ''a.csv''"
    by code_simp+
  have n: "isnan NaN" "\<not> isnan (Fin (1 / 10))" by (simp_all add: isnan_def)
  note T1 = pixel_size_resolution [of world0 "Path ''a.tif''" ?a1 "[''a.tif'']" "''a.csv''" env0 "172 / 1000"]
  note T2 = pixel_size_resolution [of world0 "Path ''a.tif''" args0 "[''a.tif'']" "''a.csv''" env0 0]
  note T3 = pixel_size_resolution [of world0 "Path ''a.tif''" ?a3 "[''a.tif'']" "''a.csv''" env0 0]
  note T4 = pixel_size_resolution [of world0 "Path ''a.tif''" ?a4 "[''a.tif'']" "''a.csv''" env0 0]
  have 1: "files (snd (series_integrate env0 (Path ''a.tif'') ?a1 world0)) (paramfile ''a.csv'')
       = Some (JsonFile (make_params ?a1 ''none'' (Fin (172 / 1000))))"
    using T1 r ne ex m(1) s(1) by (simp add: d c)
  have 2: "fst (series_integrate env0 (Path ''a.tif'') args0 world0) = Inl MissingCalibration"
    using T2 r ne ex m(2) n(1) by (simp add: d)
  have 3: "files (snd (series_integrate env0 (Path ''a.tif'') ?a3 world0)) (paramfile ''a.csv'')
       = Some (JsonFile (make_params ?a3 ''none'' (Fin (1 / 10))))"
    using T3 r ne ex m(2) n(2) s(2) by (simp add: d c)
  have 4: "fst (series_integrate env0 (Path ''a.tif'') ?a4 world0) = Inl (UnknownDetector ''foo'')"
    using T4 r ne ex m(3) by (simp add: d)
  show ?thesis
    using r ne ex m s n 1 2 3 4 by simp
qed

subsection \<open>C5: failures write nothing\<close>

text \<open>
  C5, in three parts.  When the files and the destination are resolved (there is at
  least one file), the destination exists and \<open>overwrite\<close> is false,
  \<open>series_integrate\<close> fails with \<open>OutputExists\<close>, having at most opened the
  progress bar: no frame is read.  When the run reaches the loop over the frames,
  the frames before \<open>g\<close> have the shape of the first one (which is not empty)
  and \<open>g\<close> has another shape, it fails with \<open>ShapeMismatch\<close> naming \<open>g\<close>.
  And whenever \<open>series_integrate\<close> fails, with any error, the files are those
  it found: neither the table nor the parameter record is written.
\<close>

theorem failure_writes_nothing:
  "(resolve_files w s (dst a) = Inr (fs, d) \<and> fs \<noteq> [] \<and> \<not> overwrite a \<and> exists_path w d
      \<longrightarrow> series_integrate e s a w
            = (Inl (OutputExists d), if verbose a then log_event (BarOpen (length fs)) w else w))
 \<and> (resolve_files w s (dst a) = Inr (pre @ g # post, d) \<and> (overwrite a \<or> \<not> exists_path w d)
      \<and> resolve_px_size (DETECTER_PX_SIZES e) (detecter a) (px_size a) = Inr px
      \<and> first_shape w (hd (pre @ g # post)) = Inr hw \<and> 0 < fst hw \<and> 0 < snd hw
      \<and> resolve_mask w (mask_arg a) (mask_src a) hw = Inr m
      \<and> list_all (frame_ok w hw) pre \<and> frame_mismatch w hw g
      \<longrightarrow> fst (series_integrate e s a w) = Inl (ShapeMismatch g))
 \<and> (fst (series_integrate e s a w) = Inl err
      \<longrightarrow> files (snd (series_integrate e s a w)) = files w)"
proof (intro conjI impI)
  assume "resolve_files w s (dst a) = Inr (fs, d) \<and> fs \<noteq> [] \<and> \<not> overwrite a \<and> exists_path w d"
  then show "series_integrate e s a w
            = (Inl (OutputExists d), if verbose a then log_event (BarOpen (length fs)) w else w)"
    by (simp add: series_integrate_exists)
next
  assume h: "resolve_files w s (dst a) = Inr (pre @ g # post, d) \<and> (overwrite a \<or> \<not> exists_path w d)
      \<and> resolve_px_size (DETECTER_PX_SIZES e) (detecter a) (px_size a) = Inr px
      \<and> first_shape w (hd (pre @ g # post)) = Inr hw \<and> 0 < fst hw \<and> 0 < snd hw
      \<and> resolve_mask w (mask_arg a) (mask_src a) hw = Inr m
      \<and> list_all (frame_ok w hw) pre \<and> frame_mismatch w hw g"
  let ?fs = "pre @ g # post"
  let ?w2 = "before_frames a (length ?fs) w"
  have f2: "files ?w2 = files w" by simp
  have r: "resolve_files w s (dst a) = Inr (?fs, d)" "?fs \<noteq> []" "overwrite a \<or> \<not> exists_path w d"
    using h by simp_all
  have px: "resolve_px_size (DETECTER_PX_SIZES e) (detecter a) (px_size a) = Inr px"
    using h by simp
  have hw: "first_shape ?w2 (hd ?fs) = Inr hw"
    using h first_shape_files [OF f2] by simp
  have m: "resolve_mask ?w2 (mask_arg a) (mask_src a) hw = Inr m"
    using h resolve_mask_files [OF f2] by simp
  have fits: "mask_fits m hw" using h resolve_mask_fits by blast
  have ok: "list_all (frame_ok ?w2 hw) pre" "frame_mismatch ?w2 hw g"
    using h frame_ok_files [OF f2] frame_mismatch_files [OF f2] by (simp_all add: list_all_iff)
  have pos: "0 < fst hw" "0 < snd hw" using h by simp_all
  obtain res w3 where l: "integrate_frames hw (flip_arg a) m (center a) (verbose a) ?fs
               ([], [], [''q[nm^-1]'']) ?w2 = (res, w3)"
    by (cases "integrate_frames hw (flip_arg a) m (center a) (verbose a) ?fs
               ([], [], [''q[nm^-1]'']) ?w2")
  have "fst (integrate_frames hw (flip_arg a) m (center a) (verbose a) ?fs
               ([], [], [''q[nm^-1]'']) ?w2) = Inl (ShapeMismatch g)"
    by (rule integrate_frames_mismatch [OF ok pos fits])
  then have res: "res = Inl (ShapeMismatch g)" unfolding l by simp
  show "fst (series_integrate e s a w) = Inl (ShapeMismatch g)"
    unfolding series_integrate_reach [OF r] px hw m l res sum.case prod.case by simp
next
  assume "fst (series_integrate e s a w) = Inl err"
  then show "files (snd (series_integrate e s a w)) = files w"
    by (rule series_integrate_failure_files)
qed

theorem failure_writes_nothing_witness:
  "resolve_files world1 (Path ''a.tif'') (dst args0) = Inr ([''a.tif''], ''a.csv'')
   \<and> [''a.tif''] \<noteq> [] \<and> \<not> overwrite args0 \<and> exists_path world1 ''a.csv''
   \<and> series_integrate env0 (Path ''a.tif'') args0 world1
        = (Inl (OutputExists ''a.csv''), log_event (BarOpen 1) world1)
   \<and> files (snd (series_integrate env0 (Path ''a.tif'') args0 world1)) = files world1
   \<and> resolve_files world1 (PathList [''a.tif'', ''b.tif'']) (dst (args0\<lparr>detecter := ''pilatus'', dst := ''out.csv''\<rparr>))
        = Inr ([''a.tif''] @ ''b.tif'' # [], ''out.csv'')
   \<and> \<not> exists_path world1 ''out.csv''
   \<and> resolve_px_size (DETECTER_PX_SIZES env0) ''pilatus'' NaN = Inr (Fin (172 / 1000))
   \<and> first_shape world1 ''a.tif'' = Inr (1, 1)
   \<and> resolve_mask world1 [] [] (1, 1) = Inr None
   \<and> list_all (frame_ok world1 (1, 1)) [''a.tif''] \<and> frame_mismatch world1 (1, 1) ''b.tif''
   \<and> fst (series_integrate env0 (PathList [''a.tif'', ''b.tif''])
             (args0\<lparr>detecter := ''pilatus'', dst := ''out.csv''\<rparr>) world1)
        = Inl (ShapeMismatch ''b.tif'')
   \<and> files (snd (series_integrate env0 (PathList [''a.tif'', ''b.tif''])
             (args0\<lparr>detecter := ''pilatus'', dst := ''out.csv''\<rparr>) world1)) = files world1"
proof -
  let ?a = "args0\<lparr>detecter := ''pilatus'', dst := ''out.csv''\<rparr>"
  have a1: "resolve_files world1 (Path ''a.tif'') (dst args0) = Inr ([''a.tif''], ''a.csv'')"
    by code_simp
  have a2: "\<not> overwrite args0" by code_simp
  have a3: "exists_path world1 ''a.csv''" by code_simp
  have a4: "verbose args0" by code_simp
  have b1: "resolve_files world1 (PathList [''a.tif'', ''b.tif'']) (dst ?a)
        = Inr ([''a.tif''] @ ''b.tif'' # [], ''out.csv'')" by code_simp
  have b2: "\<not> exists_path world1 ''out.csv''" by code_simp
  have b3: "resolve_px_size (DETECTER_PX_SIZES env0) (detecter ?a) (px_size ?a) = Inr (Fin (172 / 1000))"
    by code_simp
  have b4: "first_shape world1 (hd ([''a.tif''] @ ''b.tif'' # [])) = Inr (1, 1)" by code_simp
  have b5: "resolve_mask world1 (mask_arg ?a) (mask_src ?a) (1, 1) = Inr None" by code_simp
  have b6: "list_all (frame_ok world1 (1, 1)) [''a.tif'']" by code_simp
  have b7: "frame_mismatch world1 (1, 1) ''b.tif''" by code_simp
  have c: "detecter ?a = ''pilatus''" "px_size ?a = NaN" "mask_arg ?a = []" "mask_src ?a = []"
    by (simp_all add: args0_def)
  note A = failure_writes_nothing [of world1 "Path ''a.tif''" args0 "[''a.tif'']" "''a.csv''" env0
      "[]" "''a.tif''" "[]" "Fin 0" "(1, 1)" None "OutputExists ''a.csv''"]
  note B = failure_writes_nothing [of world1 "PathList [''a.tif'', ''b.tif'']" ?a "[''a.tif'', ''b.tif'']"
      "''out.csv''" env0 "[''a.tif'']" "''b.tif''" "[]" "Fin (172 / 1000)" "(1, 1)" None
      "ShapeMismatch ''b.tif''"]
  have A1: "series_integrate env0 (Path ''a.tif'') args0 world1
        = (Inl (OutputExists ''a.csv''), log_event (BarOpen 1) world1)"
    using A a1 a2 a3 a4 by simp
  have A2: "files (snd (series_integrate env0 (Path ''a.tif'') args0 world1)) = files world1"
    using A A1 by simp
  have B1: "fst (series_integrate env0 (PathList [''a.tif'', ''b.tif'']) ?a world1)
        = Inl (ShapeMismatch ''b.tif'')"
    using B b1 b2 b3 b4 b5 b6 b7 by simp
  have B2: "files (snd (series_integrate env0 (PathList [''a.tif'', ''b.tif'']) ?a world1)) = files world1"
    using B B1 by simp
  show ?thesis
    using a1 a2 a3 A1 A2 b1 b2 b3 b4 b5 b6 b7 B1 B2 c by simp
qed

subsection \<open>C6: empty bins\<close>

text \<open>
  C6: in the kernel \<open>_radial_average\<close>, on a non-empty image, every bin exists in
  the output (there are \<open>r_range\<close> intensities and as many radii), and a bin none
  of whose pixels passes the threshold has intensity exactly 0.  In
  \<open>Saxs2d.radial_average\<close>, a bin into which no pixel with a value falls has
  intensity NaN: both histograms are empty there, and \<open>0.0 / 0\<close> is NaN.
\<close>

theorem empty_bins:
  assumes "0 < width img" and "0 < height img"
    and "k < r_range (width img) (height img) cx cy"
    and "filter (passes img thr) (bin_pixels (width img) (height img) cx cy k) = []"
    and "Saxs2d_r_bin s q_min q_max = Inr edges"
    and "j < length edges - 1"
    and "filter (\<lambda>(d, v). in_hist_bin edges j d) (finite_pixels s) = []"
  shows "(\<exists>r i. radial_average img cx cy thr = Inr (r, i)
            \<and> length i = r_range (width img) (height img) cx cy \<and> length r = length i \<and> i ! k = 0)
       \<and> (\<exists>i q. Saxs2d_radial_average s q_min q_max = Inr (i, q)
            \<and> length i = length edges - 1 \<and> i ! j = NaN)"
  using radial_average_empty_bin [OF assms(1-4)] Saxs2d_empty_bin [OF assms(5-7)] by blast

theorem empty_bins_witness:
  "0 < width [[10::rat]] \<and> 0 < height [[10::rat]]
   \<and> 1 < r_range (width [[10::rat]]) (height [[10::rat]]) 0 0
   \<and> filter (passes [[10]] 2) (bin_pixels (width [[10::rat]]) (height [[10::rat]]) 0 0 1) = []
   \<and> Saxs2d_r_bin \<lparr>s_i = [[Some 10]], s_px2q = 1, s_center = (2, 0)\<rparr> 0 None = Inr [0, 1, 2]
   \<and> 0 < length [0, 1, 2::int] - 1
   \<and> filter (\<lambda>(d, v). in_hist_bin [0, 1, 2] 0 d)
        (finite_pixels \<lparr>s_i = [[Some 10]], s_px2q = 1, s_center = (2, 0)\<rparr>) = []
   \<and> radial_average [[10]] 0 0 2 = Inr ([1/2, 3/2], [10, 0])
   \<and> Saxs2d_radial_average \<lparr>s_i = [[Some 10]], s_px2q = 1, s_center = (2, 0)\<rparr> 0 None
        = Inr ([NaN, Fin 10], [1/2, 3/2])"
proof -
  have h: "0 < width [[10::rat]]" "0 < height [[10::rat]]"
    "1 < r_range (width [[10::rat]]) (height [[10::rat]]) 0 0"
    "filter (passes [[10]] 2) (bin_pixels (width [[10::rat]]) (height [[10::rat]]) 0 0 1) = []"
    "Saxs2d_r_bin \<lparr>s_i = [[Some 10]], s_px2q = 1, s_center = (2, 0)\<rparr> 0 None = Inr [0, 1, 2]"
    "0 < length [0, 1, 2::int] - 1"
    "filter (\<lambda>(d, v). in_hist_bin [0, 1, 2] 0 d)
        (finite_pixels \<lparr>s_i = [[Some 10]], s_px2q = 1, s_center = (2, 0)\<rparr>) = []"
    by code_simp+
  have e: "radial_average [[10]] 0 0 2 = Inr ([1/2, 3/2], [10, 0])"
    "Saxs2d_radial_average \<lparr>s_i = [[Some 10]], s_px2q = 1, s_center = (2, 0)\<rparr> 0 None
        = Inr ([NaN, Fin 10], [1/2, 3/2])"
    by code_simp+
  show ?thesis
    using empty_bins [OF h] h e by simp
qed

subsection \<open>C7: the parameter record beside the table\<close>

text \<open>
  C7 asks for a parameter file distinct from the destination.  The code derives its
  name by \<open>dst.replace(".csv", "_params.json")\<close>, which leaves a destination
  without \<open>.csv\<close> as it is: for the list \<open>["a.tif"]\<close> and \<open>dst = "out.txt"\<close> the
  run succeeds and returns \<open>out.txt\<close>, but \<open>write_json\<close> has written the
  parameters over the table that \<open>savetxt\<close> had just written there.  With the
  default destination \<open>a.csv\<close> both artifacts exist, the record in
  \<open>a_params.json\<close>, also in the mode \<open>none\<close>.
\<close>

theorem paramfile_overwrites_table:
  "paramfile ''out.txt'' = ''out.txt''
   \<and> fst (series_integrate env0 (PathList [''a.tif''])
            (args0\<lparr>detecter := ''pilatus'', dst := ''out.txt''\<rparr>) world0) = Inr ''out.txt''
   \<and> files (snd (series_integrate env0 (PathList [''a.tif''])
                   (args0\<lparr>detecter := ''pilatus'', dst := ''out.txt''\<rparr>) world0)) ''out.txt''
       = Some (JsonFile \<lparr>p_center_x = 0, p_center_y = 0, p_calibration_type = ''none'',
                 p_px_size = Fin (172 / 1000), p_camera_length = NaN, p_wave_length = NaN,
                 p_slope = NaN, p_intercept = NaN, p_flip = ''vertical''\<rparr>)
   \<and> paramfile ''a.csv'' = ''a_params.json''
   \<and> files (snd (series_integrate env0 (Path ''a.tif'') (args0\<lparr>detecter := ''pilatus''\<rparr>) world0)) ''a.csv''
       = Some (TableFile [''r[mm]'', ''a.tif''] [Fin (86 / 1000), Fin (258 / 1000)] [[10, 0]])
   \<and> files (snd (series_integrate env0 (Path ''a.tif'') (args0\<lparr>detecter := ''pilatus''\<rparr>) world0))
         ''a_params.json''
       = Some (JsonFile \<lparr>p_center_x = 0, p_center_y = 0, p_calibration_type = ''none'',
                 p_px_size = Fin (172 / 1000), p_camera_length = NaN, p_wave_length = NaN,
                 p_slope = NaN, p_intercept = NaN, p_flip = ''vertical''\<rparr>)"
  by code_simp

subsection \<open>C8: rectangles on a mask\<close>

text \<open>
  C8, as stated for all integer arguments, fails for a negative start (and likewise
  for a negative end): numpy counts a negative slice bound from the end of the axis.
  On a mask of one row and three columns, \<open>add_rectangle(-2, 0, 1, 1)\<close> is
  \<open>mask[0:1, -2:-1] = 0\<close> and clears column 1, although the region
  \<open>[-2, -1) \<times> [0, 1)\<close> holds no pixel of the image; \<open>remove_rectangle\<close> sets
  the same pixel.
\<close>

theorem rectangle_region_counterexample:
  "add_rectangle [[1, 1, 1]] (- 2) 0 1 1 = [[1, 0, 1]]
   \<and> remove_rectangle [[0, 0, 0]] (- 2) 0 1 1 = [[0, 1, 0]]
   \<and> \<not> in_rectangle (- 2) 0 1 1 1 0"
  by code_simp

text \<open>
  C8, amended: for integer arguments with \<open>x\<close>, \<open>y\<close>, \<open>x + width\<close> and
  \<open>y + height\<close> all non-negative, \<open>add_rectangle\<close> sets to 0 and
  \<open>remove_rectangle\<close> sets to 1 exactly the pixels of
  \<open>[x, x + width) \<times> [y, y + height)\<close> that lie in the image, and leaves every
  other pixel unchanged; the rectangle is clipped to the image silently, and the
  shape of the mask is kept.  (Neither method can raise, whatever the arguments:
  both are total functions here.)
\<close>

theorem rectangle_region:
  assumes "rect m" and "0 \<le> x" and "0 \<le> y" and "0 \<le> x + w" and "0 \<le> y + h"
    and "i < width m" and "j < height m"
  shows "add_rectangle m x y w h ! j ! i = (if in_rectangle x y w h i j then 0 else m ! j ! i)
       \<and> remove_rectangle m x y w h ! j ! i = (if in_rectangle x y w h i j then 1 else m ! j ! i)
       \<and> shape (add_rectangle m x y w h) = shape m \<and> rect (add_rectangle m x y w h)
       \<and> shape (remove_rectangle m x y w h) = shape m \<and> rect (remove_rectangle m x y w h)"
  using assign_rect_pixel [OF assms, of 0] assign_rect_pixel [OF assms, of 1] assms(1)
  by (simp add: add_rectangle_def remove_rectangle_def assign_rect_shape)

theorem rectangle_region_witness:
  "rect [[1, 1, 1, 1], [1, 1, 1, 1], [1, 1, 1, 1::nat]] \<and> (0::int) \<le> 2 \<and> (0::int) \<le> 1
   \<and> (0::int) \<le> 2 + 5 \<and> (0::int) \<le> 1 + 1
   \<and> 3 < width [[1, 1, 1, 1], [1, 1, 1, 1], [1, 1, 1, 1::nat]]
   \<and> 1 < height [[1, 1, 1, 1], [1, 1, 1, 1], [1, 1, 1, 1::nat]]
   \<and> in_rectangle 2 1 5 1 3 1
   \<and> add_rectangle [[1, 1, 1, 1], [1, 1, 1, 1], [1, 1, 1, 1]] 2 1 5 1 ! 1 ! 3 = 0
   \<and> add_rectangle [[1, 1, 1, 1], [1, 1, 1, 1], [1, 1, 1, 1]] 2 1 5 1
       = [[1, 1, 1, 1], [1, 1, 0, 0], [1, 1, 1, 1]]"
proof -
  have h: "rect [[1, 1, 1, 1], [1, 1, 1, 1], [1, 1, 1, 1::nat]]" "(0::int) \<le> 2" "(0::int) \<le> 1"
    "(0::int) \<le> 2 + 5" "(0::int) \<le> 1 + 1"
    "3 < width [[1, 1, 1, 1], [1, 1, 1, 1], [1, 1, 1, 1::nat]]"
    "1 < height [[1, 1, 1, 1], [1, 1, 1, 1], [1, 1, 1, 1::nat]]"
    by code_simp+
  have r: "in_rectangle 2 1 5 1 3 1" by code_simp
  have e: "add_rectangle [[1, 1, 1, 1], [1, 1, 1, 1], [1, 1, 1, 1]] 2 1 5 1
       = [[1, 1, 1, 1], [1, 1, 0, 0], [1, 1, 1, 1]]" by code_simp
  show ?thesis
    using rectangle_region [OF h] h r e by simp
qed

subsection \<open>C9: saving and reading a mask\<close>

text \<open>
  C9, as stated, fails: not every file gives the mask back.  \<open>cv2.imwrite\<close> raises
  for a name such as \<open>mask.xyz\<close>, whose extension has no writer; and for
  \<open>out/mask.pbm\<close>, where no directory \<open>out\<close> exists, it writes nothing and
  \<open>Mask.save\<close> returns as if it had, so that \<open>Mask.read\<close> finds no file.
\<close>

theorem mask_save_read_roundtrip_counterexample:
  "fst (Mask_save cv2_formats [[1, 0], [1, 1]] ''mask.xyz'' empty_world) = Inl (NoWriter ''mask.xyz'')
   \<and> fst (Mask_save cv2_formats [[1, 0], [1, 1]] ''out/mask.pbm'' empty_world) = Inr ()
   \<and> Mask_read (snd (Mask_save cv2_formats [[1, 0], [1, 1]] ''out/mask.pbm'' empty_world))
        ''out/mask.pbm'' = Inl (NotFound ''out/mask.pbm'')"
  by code_simp

text \<open>
  A lossy format does not give the pattern back either; with the stand-in of the
  examples a single invalid pixel among valid ones is lost.
\<close>

lemma lossy_format_example:
  "Mask_read (snd (Mask_save cv2_formats [[1, 1, 1], [1, 0, 1], [1, 1, 1]] ''mask.jpg'' empty_world))
     ''mask.jpg'' = Inr [[1, 1, 1], [1, 1, 1], [1, 1, 1]]"
  by code_simp

text \<open>
  C9, amended: for every non-empty mask and every file that can be created and whose
  extension selects a format that stores the values exactly or one bit per pixel,
  \<open>Mask.save\<close> succeeds and \<open>Mask.read\<close> of the same file returns the 0/1 pattern
  of the mask (\<open>Mask.value\<close>), which is its own pattern; \<open>_readmask\<close> sets every
  value above 0 to 1 and leaves 0.
\<close>

theorem mask_save_read_roundtrip:
  assumes "0 < height m" and "0 < width m"
    and "writer cv file = Some Exact \<or> writer cv file = Some Bilevel"
    and "can_create w file"
  shows "fst (Mask_save cv m file w) = Inr ()
       \<and> Mask_read (snd (Mask_save cv m file w)) file = Inr (Mask_value m)
       \<and> Mask_value (Mask_value m) = Mask_value m
       \<and> readmask_px (int v) = (if v > 0 then 1 else 0)"
proof -
  from assms(3) obtain fmt where fmt: "writer cv file = Some fmt" "fmt = Exact \<or> fmt = Bilevel"
    by blast
  have s: "Mask_save cv m file w
             = (Inr (), write_file file (Raster (map (map int) (decode cv file fmt m))) w)"
    using assms(1,2,4) fmt(1) by (simp add: Mask_save_def imwrite_def)
  have d: "Mask_value (decode cv file fmt m) = Mask_value m"
    using fmt(2) by (auto simp: decode_def Mask_value_def comp_def)
  have "map (map readmask_px) (map (map int) (decode cv file fmt m)) = Mask_value (decode cv file fmt m)"
    by (simp add: Mask_value_def readmask_px_nat comp_def)
  then have "Mask_read (write_file file (Raster (map (map int) (decode cv file fmt m))) w) file
               = Inr (Mask_value m)"
    using d by (simp add: Mask_read_def readmask_def exists_path_def write_file_def)
  moreover have "Mask_value (Mask_value m) = Mask_value m"
    by (simp add: Mask_value_def comp_def)
  ultimately show ?thesis by (simp add: s readmask_px_nat)
qed

theorem mask_save_read_roundtrip_witness:
  "0 < height [[1, 0], [7, 1::nat]] \<and> 0 < width [[1, 0], [7, 1::nat]]
   \<and> writer cv2_formats ''mask.pbm'' = Some Bilevel
   \<and> can_create empty_world ''mask.pbm''
   \<and> files (snd (Mask_save cv2_formats [[1, 0], [7, 1]] ''mask.pbm'' empty_world)) ''mask.pbm''
        = Some (Raster [[255, 0], [255, 255]])
   \<and> Mask_read (snd (Mask_save cv2_formats [[1, 0], [7, 1]] ''mask.pbm'' empty_world)) ''mask.pbm''
        = Inr [[1, 0], [1, 1]]"
proof -
  have h: "0 < height [[1, 0], [7, 1::nat]]" "0 < width [[1, 0], [7, 1::nat]]"
    by code_simp+
  have f: "writer cv2_formats ''mask.pbm'' = Some Bilevel" by code_simp
  have c: "can_create empty_world ''mask.pbm''" by code_simp
  have v: "Mask_value [[1, 0], [7, 1]] = [[1, 0], [1, 1]]" by code_simp
  have r: "files (snd (Mask_save cv2_formats [[1, 0], [7, 1]] ''mask.pbm'' empty_world)) ''mask.pbm''
        = Some (Raster [[255, 0], [255, 255]])"
    by code_simp
  show ?thesis
    using mask_save_read_roundtrip [OF h disjI2 [OF f] c] h f c v r by simp
qed

subsection \<open>C10: \<open>file_integrate\<close>\<close>

text \<open>
  C10: \<open>file_integrate\<close> leaves the world that \<open>series_integrate\<close> leaves for the
  single path with \<open>verbose\<close> forced off, so the two artifacts are the same.  But
  it never returns the output path: it has no \<open>return\<close>, and where
  \<open>series_integrate\<close> returns \<open>a.csv\<close> it returns \<open>None\<close>.
\<close>

theorem file_integrate_returns_none:
  "snd (file_integrate e f a w) = snd (series_integrate e (Path f) (a\<lparr>verbose := False\<rparr>) w)
   \<and> fst (file_integrate e f a w) \<noteq> Inr (Some d)
   \<and> fst (series_integrate env0 (Path ''a.tif'') (args0\<lparr>detecter := ''pilatus'', verbose := False\<rparr>) world0)
       = Inr ''a.csv''
   \<and> fst (file_integrate env0 ''a.tif'' (args0\<lparr>detecter := ''pilatus''\<rparr>) world0) = Inr None"
proof -
  have "fst (series_integrate env0 (Path ''a.tif'') (args0\<lparr>detecter := ''pilatus'', verbose := False\<rparr>) world0)
       = Inr ''a.csv''" by code_simp
  moreover have "fst (file_integrate env0 ''a.tif'' (args0\<lparr>detecter := ''pilatus''\<rparr>) world0) = Inr None"
    by code_simp
  ultimately show ?thesis
    using file_integrate_world [of e f a w] file_integrate_value [of e f a w d] by simp
qed

end
